(* ===== verification/Prelude.thy ===== *)
theory Prelude
  imports Main "HOL-Library.Word" "HOL-Library.Monad_Syntax"
begin

text \<open>
  Shared vocabulary of the development.

  \<^item> The C integer types of \<^verbatim>\<open>common/types.h\<close> as words: \<open>u8\<close>, \<open>u16\<close>, \<open>u32\<close>. Arithmetic on
    them wraps exactly as C's unsigned arithmetic does; a C \<^verbatim>\<open>int\<close> is either a \<open>u32\<close> read with
    \<open>sint\<close>, or an \<open>int\<close> where the value is one of a few small codes. A C \<^verbatim>\<open>char\<close> is a \<open>u8\<close>:
    plain \<^verbatim>\<open>char\<close> is unsigned in the ARM ABI the Makefile targets.
  \<^item> \<open>cstr\<close> turns an Isabelle string literal into the bytes of a C string, without its
    terminating NUL.
  \<^item> Code that may spin forever, or whose next step C leaves undefined (a read past an array),
    returns in the \<open>option\<close> type: \<open>None\<close> says that the call gives no defined result. Total
    results are therefore always stated as \<open>= Some _\<close>.
  \<^item> Slices of an array used as a ring, with the two lemmas (append at the tail, drop at the
    head) on which both circular buffers rest.
\<close>

unbundle bit_operations_syntax

type_synonym u8 = "8 word"
type_synonym u16 = "16 word"
type_synonym u32 = "32 word"

abbreviation cstr :: "string \<Rightarrow> u8 list" where
  "cstr s \<equiv> map of_char s"

text \<open>C's widening conversions between unsigned types.\<close>

abbreviation u16_of_u8 :: "u8 \<Rightarrow> u16" where "u16_of_u8 \<equiv> ucast"

abbreviation u32_of_u8 :: "u8 \<Rightarrow> u32" where "u32_of_u8 \<equiv> ucast"

abbreviation u32_of_u16 :: "u16 \<Rightarrow> u32" where "u32_of_u16 \<equiv> ucast"

named_theorems returns "rules by which a computation has a result"
named_theorems c_consts "defining equations of the C macros and enumerators"
named_theorems frame_simps "which parts of a state an operation leaves alone"
named_theorems byte_simps "reading multi-byte fields"

section \<open>Lists and options\<close>

lemma bind_SomeD:
  "Option.bind x f = Some y \<Longrightarrow> \<exists>a. x = Some a \<and> f a = Some y"
  by (cases x) auto

lemma bind_SomeE:
  assumes "Option.bind x g = Some y"
  obtains a where "x = Some a" "g a = Some y"
  using assms by (cases x) auto

lemma bind_eq_Some_conv':
  "(Option.bind x f = Some y) = (\<exists>a. x = Some a \<and> f a = Some y)"
  by (cases x) auto

lemma find_cong_set: "(\<And>x. x \<in> set xs \<Longrightarrow> P x = Q x) \<Longrightarrow> find P xs = find Q xs"
  by (induction xs) auto

lemma count_list_snoc [simp]:
  "count_list (xs @ [x]) y = count_list xs y + (if x = y then 1 else 0)"
  by simp

lemma nth_take_drop:
  "i < n \<Longrightarrow> k + n \<le> length xs \<Longrightarrow> take n (drop k xs) ! i = xs ! (k + i)"
  by simp

lemma take_drop_split:
  assumes "a + b \<le> n"
  shows "take a (drop k xs) @ take b (drop (k + a) xs) = take (a + b) (drop k xs)"
  by (simp add: take_add add.commute)

lemma fold_list_update:
  "length t = n \<Longrightarrow> k \<le> n \<Longrightarrow> foldl (\<lambda>t i. t[i := g i]) t [0..<k] = map g [0..<k] @ drop k t"
proof (induction k)
  case (Suc k)
  then have "drop k t = t ! k # drop (Suc k) t" by (simp add: Cons_nth_drop_Suc)
  then show ?case using Suc by (simp add: list_update_append)
qed simp

lemma sum_list_replicate_u: "sum_list (replicate n (k::nat)) = n * k"
  by (induction n) auto

section \<open>Words as naturals\<close>

lemma unat_u16_of_nat: "n < 65536 \<Longrightarrow> unat (word_of_nat n :: u16) = n"
  by (simp add: unat_of_nat take_bit_nat_eq_self)

lemma unat_u32_of_nat: "n < 4294967296 \<Longrightarrow> unat (word_of_nat n :: u32) = n"
  by (simp add: unat_of_nat take_bit_nat_eq_self)

lemma unat_u16_mod512 [simp]: "unat (word_of_nat (n mod 512) :: u16) = n mod 512"
  by (simp add: unat_of_nat)

lemma unat_u16_Suc: "unat (x::u16) < 65535 \<Longrightarrow> unat (x + 1) = Suc (unat x)"
  by (simp add: unat_word_ariths)

section \<open>Bytes of a word\<close>

lemma and_exp_word: "(a::'a::len word) AND 2 ^ n = (if bit a n then 2 ^ n else 0)"
  by (auto intro!: bit_word_eqI simp: bit_simps)

lemma not_bit_u8 [simp]: "8 \<le> n \<Longrightarrow> \<not> bit (a::u8) n"
  by (auto dest: bit_imp_le_length)

lemma unat_u8_bound: "unat (a::u8) < 256"
  by (rule order_less_le_trans[OF unsigned_less]) simp

lemma unat_u32_of_u8 [simp]: "unat (u32_of_u8 a) = unat a"
  using unat_u8_bound[of a] by (simp add: unsigned_ucast_eq take_bit_nat_eq_self)

lemma unat_u16_of_u8 [simp]: "unat (u16_of_u8 a) = unat a"
  using unat_u8_bound[of a] by (simp add: unsigned_ucast_eq take_bit_nat_eq_self)

lemma unat_u16_bound: "unat (a::u16) < 65536"
  by (rule order_less_le_trans[OF unsigned_less]) simp

lemma unat_u32_bound: "unat (a::u32) < 4294967296"
  by (rule order_less_le_trans[OF unsigned_less]) simp

lemma unat_u32_of_u16 [simp]: "unat (u32_of_u16 a) = unat a"
  using unat_u16_bound[of a] by (simp add: unsigned_ucast_eq take_bit_nat_eq_self)

lemma sint_u32_small:
  assumes "unat (w::u32) < 2147483648"
  shows "sint w = int (unat w)"
proof -
  have "uint w = int (unat w)" by simp
  then have "uint w < 2147483648" using assms by linarith
  moreover have "- (2 ^ 31) \<le> uint w" by (rule order_trans[OF _ unsigned_greater_eq]) simp
  ultimately have "signed_take_bit 31 (uint w) = uint w"
    by (intro signed_take_bit_int_eq_self) simp_all
  then show ?thesis by (simp add: sint_uint)
qed

lemma le_bytes_eq_iff:
  fixes a b c d :: u8 and v :: u32
  shows "(u32_of_u8 a OR push_bit 8 (u32_of_u8 b) OR push_bit 16 (u32_of_u8 c) OR push_bit 24 (u32_of_u8 d)) = v
   \<longleftrightarrow> a = ucast v \<and> b = ucast (drop_bit 8 v) \<and> c = ucast (drop_bit 16 v) \<and> d = ucast (drop_bit 24 v)"
  (is "?w = v \<longleftrightarrow> ?R")
proof
  assume "?w = v"
  then show ?R
    by (auto intro!: bit_word_eqI simp: bit_simps dest: bit_imp_le_length)
next
  assume R: ?R
  show "?w = v"
  proof (rule bit_word_eqI)
    fix n assume n: "n < LENGTH(32)"
    consider "n < 8" | "8 \<le> n" "n < 16" | "16 \<le> n" "n < 24" | "24 \<le> n" by linarith
    then show "bit ?w n \<longleftrightarrow> bit v n"
      using n R by cases (auto simp: bit_simps dest: bit_imp_le_length)
  qed
qed

lemma unat_le_bytes:
  fixes a b c d :: u8
  shows "unat (u32_of_u8 a OR push_bit 8 (u32_of_u8 b) OR push_bit 16 (u32_of_u8 c) OR push_bit 24 (u32_of_u8 d))
    = unat a + 256 * unat b + 65536 * unat c + 16777216 * unat d"
proof -
  have "(u32_of_u8 a OR push_bit 8 (u32_of_u8 b) OR push_bit 16 (u32_of_u8 c) OR push_bit 24 (u32_of_u8 d)) =
    u32_of_u8 a + (push_bit 8 (u32_of_u8 b) + (push_bit 16 (u32_of_u8 c) + push_bit 24 (u32_of_u8 d)))"
    by (subst disjunctive_add; (auto simp: bit_simps dest: bit_imp_le_length)?)+
  then show ?thesis
    using unat_u8_bound[of a] unat_u8_bound[of b] unat_u8_bound[of c] unat_u8_bound[of d]
    by (simp add: unat_word_ariths push_bit_eq_mult)
qed


lemma le_bytes16_eq_iff:
  fixes a b :: u8 and v :: u16
  shows "(u16_of_u8 a OR push_bit 8 (u16_of_u8 b)) = v \<longleftrightarrow> a = ucast v \<and> b = ucast (drop_bit 8 v)"
  (is "?w = v \<longleftrightarrow> ?R")
proof
  assume "?w = v"
  then show ?R by (auto intro!: bit_word_eqI simp: bit_simps dest: bit_imp_le_length)
next
  assume R: ?R
  show "?w = v"
  proof (rule bit_word_eqI)
    fix n assume n: "n < LENGTH(16)"
    consider "n < 8" | "8 \<le> n" by linarith
    then show "bit ?w n \<longleftrightarrow> bit v n"
      using n R by cases (auto simp: bit_simps dest: bit_imp_le_length)
  qed
qed

section \<open>Arrays used as rings\<close>

definition ring_slice :: "'a list \<Rightarrow> nat \<Rightarrow> nat \<Rightarrow> 'a list" where
  "ring_slice buf h n = map (\<lambda>i. buf ! ((h + i) mod length buf)) [0..<n]"

lemma length_ring_slice [simp]: "length (ring_slice buf h n) = n"
  by (simp add: ring_slice_def)

lemma ring_slice_0 [simp]: "ring_slice buf h 0 = []"
  by (simp add: ring_slice_def)

lemma ring_slice_update_other:
  assumes "n \<le> k" "k < length buf"
  shows "ring_slice (buf[(h + k) mod length buf := x]) h n = ring_slice buf h n"
proof -
  have "(h + k) mod length buf \<noteq> (h + i) mod length buf" if "i < n" for i
  proof
    assume "(h + k) mod length buf = (h + i) mod length buf"
    then have "length buf dvd (h + k) - (h + i)"
      using that assms(1) by (metis add_le_cancel_left mod_eq_dvd_iff_nat less_imp_le order_trans)
    moreover have "0 < (h + k) - (h + i)" "(h + k) - (h + i) < length buf"
      using that assms by auto
    ultimately show False by (auto dest: dvd_imp_le)
  qed
  then show ?thesis by (simp add: ring_slice_def)
qed

text \<open>Writing the slot just past a slice that does not fill the array extends the slice.\<close>

lemma ring_slice_push:
  assumes "n < length buf"
  shows "ring_slice (buf[(h + n) mod length buf := x]) h (Suc n) = ring_slice buf h n @ [x]"
proof -
  have "(h + n) mod length buf < length buf" using assms by (intro mod_less_divisor) linarith
  then show ?thesis
    using ring_slice_update_other[of n n buf h x] assms
    by (simp add: ring_slice_def)
qed

text \<open>Advancing the head drops the first element.\<close>

lemma ring_slice_pop:
  assumes "buf \<noteq> []"
  shows "ring_slice buf h (Suc n) = buf ! (h mod length buf) # ring_slice buf (Suc h mod length buf) n"
proof -
  have "(h + Suc i) mod length buf = (Suc h mod length buf + i) mod length buf" for i
    by (simp add: mod_add_left_eq)
  then show ?thesis
    by (simp add: ring_slice_def upt_conv_Cons map_Suc_upt[symmetric] comp_def del: upt_Suc)
qed

section \<open>Computations that return\<close>

text \<open>
  A computation of option type returns when it is not \<open>None\<close>. The rules below follow the structure of
  a program text, so that a routine returns when the routines it calls do.
\<close>

lemma returns_Some [returns]: "Some x \<noteq> None"
  by simp

lemma returns_bind [returns]: "x \<noteq> None \<Longrightarrow> (\<And>y. f y \<noteq> None) \<Longrightarrow> Option.bind x f \<noteq> None"
  by (cases x) auto

lemma returns_let [returns]: "(\<And>y. f y \<noteq> None) \<Longrightarrow> Let x f \<noteq> None"
  by (simp add: Let_def)

lemma returns_if [returns]: "x \<noteq> None \<Longrightarrow> y \<noteq> None \<Longrightarrow> (if b then x else y) \<noteq> None"
  by simp

lemma returns_prod [returns]: "(\<And>a b. f a b \<noteq> None) \<Longrightarrow> (case p of (a, b) \<Rightarrow> f a b) \<noteq> None"
  by (cases p) simp

end
