(* ===== verification/Circular_Buffer.thy ===== *)
theory Circular_Buffer
  imports Prelude
begin

text \<open>
  The two circular buffers of \<^verbatim>\<open>common/circular_buffer.c\<close>: the character buffer behind each UART
  and the generic buffer of \<^verbatim>\<open>void*\<close> used by the scheduler. Both are arrays of 512 slots with
  16-bit head, tail and size fields; the character buffer also counts the newlines it holds.

  The interface both give their clients is the locale \<open>bounded_fifo\<close>: a queue of bounded
  length. Its derived lemmas (a run of pushes and pops behaves as on a list) are proved once and
  interpreted for both buffers.
\<close>

section \<open>Data and operations\<close>

definition CHAR_BUFFER_SIZE :: nat where [c_consts]: "CHAR_BUFFER_SIZE = 512"

definition GENERIC_BUFFER_SIZE :: nat where [c_consts]: "GENERIC_BUFFER_SIZE = 512"

definition NEWLINE :: u8 where [c_consts]: "NEWLINE = 10"

record circular_char_buffer_t =
  ccb_buffer :: "u8 list"
  ccb_head :: u16
  ccb_tail :: u16
  ccb_size :: u16
  ccb_lines :: u16

record 'p generic_circular_buffer_t =
  gcb_buffer :: "'p list"
  gcb_head :: u16
  gcb_tail :: u16
  gcb_size :: u16

text \<open>The C expression \<^verbatim>\<open>(i + 1) % 512\<close> is computed in \<^verbatim>\<open>int\<close> and stored back in 16 bits.\<close>

definition next_index :: "u16 \<Rightarrow> nat \<Rightarrow> u16" where
  "next_index i n = word_of_nat ((unat i + 1) mod n)"

definition circular_char_buffer_init :: "circular_char_buffer_t \<Rightarrow> circular_char_buffer_t" where
  "circular_char_buffer_init b =
     b\<lparr>ccb_head := 0, ccb_tail := 0, ccb_size := 0, ccb_lines := 0\<rparr>"

definition circular_char_buffer_push ::
    "circular_char_buffer_t \<Rightarrow> u8 \<Rightarrow> bool \<times> circular_char_buffer_t" where
  "circular_char_buffer_push b c =
     (if unat (ccb_size b) = CHAR_BUFFER_SIZE then (False, b)
      else
        let b1 = b\<lparr>ccb_buffer := (ccb_buffer b)[unat (ccb_tail b) := c],
                   ccb_tail := next_index (ccb_tail b) CHAR_BUFFER_SIZE,
                   ccb_size := ccb_size b + 1\<rparr>;
            b2 = (if c = NEWLINE then b1\<lparr>ccb_lines := ccb_lines b1 + 1\<rparr> else b1)
        in (True, b2))"

text \<open>A pop returns \<open>None\<close> where the C function returns \<^verbatim>\<open>false\<close> and leaves \<^verbatim>\<open>*c\<close> alone.\<close>

definition circular_char_buffer_pop ::
    "circular_char_buffer_t \<Rightarrow> (u8 \<times> circular_char_buffer_t) option" where
  "circular_char_buffer_pop b =
     (if ccb_size b = 0 then None
      else
        let c = ccb_buffer b ! unat (ccb_head b);
            b1 = b\<lparr>ccb_head := next_index (ccb_head b) CHAR_BUFFER_SIZE,
                   ccb_size := ccb_size b - 1\<rparr>;
            b2 = (if c = NEWLINE then b1\<lparr>ccb_lines := ccb_lines b1 - 1\<rparr> else b1)
        in Some (c, b2))"

definition generic_circular_buffer_init ::
    "'p generic_circular_buffer_t \<Rightarrow> 'p generic_circular_buffer_t" where
  "generic_circular_buffer_init b = b\<lparr>gcb_head := 0, gcb_tail := 0, gcb_size := 0\<rparr>"

definition generic_circular_buffer_push ::
    "'p generic_circular_buffer_t \<Rightarrow> 'p \<Rightarrow> bool \<times> 'p generic_circular_buffer_t" where
  "generic_circular_buffer_push b x =
     (if unat (gcb_size b) = GENERIC_BUFFER_SIZE then (False, b)
      else (True, b\<lparr>gcb_buffer := (gcb_buffer b)[unat (gcb_tail b) := x],
                    gcb_tail := next_index (gcb_tail b) GENERIC_BUFFER_SIZE,
                    gcb_size := gcb_size b + 1\<rparr>))"

definition generic_circular_buffer_pop ::
    "'p generic_circular_buffer_t \<Rightarrow> ('p \<times> 'p generic_circular_buffer_t) option" where
  "generic_circular_buffer_pop b =
     (if gcb_size b = 0 then None
      else Some (gcb_buffer b ! unat (gcb_head b),
                 b\<lparr>gcb_head := next_index (gcb_head b) GENERIC_BUFFER_SIZE,
                   gcb_size := gcb_size b - 1\<rparr>))"

section \<open>Abstraction and invariants\<close>

text \<open>The queued elements, oldest first.\<close>

definition ccb_list :: "circular_char_buffer_t \<Rightarrow> u8 list" where
  "ccb_list b = ring_slice (ccb_buffer b) (unat (ccb_head b)) (unat (ccb_size b))"

definition gcb_list :: "'p generic_circular_buffer_t \<Rightarrow> 'p list" where
  "gcb_list b = ring_slice (gcb_buffer b) (unat (gcb_head b)) (unat (gcb_size b))"

definition ccb_array_ok :: "circular_char_buffer_t \<Rightarrow> bool" where
  "ccb_array_ok b \<longleftrightarrow> length (ccb_buffer b) = 512"

definition gcb_array_ok :: "'p generic_circular_buffer_t \<Rightarrow> bool" where
  "gcb_array_ok b \<longleftrightarrow> length (gcb_buffer b) = 512"

definition ring_ok :: "'a list \<Rightarrow> u16 \<Rightarrow> u16 \<Rightarrow> u16 \<Rightarrow> bool" where
  "ring_ok buf h t n \<longleftrightarrow>
     length buf = 512 \<and> unat h < 512 \<and> unat n \<le> 512 \<and> unat t = (unat h + unat n) mod 512"

definition ccb_inv :: "circular_char_buffer_t \<Rightarrow> bool" where
  "ccb_inv b \<longleftrightarrow>
     ring_ok (ccb_buffer b) (ccb_head b) (ccb_tail b) (ccb_size b) \<and>
     unat (ccb_lines b) = count_list (ccb_list b) NEWLINE"

definition gcb_inv :: "'p generic_circular_buffer_t \<Rightarrow> bool" where
  "gcb_inv b \<longleftrightarrow> ring_ok (gcb_buffer b) (gcb_head b) (gcb_tail b) (gcb_size b)"

section \<open>The interface: a bounded first-in first-out queue\<close>

datatype 'a queue_op = Push 'a | Pop

datatype 'a queue_answer = Pushed bool | Popped "'a option"

text \<open>What the operations mean on a list of at most \<open>cap\<close> elements.\<close>

fun spec_op :: "nat \<Rightarrow> 'a list \<Rightarrow> 'a queue_op \<Rightarrow> 'a queue_answer \<times> 'a list" where
  "spec_op cap xs (Push x) =
     (if length xs = cap then (Pushed False, xs) else (Pushed True, xs @ [x]))"
| "spec_op cap [] Pop = (Popped None, [])"
| "spec_op cap (x # xs) Pop = (Popped (Some x), xs)"

fun spec_run :: "nat \<Rightarrow> 'a list \<Rightarrow> 'a queue_op list \<Rightarrow> 'a queue_answer list \<times> 'a list" where
  "spec_run cap xs [] = ([], xs)"
| "spec_run cap xs (w # ws) =
     (let (r, ys) = spec_op cap xs w; (rs, zs) = spec_run cap ys ws in (r # rs, zs))"

definition impl_op ::
    "('q \<Rightarrow> 'a \<Rightarrow> bool \<times> 'q) \<Rightarrow> ('q \<Rightarrow> ('a \<times> 'q) option) \<Rightarrow> 'q \<Rightarrow> 'a queue_op \<Rightarrow>
     'a queue_answer \<times> 'q" where
  "impl_op push pop q w =
     (case w of
        Push x \<Rightarrow> (case push q x of (ok, q') \<Rightarrow> (Pushed ok, q'))
      | Pop \<Rightarrow> (case pop q of None \<Rightarrow> (Popped None, q) | Some (x, q') \<Rightarrow> (Popped (Some x), q')))"

fun impl_run ::
    "('q \<Rightarrow> 'a \<Rightarrow> bool \<times> 'q) \<Rightarrow> ('q \<Rightarrow> ('a \<times> 'q) option) \<Rightarrow> 'q \<Rightarrow> 'a queue_op list \<Rightarrow>
     'a queue_answer list \<times> 'q" where
  "impl_run push pop q [] = ([], q)"
| "impl_run push pop q (w # ws) =
     (let (r, q1) = impl_op push pop q w; (rs, q2) = impl_run push pop q1 ws in (r # rs, q2))"

locale bounded_fifo =
  fixes cap :: nat
    and wf :: "'q \<Rightarrow> bool"
    and init :: "'q \<Rightarrow> 'q"
    and push :: "'q \<Rightarrow> 'a \<Rightarrow> bool \<times> 'q"
    and pop :: "'q \<Rightarrow> ('a \<times> 'q) option"
    and contents :: "'q \<Rightarrow> 'a list"
    and inv :: "'q \<Rightarrow> bool"
  assumes inv_init: "wf q \<Longrightarrow> inv (init q)"
    and contents_init: "wf q \<Longrightarrow> contents (init q) = []"
    and inv_bound: "inv q \<Longrightarrow> length (contents q) \<le> cap"
    and push_full: "inv q \<Longrightarrow> length (contents q) = cap \<Longrightarrow> push q x = (False, q)"
    and push_room: "inv q \<Longrightarrow> length (contents q) < cap \<Longrightarrow>
          \<exists>q'. push q x = (True, q') \<and> inv q' \<and> contents q' = contents q @ [x]"
    and pop_empty: "inv q \<Longrightarrow> contents q = [] \<Longrightarrow> pop q = None"
    and pop_cons: "inv q \<Longrightarrow> contents q = x # xs \<Longrightarrow>
          \<exists>q'. pop q = Some (x, q') \<and> inv q' \<and> contents q' = xs"
begin

lemma push_cases:
  assumes "inv q"
  obtains "length (contents q) = cap" "push q x = (False, q)"
  | q' where "length (contents q) < cap" "push q x = (True, q')" "inv q'"
      "contents q' = contents q @ [x]"
  using assms inv_bound[OF assms] push_full[OF assms] push_room[OF assms]
  by (metis le_neq_implies_less)

lemma pop_cases:
  assumes "inv q"
  obtains "contents q = []" "pop q = None"
  | x q' where "pop q = Some (x, q')" "inv q'" "contents q = x # contents q'"
  using assms pop_empty[OF assms] pop_cons[OF assms] by (metis neq_Nil_conv)

lemma pop_SomeD:
  assumes "inv q" "pop q = Some (x, q')"
  shows "inv q'" "contents q = x # contents q'"
  using pop_cases[OF assms(1)] assms(2) by fastforce+

lemma op_refines:
  assumes "inv q"
  shows "\<exists>q'. impl_op push pop q w = (fst (spec_op cap (contents q) w), q') \<and>
              inv q' \<and> contents q' = snd (spec_op cap (contents q) w)"
proof (cases w)
  case (Push x)
  show ?thesis
  proof (rule push_cases[OF assms, of x])
    assume "length (contents q) = cap" "push q x = (False, q)"
    then show ?thesis using Push assms by (simp add: impl_op_def)
  next
    fix q' assume "length (contents q) < cap" "push q x = (True, q')" "inv q'"
      "contents q' = contents q @ [x]"
    then show ?thesis using Push by (simp add: impl_op_def)
  qed
next
  case Pop
  show ?thesis
  proof (rule pop_cases[OF assms])
    assume "contents q = []" "pop q = None"
    then show ?thesis using Pop assms by (simp add: impl_op_def)
  next
    fix x q' assume "pop q = Some (x, q')" "inv q'" "contents q = x # contents q'"
    then show ?thesis using Pop by (simp add: impl_op_def)
  qed
qed

text \<open>A run of operations gives the answers of the list and ends in a queue that holds it.\<close>

lemma run_refines:
  assumes "inv q"
  shows "\<exists>q'. impl_run push pop q ws = (fst (spec_run cap (contents q) ws), q') \<and>
              inv q' \<and> contents q' = snd (spec_run cap (contents q) ws)"
  using assms
proof (induction ws arbitrary: q)
  case Nil
  then show ?case by simp
next
  case (Cons w ws)
  obtain q1 where q1: "impl_op push pop q w = (fst (spec_op cap (contents q) w), q1)" "inv q1"
    "contents q1 = snd (spec_op cap (contents q) w)"
    using op_refines[OF Cons.prems] by blast
  then show ?case
    using Cons.IH[OF q1(2)] by (auto simp: split_beta Let_def)
qed

text \<open>Elements come out in the order they went in.\<close>

lemma fifo_order:
  assumes "wf q" "length xs \<le> cap"
  shows "\<exists>q'. impl_run push pop (init q) (map Push xs @ replicate (length xs) Pop) =
                (replicate (length xs) (Pushed True) @ map (Popped \<circ> Some) xs, q') \<and>
              inv q' \<and> contents q' = []"
proof -
  have pops: "spec_run cap ys (replicate (length ys) Pop) = (map (Popped \<circ> Some) ys, [])" for ys :: "'a list"
    by (induction ys) auto
  have "spec_run cap ys (map Push zs @ ws) =
          (replicate (length zs) (Pushed True) @ fst (spec_run cap (ys @ zs) ws),
           snd (spec_run cap (ys @ zs) ws))"
    if "length ys + length zs \<le> cap" for ys zs :: "'a list" and ws
    using that by (induction zs arbitrary: ys) (auto simp: split_beta Let_def)
  from this[of "[]" xs "replicate (length xs) Pop"] assms
  have "spec_run cap [] (map Push xs @ replicate (length xs) Pop) =
          (replicate (length xs) (Pushed True) @ map (Popped \<circ> Some) xs, [])"
    by (simp add: pops)
  then show ?thesis
    using run_refines[OF inv_init[OF assms(1)], of "map Push xs @ replicate (length xs) Pop"]
    by (simp add: contents_init[OF assms(1)])
qed

end

section \<open>Both buffers meet the interface\<close>

lemma ring_ok_push:
  assumes "ring_ok buf h t n" "unat n < 512"
  shows "ring_ok (buf[unat t := x]) h (next_index t 512) (n + 1)"
    and "ring_slice (buf[unat t := x]) (unat h) (unat (n + 1)) = ring_slice buf (unat h) (unat n) @ [x]"
proof -
  have n: "unat (n + 1) = Suc (unat n)"
    using assms(2) by (intro unat_u16_Suc) simp
  have t: "unat t = (unat h + unat n) mod length buf" and len: "length buf = 512"
    using assms(1) by (auto simp: ring_ok_def)
  show "ring_ok (buf[unat t := x]) h (next_index t 512) (n + 1)"
    using assms n by (simp add: ring_ok_def next_index_def mod_simps)
  show "ring_slice (buf[unat t := x]) (unat h) (unat (n + 1)) = ring_slice buf (unat h) (unat n) @ [x]"
    using ring_slice_push[of "unat n" buf "unat h" x] assms(2) t len n by simp
qed

lemma unat_u16_pred: "(n::u16) \<noteq> 0 \<Longrightarrow> unat n = Suc (unat (n - 1))"
  by (simp add: unat_minus_one unat_gt_0)

lemma ring_ok_pop:
  assumes "ring_ok buf h t n" "n \<noteq> 0"
  shows "ring_ok buf (next_index h 512) t (n - 1)"
    and "ring_slice buf (unat h) (unat n) =
           buf ! unat h # ring_slice buf (unat (next_index h 512)) (unat (n - 1))"
proof -
  have n: "unat n = Suc (unat (n - 1))"
    using assms(2) by (rule unat_u16_pred)
  have len: "length buf = 512" and h: "unat h < 512"
    using assms(1) by (auto simp: ring_ok_def)
  show "ring_ok buf (next_index h 512) t (n - 1)"
    using assms n by (simp add: ring_ok_def next_index_def mod_simps)
  show "ring_slice buf (unat h) (unat n) =
           buf ! unat h # ring_slice buf (unat (next_index h 512)) (unat (n - 1))"
    using ring_slice_pop[of buf "unat h" "unat (n - 1)"] len h n
    by (cases buf) (simp_all add: next_index_def)
qed

lemmas ccb_ops = circular_char_buffer_init_def circular_char_buffer_push_def
  circular_char_buffer_pop_def c_consts

lemmas gcb_ops = generic_circular_buffer_init_def generic_circular_buffer_push_def
  generic_circular_buffer_pop_def c_consts

lemma count_newlines_bound: "ccb_inv b \<Longrightarrow> count_list (ccb_list b) x \<le> 512"
  using count_le_length[of "ccb_list b" x] by (simp add: ccb_inv_def ring_ok_def ccb_list_def)

lemma ccb_push_room:
  assumes "ccb_inv b" "length (ccb_list b) < 512"
  shows "\<exists>b'. circular_char_buffer_push b c = (True, b') \<and> ccb_inv b' \<and>
              ccb_list b' = ccb_list b @ [c]"
proof -
  have ok: "ring_ok (ccb_buffer b) (ccb_head b) (ccb_tail b) (ccb_size b)" and "unat (ccb_size b) < 512"
    using assms by (auto simp: ccb_inv_def ccb_list_def)
  note r = ring_ok_push[OF this, of c]
  have "unat (ccb_lines b + 1) = Suc (unat (ccb_lines b))"
    using assms(1) count_newlines_bound[OF assms(1), of NEWLINE]
    by (intro unat_u16_Suc) (simp add: ccb_inv_def)
  then show ?thesis
    using r assms by (auto simp: ccb_ops ccb_inv_def ccb_list_def Let_def)
qed

lemma ccb_pop_cons:
  assumes "ccb_inv b" "ccb_list b = c # cs"
  shows "\<exists>b'. circular_char_buffer_pop b = Some (c, b') \<and> ccb_inv b' \<and> ccb_list b' = cs"
proof -
  have ok: "ring_ok (ccb_buffer b) (ccb_head b) (ccb_tail b) (ccb_size b)" and n0: "ccb_size b \<noteq> 0"
    using assms by (auto simp: ccb_inv_def ccb_list_def)
  note r = ring_ok_pop[OF this]
  have "c = NEWLINE \<Longrightarrow> ccb_lines b \<noteq> 0"
    using assms by (auto simp: ccb_inv_def)
  then have "c = NEWLINE \<Longrightarrow> unat (ccb_lines b) = Suc (unat (ccb_lines b - 1))"
    using unat_u16_pred by blast
  then show ?thesis
    using r n0 assms by (auto simp: ccb_ops ccb_inv_def ccb_list_def Let_def)
qed

interpretation char_fifo: bounded_fifo 512 ccb_array_ok circular_char_buffer_init
  circular_char_buffer_push circular_char_buffer_pop ccb_list ccb_inv
proof
  fix b :: circular_char_buffer_t and c cs
  show "ccb_array_ok b \<Longrightarrow> ccb_inv (circular_char_buffer_init b)"
    and "ccb_array_ok b \<Longrightarrow> ccb_list (circular_char_buffer_init b) = []"
    by (simp_all add: ccb_ops ccb_array_ok_def ccb_inv_def ring_ok_def ccb_list_def)
  show "ccb_inv b \<Longrightarrow> length (ccb_list b) \<le> 512"
    by (simp add: ccb_inv_def ring_ok_def ccb_list_def)
  show "ccb_inv b \<Longrightarrow> length (ccb_list b) = 512 \<Longrightarrow> circular_char_buffer_push b c = (False, b)"
    by (simp add: ccb_ops ccb_list_def)
  show "ccb_inv b \<Longrightarrow> ccb_list b = [] \<Longrightarrow> circular_char_buffer_pop b = None"
    by (simp add: ccb_ops ccb_list_def ring_slice_def unat_eq_0)
qed (fact ccb_push_room ccb_pop_cons)+

interpretation ptr_fifo: bounded_fifo 512 gcb_array_ok generic_circular_buffer_init
  generic_circular_buffer_push generic_circular_buffer_pop gcb_list gcb_inv
proof
  fix b :: "'p generic_circular_buffer_t" and x xs
  show "gcb_array_ok b \<Longrightarrow> gcb_inv (generic_circular_buffer_init b)"
    and "gcb_array_ok b \<Longrightarrow> gcb_list (generic_circular_buffer_init b) = []"
    by (simp_all add: gcb_ops gcb_array_ok_def gcb_inv_def ring_ok_def gcb_list_def)
  show "gcb_inv b \<Longrightarrow> length (gcb_list b) \<le> 512"
    by (simp add: gcb_inv_def ring_ok_def gcb_list_def)
  show "gcb_inv b \<Longrightarrow> length (gcb_list b) = 512 \<Longrightarrow> generic_circular_buffer_push b x = (False, b)"
    by (simp add: gcb_ops gcb_list_def)
  show "gcb_inv b \<Longrightarrow> length (gcb_list b) < 512 \<Longrightarrow>
      \<exists>b'. generic_circular_buffer_push b x = (True, b') \<and> gcb_inv b' \<and> gcb_list b' = gcb_list b @ [x]"
    using ring_ok_push[of "gcb_buffer b" "gcb_head b" "gcb_tail b" "gcb_size b" x]
    by (auto simp: gcb_ops gcb_inv_def gcb_list_def)
  show "gcb_inv b \<Longrightarrow> gcb_list b = [] \<Longrightarrow> generic_circular_buffer_pop b = None"
    by (simp add: gcb_ops gcb_list_def ring_slice_def unat_eq_0)
  show "gcb_inv b \<Longrightarrow> gcb_list b = x # xs \<Longrightarrow>
      \<exists>b'. generic_circular_buffer_pop b = Some (x, b') \<and> gcb_inv b' \<and> gcb_list b' = xs"
    using ring_ok_pop[of "gcb_buffer b" "gcb_head b" "gcb_tail b" "gcb_size b"]
    by (auto simp: gcb_ops gcb_inv_def gcb_list_def)
qed

section \<open>Properties\<close>

text \<open>
  C14. The UART character buffer is a first-in first-out queue of at most 512 characters: from any
  state that satisfies its invariant, any sequence of pushes and pops gives exactly the answers
  (accepted or refused, character or empty) of the same sequence on a list, the invariant holds
  again afterwards, and the buffer then holds what the list holds. The invariant includes that
  \<^verbatim>\<open>lines\<close> is the number of newlines in the buffer and that the indices stay inside the array.
\<close>

theorem char_buffer_refines_fifo:
  assumes "ccb_inv b"
  shows "\<exists>b'. impl_run circular_char_buffer_push circular_char_buffer_pop b ws =
                (fst (spec_run 512 (ccb_list b) ws), b') \<and>
              ccb_inv b' \<and> ccb_list b' = snd (spec_run 512 (ccb_list b) ws)"
  using assms by (rule char_fifo.run_refines)

definition ccb_example :: circular_char_buffer_t where
  "ccb_example = circular_char_buffer_init
     \<lparr>ccb_buffer = replicate 512 0, ccb_head = 7, ccb_tail = 9, ccb_size = 2, ccb_lines = 1\<rparr>"

lemma ccb_example_inv: "ccb_inv ccb_example" and ccb_example_list: "ccb_list ccb_example = []"
  unfolding ccb_example_def
  by (rule char_fifo.inv_init char_fifo.contents_init, simp add: ccb_array_ok_def)+

theorem char_buffer_refines_fifo_witness:
  "\<exists>b'. impl_run circular_char_buffer_push circular_char_buffer_pop ccb_example
           [Push 65, Push 10, Pop, Pop, Pop] =
         ([Pushed True, Pushed True, Popped (Some 65), Popped (Some 10), Popped None], b') \<and>
         ccb_inv b' \<and> ccb_list b' = []"
  using char_buffer_refines_fifo[OF ccb_example_inv, of "[Push 65, Push 10, Pop, Pop, Pop]"]
  by (simp add: ccb_example_list)

text \<open>
  The scheduler's buffer of process pointers is a first-in first-out queue of at most 512
  pointers, in the same sense.
\<close>

theorem generic_buffer_refines_fifo:
  fixes b :: "'p generic_circular_buffer_t"
  assumes "gcb_inv b"
  shows "\<exists>b'. impl_run generic_circular_buffer_push generic_circular_buffer_pop b ws =
                (fst (spec_run 512 (gcb_list b) ws), b') \<and>
              gcb_inv b' \<and> gcb_list b' = snd (spec_run 512 (gcb_list b) ws)"
  using assms by (rule ptr_fifo.run_refines)

definition gcb_example :: "nat generic_circular_buffer_t" where
  "gcb_example = generic_circular_buffer_init
     \<lparr>gcb_buffer = replicate 512 0, gcb_head = 3, gcb_tail = 4, gcb_size = 1\<rparr>"

lemma gcb_example_inv: "gcb_inv gcb_example" and gcb_example_list: "gcb_list gcb_example = []"
  unfolding gcb_example_def
  by (rule ptr_fifo.inv_init ptr_fifo.contents_init, simp add: gcb_array_ok_def)+

theorem generic_buffer_refines_fifo_witness:
  "\<exists>b'. impl_run generic_circular_buffer_push generic_circular_buffer_pop gcb_example
           [Push 1, Push 2, Pop] = ([Pushed True, Pushed True, Popped (Some 1)], b') \<and>
         gcb_inv b' \<and> gcb_list b' = [2]"
  using generic_buffer_refines_fifo[OF gcb_example_inv, of "[Push 1, Push 2, Pop]"]
  by (simp add: gcb_example_list)

text \<open>
  What is pushed into a freshly initialised character buffer, up to its capacity, comes out
  unchanged and in order, and leaves the buffer empty.
\<close>

theorem char_buffer_push_pop_roundtrip:
  assumes "ccb_array_ok b" "length cs \<le> 512"
  shows "\<exists>b'. impl_run circular_char_buffer_push circular_char_buffer_pop
                (circular_char_buffer_init b) (map Push cs @ replicate (length cs) Pop) =
                (replicate (length cs) (Pushed True) @ map (Popped \<circ> Some) cs, b') \<and>
              ccb_inv b' \<and> ccb_list b' = []"
  using assms by (rule char_fifo.fifo_order)

theorem char_buffer_push_pop_roundtrip_witness:
  "\<exists>b'. impl_run circular_char_buffer_push circular_char_buffer_pop
          (circular_char_buffer_init ccb_example) [Push 72, Push 105, Pop, Pop] =
          ([Pushed True, Pushed True, Popped (Some 72), Popped (Some 105)], b') \<and>
        ccb_inv b' \<and> ccb_list b' = []"
proof -
  have "ccb_array_ok ccb_example"
    using ccb_example_inv by (simp add: ccb_inv_def ring_ok_def ccb_array_ok_def)
  from char_buffer_push_pop_roundtrip[OF this, of "[72, 105]"] show ?thesis by simp
qed

end
