(* ===== verification/Fat32.thy ===== *)
theory Fat32
  imports Prelude
begin

text \<open>
  The FAT32 driver of \<^verbatim>\<open>os/fs/fat32.c\<close> and \<^verbatim>\<open>os/fs/fat32.h\<close>, first part: the on-disk structures,
  the in-memory file-system structure, the small library functions the driver carries, and
  mounting.

  A sector is the list of its 512 bytes. The packed C structures laid over a sector buffer are
  read at their byte offsets (\<open>read_unaligned_uint16\<close>, \<open>read_unaligned_uint32\<close>). The disk is the
  function pointer \<^verbatim>\<open>read_sector\<close> of \<^verbatim>\<open>fat32_diskio_t\<close>: a parameter of the model that gives
  \<open>None\<close> where the C function returns a non-zero code. A pointer argument that the code compares
  with NULL is an \<open>option\<close>.
\<close>

section \<open>Constants\<close>

definition MBR_SIGNATURE :: u16 where [c_consts]: "MBR_SIGNATURE = 0xAA55"
definition FAT32_ERROR_IO :: int where [c_consts]: "FAT32_ERROR_IO = -1"
definition FAT32_ERROR_INVALID_BOOT_SECTOR :: int where [c_consts]: "FAT32_ERROR_INVALID_BOOT_SECTOR = -2"
definition FAT32_ERROR_NO_FILE :: int where [c_consts]: "FAT32_ERROR_NO_FILE = -3"
definition FAT32_ERROR_BAD_PARAMETER :: int where [c_consts]: "FAT32_ERROR_BAD_PARAMETER = -4"
definition FAT32_ERROR_CORRUPTED_FS :: int where [c_consts]: "FAT32_ERROR_CORRUPTED_FS = -5"
definition FAT32_ERROR_NO_PATH :: int where [c_consts]: "FAT32_ERROR_NO_PATH = -8"
definition FAT32_ERROR_IS_DIR :: int where [c_consts]: "FAT32_ERROR_IS_DIR = -9"
definition FAT32_ERROR_NO_LABEL :: int where [c_consts]: "FAT32_ERROR_NO_LABEL = -12"
definition FAT32_ERROR_INVALID_CLUSTER :: int where [c_consts]: "FAT32_ERROR_INVALID_CLUSTER = -13"
definition FAT32_SUCCESS :: int where [c_consts]: "FAT32_SUCCESS = 0"
definition FAT32_MAGIC :: u32 where [c_consts]: "FAT32_MAGIC = 0xF32F32F3"
definition FAT32_SECTOR_SIZE :: nat where [c_consts]: "FAT32_SECTOR_SIZE = 512"
definition FAT32_BOOT_SECTOR_SIGNATURE :: u32 where [c_consts]: "FAT32_BOOT_SECTOR_SIGNATURE = 0xAA55"
definition FAT32_PART_TYPE_1 :: u8 where [c_consts]: "FAT32_PART_TYPE_1 = 0x0B"
definition FAT32_PART_TYPE_2 :: u8 where [c_consts]: "FAT32_PART_TYPE_2 = 0x0C"
definition FAT32_MAX_COMPONENTS :: nat where [c_consts]: "FAT32_MAX_COMPONENTS = 16"
definition FAT32_MAX_COMPONENT_LENGTH :: nat where [c_consts]: "FAT32_MAX_COMPONENT_LENGTH = 64"
definition FAT32_ATTR_DIRECTORY :: u8 where [c_consts]: "FAT32_ATTR_DIRECTORY = 0x10"
definition FAT32_ATTR_VOLLABEL :: u8 where [c_consts]: "FAT32_ATTR_VOLLABEL = 0x08"
definition FAT32_EOC_MARKER :: u32 where [c_consts]: "FAT32_EOC_MARKER = 0x0FFFFFFF"
definition FAT32_LAST_MARKER :: u32 where [c_consts]: "FAT32_LAST_MARKER = 0x0FFFFFF8"
definition FAT32_ENTRY_EMPTY :: u8 where [c_consts]: "FAT32_ENTRY_EMPTY = 0x00"
definition FAT32_ENTRY_DELETED :: u8 where [c_consts]: "FAT32_ENTRY_DELETED = 0xE5"

section \<open>Structures\<close>

record fat32_diskio_t =
  read_sector :: "u32 \<Rightarrow> u8 list option"

record fat32_fs_t =
  disk :: fat32_diskio_t
  bytes_per_sector :: u16
  sectors_per_cluster :: u8
  reserved_sector_count :: u16
  num_fats :: u8
  sectors_per_fat :: u32
  root_cluster :: u32
  cluster_size :: u32
  total_clusters :: u32
  total_sectors :: u32
  fsinfo_sector :: u32
  first_data_sector :: u32
  fat_start_sector :: u32
  fs_magic :: u32

definition fat32_is_initialized :: "fat32_fs_t option \<Rightarrow> bool" where
  "fat32_is_initialized fs = (case fs of None \<Rightarrow> False | Some f \<Rightarrow> fs_magic f = FAT32_MAGIC)"

text \<open>
  Byte offsets of the packed structures: \<^verbatim>\<open>Fat32BootSector\<close> (sectorsPerCluster 13,
  reservedSectors 14, numFATs 16, totalSectors16 19, totalSectors32 32, sectorsPerFAT32 36,
  rootCluster 44, bootSectorSig 510) and \<^verbatim>\<open>MBR\<close> (partition entries of 16 bytes from 446, with
  partition_type at 4 and start_sector at 8; signature 510).
\<close>

definition read_unaligned_uint32 :: "u8 list \<Rightarrow> nat \<Rightarrow> u32" where
  "read_unaligned_uint32 p i =
     u32_of_u8 (p ! i) OR push_bit 8 (u32_of_u8 (p ! (i + 1))) OR
     push_bit 16 (u32_of_u8 (p ! (i + 2))) OR push_bit 24 (u32_of_u8 (p ! (i + 3)))"

definition read_unaligned_uint16 :: "u8 list \<Rightarrow> nat \<Rightarrow> u16" where
  "read_unaligned_uint16 p i = u16_of_u8 (p ! i) OR push_bit 8 (u16_of_u8 (p ! (i + 1)))"

record Fat32BootSector =
  sectorsPerCluster :: u8
  reservedSectors :: u16
  numFATs :: u8
  totalSectors16 :: u16
  totalSectors32 :: u32
  sectorsPerFAT32 :: u32
  rootCluster :: u32

definition boot_sector_of :: "u8 list \<Rightarrow> Fat32BootSector" where
  "boot_sector_of bs =
     \<lparr>sectorsPerCluster = bs ! 13, reservedSectors = read_unaligned_uint16 bs 14, numFATs = bs ! 16,
      totalSectors16 = read_unaligned_uint16 bs 19, totalSectors32 = read_unaligned_uint32 bs 32,
      sectorsPerFAT32 = read_unaligned_uint32 bs 36, rootCluster = read_unaligned_uint32 bs 44\<rparr>"

record MBRPartitionEntry =
  partition_type :: u8
  start_sector :: u32

definition mbr_partition :: "u8 list \<Rightarrow> nat \<Rightarrow> MBRPartitionEntry" where
  "mbr_partition bs i =
     \<lparr>partition_type = bs ! (446 + 16 * i + 4),
      start_sector = read_unaligned_uint32 bs (446 + 16 * i + 8)\<rparr>"

definition mbr_signature :: "u8 list \<Rightarrow> u16" where
  "mbr_signature bs = read_unaligned_uint16 bs 510"

section \<open>Library functions of the driver\<close>

text \<open>
  A C string is the list of its bytes up to the terminating NUL: reading at or past the end of
  the list gives the NUL.
\<close>

fun strlen :: "u8 list \<Rightarrow> nat" where
  "strlen [] = 0"
| "strlen (c # s) = (if c = 0 then 0 else Suc (strlen s))"

definition char_at :: "u8 list \<Rightarrow> nat \<Rightarrow> u8" where
  "char_at s i = (if i < length s then s ! i else 0)"

text \<open>\<^verbatim>\<open>strchr\<close> returns the position of the character instead of a pointer to it.\<close>

fun strchr_from :: "u8 list \<Rightarrow> u8 \<Rightarrow> nat \<Rightarrow> nat option" where
  "strchr_from [] ch k = (if ch = 0 then Some k else None)"
| "strchr_from (c # s) ch k =
     (if c = 0 then (if ch = 0 then Some k else None)
      else if c = ch then Some k else strchr_from s ch (Suc k))"

definition strchr :: "u8 list \<Rightarrow> u8 \<Rightarrow> nat option" where
  "strchr s ch = strchr_from s ch 0"

definition toupper :: "u8 \<Rightarrow> u8" where
  "toupper c = (if 97 \<le> c \<and> c \<le> 122 then c - (97 - 65) else c)"

text \<open>The comparison loop: the difference at the first place where the two buffers differ.\<close>

fun memcmp_loop :: "u8 list \<Rightarrow> u8 list \<Rightarrow> nat \<Rightarrow> nat list \<Rightarrow> int" where
  "memcmp_loop p1 p2 n [] = 0"
| "memcmp_loop p1 p2 n (i # is) =
     (if p1 ! i \<noteq> p2 ! i then uint (p1 ! i) - uint (p2 ! i) else memcmp_loop p1 p2 n is)"

definition memcmp :: "u8 list \<Rightarrow> u8 list \<Rightarrow> nat \<Rightarrow> int" where
  "memcmp p1 p2 n = memcmp_loop p1 p2 n [0..<n]"

text \<open>
  \<^verbatim>\<open>strncpy\<close> gives the \<open>n\<close> bytes it writes: the source up to its NUL, then NULs. \<^verbatim>\<open>memcpy\<close> gives
  the first \<open>n\<close> bytes of its source.
\<close>

fun strncpy :: "u8 list \<Rightarrow> nat \<Rightarrow> u8 list" where
  "strncpy src 0 = []"
| "strncpy [] (Suc n) = 0 # strncpy [] n"
| "strncpy (c # src) (Suc n) = (if c = 0 then replicate (Suc n) 0 else c # strncpy src n)"

definition memcpy :: "u8 list \<Rightarrow> nat \<Rightarrow> u8 list" where
  "memcpy src n = map (\<lambda>i. src ! i) [0..<n]"

section \<open>Mounting\<close>

text \<open>The loop over the four partition entries: the first FAT32 partition's start sector.\<close>

fun mbr_scan :: "u8 list \<Rightarrow> nat list \<Rightarrow> u32 option" where
  "mbr_scan bs [] = None"
| "mbr_scan bs (i # is) =
     (let p = mbr_partition bs i in
      if partition_type p = FAT32_PART_TYPE_1 \<or> partition_type p = FAT32_PART_TYPE_2
      then Some (start_sector p) else mbr_scan bs is)"

definition find_partition_via_mbr :: "u8 list \<Rightarrow> u32 option" where
  "find_partition_via_mbr bs = mbr_scan bs [0..<4]"

definition check_sector0_for_fat32 :: "u8 list \<Rightarrow> u32 option" where
  "check_sector0_for_fat32 bs =
     (if u32_of_u16 (read_unaligned_uint16 bs 510) = FAT32_BOOT_SECTOR_SIGNATURE \<and>
         sectorsPerFAT32 (boot_sector_of bs) \<noteq> 0
      then Some 0 else None)"

text \<open>
  The argument is the memory from the start of the boot sector buffer on. The signature field is
  two bytes long and ends the 512-byte sector, but it is read with \<open>read_unaligned_uint32\<close>: the
  read takes in the two bytes of memory behind the sector buffer.
\<close>

definition validate_fat32_boot_sector :: "u8 list \<Rightarrow> int" where
  "validate_fat32_boot_sector mem =
     (if read_unaligned_uint32 mem 510 \<noteq> FAT32_BOOT_SECTOR_SIGNATURE
      then FAT32_ERROR_INVALID_BOOT_SECTOR else FAT32_SUCCESS)"

text \<open>
  \<open>None\<close> where the code divides by a zero cluster size. \<^verbatim>\<open>fs->fsinfo_sector\<close> keeps its old value:
  the C function does not write it.
\<close>

definition initialize_fat32_fs ::
    "fat32_fs_t \<Rightarrow> fat32_diskio_t \<Rightarrow> Fat32BootSector \<Rightarrow> u32 \<Rightarrow> fat32_fs_t option" where
  "initialize_fat32_fs fs io b fat32_start_sector =
     (let fat_start = fat32_start_sector + u32_of_u16 (reservedSectors b);
          first_data = fat_start + u32_of_u8 (numFATs b) * sectorsPerFAT32 b;
          total = (if totalSectors16 b \<noteq> 0 then u32_of_u16 (totalSectors16 b) else totalSectors32 b);
          spc = u32_of_u8 (sectorsPerCluster b)
      in if spc = 0 then None
         else Some (fs\<lparr>disk := io, bytes_per_sector := 512, sectors_per_cluster := sectorsPerCluster b,
                       reserved_sector_count := reservedSectors b, num_fats := numFATs b,
                       sectors_per_fat := sectorsPerFAT32 b, fat_start_sector := fat_start,
                       first_data_sector := first_data, root_cluster := rootCluster b,
                       cluster_size := spc * 512, total_sectors := total,
                       total_clusters := (total - (first_data - fat32_start_sector)) div spc,
                       fs_magic := FAT32_MAGIC\<rparr>))"

text \<open>
  The sector buffer sits at a fixed address (0x91000000); \<open>behind\<close> is the memory that follows its
  512 bytes, which no disk read of the mount touches. The result is the return code and the
  structure \<^verbatim>\<open>*fs\<close> afterwards.
\<close>

definition fat32_mount ::
    "u8 list \<Rightarrow> fat32_fs_t option \<Rightarrow> (u32 \<Rightarrow> u8 list option) option option \<Rightarrow>
     (int \<times> fat32_fs_t option) option" where
  "fat32_mount behind fsp iop =
     (case (fsp, iop) of
        (Some fs, Some (Some rd)) \<Rightarrow>
          (case rd 0 of
             None \<Rightarrow> Some (FAT32_ERROR_IO, fsp)
           | Some s0 \<Rightarrow>
               let via_mbr = (if mbr_signature s0 = MBR_SIGNATURE then mbr_scan s0 [0..<4] else None);
                   via_sector0 = (if via_mbr = None then check_sector0_for_fat32 s0 else None)
               in (case (via_mbr, via_sector0) of
                     (None, None) \<Rightarrow> Some (FAT32_ERROR_INVALID_BOOT_SECTOR, fsp)
                   | _ \<Rightarrow>
                       let start = (case via_mbr of Some st \<Rightarrow> st | None \<Rightarrow> the via_sector0)
                       in (case (if via_mbr \<noteq> None then rd start else Some s0) of
                             None \<Rightarrow> Some (FAT32_ERROR_IO, fsp)
                           | Some bs \<Rightarrow>
                               if validate_fat32_boot_sector (bs @ behind) \<noteq> 0
                               then Some (FAT32_ERROR_INVALID_BOOT_SECTOR, fsp)
                               else do {
                                 fs' \<leftarrow> initialize_fat32_fs fs \<lparr>read_sector = rd\<rparr> (boot_sector_of bs) start;
                                 Some (FAT32_SUCCESS, Some fs')
                               })))
      | _ \<Rightarrow> Some (FAT32_ERROR_BAD_PARAMETER, fsp))"

section \<open>A small volume\<close>

text \<open>
  A complete little disk on which the theorems about the driver are instantiated: a partition of
  40 sectors at sector 8 with two reserved sectors, one FAT of one sector (sector 10), one sector
  per cluster and the root directory in cluster 2 (sector 11). The root directory holds a volume
  label, the file HELLO.TXT (600 bytes in the clusters 3 and 4) and the directory BOOT
  (cluster 5), which holds KERNEL.BIN (4 bytes in cluster 6).
\<close>

definition sector_with :: "(nat \<times> u8) list \<Rightarrow> u8 list" where
  "sector_with l = map (\<lambda>i. case map_of l i of None \<Rightarrow> 0 | Some v \<Rightarrow> v) [0..<512]"

lemma sector_with_length [simp]: "length (sector_with l) = 512"
  by (simp add: sector_with_def)

lemma sector_with_nth [simp]:
  "i < 512 \<Longrightarrow> sector_with l ! i = (case map_of l i of None \<Rightarrow> 0 | Some v \<Rightarrow> v)"
  by (simp add: sector_with_def)

definition place :: "nat \<Rightarrow> u8 list \<Rightarrow> (nat \<times> u8) list" where
  "place i bs = zip [i..<i + length bs] bs"

definition ex_mbr :: "u8 list" where
  "ex_mbr = sector_with [(450, 0x0C), (454, 8), (510, 0x55), (511, 0xAA)]"

definition ex_boot :: "u8 list" where
  "ex_boot = sector_with [(13, 1), (14, 2), (16, 1), (32, 40), (36, 1), (44, 2), (510, 0x55), (511, 0xAA)]"

definition ex_fat :: "u8 list" where
  "ex_fat = sector_with
     [(8, 0xFF), (9, 0xFF), (10, 0xFF), (11, 0x0F), (12, 4),
      (16, 0xFF), (17, 0xFF), (18, 0xFF), (19, 0x0F), (20, 0xFF), (21, 0xFF), (22, 0xFF), (23, 0x0F),
      (24, 0xFF), (25, 0xFF), (26, 0xFF), (27, 0x0F)]"

definition ex_root_dir :: "u8 list" where
  "ex_root_dir = sector_with
     (place 0 (cstr ''TEAM ALPHA '') @ [(11, 0x08)] @
      place 32 (cstr ''HELLO   TXT'') @ [(43, 0x20), (58, 3), (60, 0x58), (61, 0x02)] @
      place 64 (cstr ''BOOT       '') @ [(75, 0x10), (90, 5)])"

definition ex_boot_dir :: "u8 list" where
  "ex_boot_dir = sector_with (place 0 (cstr ''KERNEL  BIN'') @ [(11, 0x20), (26, 6), (28, 28)])"

text \<open>The header of a kernel as \<^verbatim>\<open>os/linker.ld\<close> lays it out.\<close>

definition ex_kernel_image :: "u8 list" where
  "ex_kernel_image = [0x1B, 0x1B, 0x1B, 0x1B, 0x40, 0, 0, 0xA0, 0x40, 0x10, 0, 0xA0, 0x40, 0x12, 0, 0xA0,
     0, 0x16, 0, 0, 0x40, 0, 0, 0xA0, 0x40, 0x16, 0, 0xA0]"

definition ex_read :: "u32 \<Rightarrow> u8 list option" where
  "ex_read s =
     (if s = 0 then Some ex_mbr else if s = 8 then Some ex_boot else if s = 10 then Some ex_fat
      else if s = 11 then Some ex_root_dir
      else if s = 12 then Some (sector_with [(0, 72), (511, 73)])
      else if s = 13 then Some (sector_with [(0, 74), (87, 75)])
      else if s = 14 then Some ex_boot_dir
      else if s = 15 then Some (sector_with (place 0 ex_kernel_image))
      else Some (sector_with []))"

definition ex_blank_fs :: fat32_fs_t where
  "ex_blank_fs =
     \<lparr>disk = \<lparr>read_sector = (\<lambda>_. None)\<rparr>, bytes_per_sector = 0, sectors_per_cluster = 0,
      reserved_sector_count = 0, num_fats = 0, sectors_per_fat = 0, root_cluster = 0,
      cluster_size = 0, total_clusters = 0, total_sectors = 0, fsinfo_sector = 0,
      first_data_sector = 0, fat_start_sector = 0, fs_magic = 0\<rparr>"

definition ex_fs :: fat32_fs_t where
  "ex_fs =
     \<lparr>disk = \<lparr>read_sector = ex_read\<rparr>, bytes_per_sector = 512, sectors_per_cluster = 1,
      reserved_sector_count = 2, num_fats = 1, sectors_per_fat = 1, root_cluster = 2,
      cluster_size = 512, total_clusters = 37, total_sectors = 40, fsinfo_sector = 0,
      first_data_sector = 11, fat_start_sector = 10, fs_magic = 0xF32F32F3\<rparr>"

lemma ex_mbr_facts:
  "mbr_signature ex_mbr = MBR_SIGNATURE" "find_partition_via_mbr ex_mbr = Some 8"
  by (simp_all add: mbr_signature_def ex_mbr_def read_unaligned_uint16_def find_partition_via_mbr_def
      mbr_partition_def read_unaligned_uint32_def c_consts upt_rec)

lemma ex_initialize:
  "initialize_fat32_fs ex_blank_fs \<lparr>read_sector = ex_read\<rparr> (boot_sector_of ex_boot) 8 = Some ex_fs"
  by (simp add: initialize_fat32_fs_def boot_sector_of_def ex_boot_def ex_fs_def ex_blank_fs_def
      read_unaligned_uint16_def read_unaligned_uint32_def c_consts)

section \<open>Properties of mounting\<close>

lemma u8_0xAA55: "(0xAA55::u8) = 0x55"
  by simp

text \<open>What the validation really asks for: the signature and two zero bytes behind the sector.\<close>

lemma validate_iff:
  assumes "length bs = 512" "2 \<le> length behind"
  shows "validate_fat32_boot_sector (bs @ behind) = 0 \<longleftrightarrow>
           bs ! 510 = 0x55 \<and> bs ! 511 = 0xAA \<and> behind ! 0 = 0 \<and> behind ! 1 = 0"
  using assms
  by (simp add: validate_fat32_boot_sector_def read_unaligned_uint32_def le_bytes_eq_iff c_consts
      u8_0xAA55 nth_append)

lemmas mount_defs = fat32_mount_def find_partition_via_mbr_def

text \<open>
  C36. Mounting through the partition table: when sector 0 carries the MBR signature and a FAT32
  partition, and that partition's first sector is a boot sector with the 0xAA55 signature and a
  non-zero cluster size, the mount succeeds exactly when the two bytes of memory behind the
  512-byte sector buffer happen to be zero; otherwise it reports an invalid boot sector. (The
  signature is two bytes long but is read as a 32-bit value.)
\<close>

theorem mount_depends_on_memory_behind_buffer:
  assumes "rd 0 = Some s0" "mbr_signature s0 = MBR_SIGNATURE" "find_partition_via_mbr s0 = Some st"
    and "rd st = Some bs" "length bs = 512" "bs ! 510 = 0x55" "bs ! 511 = 0xAA" "bs ! 13 \<noteq> 0"
    and "2 \<le> length behind"
  shows "fat32_mount behind (Some fs) (Some (Some rd)) =
           (if behind ! 0 = 0 \<and> behind ! 1 = 0
            then Some (FAT32_SUCCESS, initialize_fat32_fs fs \<lparr>read_sector = rd\<rparr> (boot_sector_of bs) st)
            else Some (FAT32_ERROR_INVALID_BOOT_SECTOR, Some fs))"
proof -
  have "u32_of_u8 (bs ! 13) \<noteq> 0"
    using assms(8) by (metis unat_u32_of_u8 unat_eq_0)
  then obtain fs' where
    "initialize_fat32_fs fs \<lparr>read_sector = rd\<rparr> (boot_sector_of bs) st = Some fs'"
    by (auto simp: initialize_fat32_fs_def boot_sector_of_def Let_def)
  then show ?thesis
    using assms validate_iff[OF assms(5,9)] by (simp add: mount_defs Let_def)
qed

theorem mount_depends_on_memory_behind_buffer_witness:
  "fat32_mount [0, 0] (Some ex_blank_fs) (Some (Some ex_read)) = Some (FAT32_SUCCESS, Some ex_fs) \<and>
   fat32_mount [0, 7] (Some ex_blank_fs) (Some (Some ex_read)) =
     Some (FAT32_ERROR_INVALID_BOOT_SECTOR, Some ex_blank_fs)"
proof -
  have "ex_read 0 = Some ex_mbr" "ex_read 8 = Some ex_boot"
    by (simp_all add: ex_read_def)
  note m = mount_depends_on_memory_behind_buffer[OF this(1) ex_mbr_facts this(2)]
  show ?thesis
    using m[of "[0, 0]" ex_blank_fs] m[of "[0, 7]" ex_blank_fs]
    by (simp add: ex_initialize, simp add: ex_boot_def)
qed

text \<open>
  A failed mount leaves the file-system structure as it was, and the only codes it can return
  are success, bad parameter, I/O error and invalid boot sector.
\<close>

theorem mount_result_codes:
  assumes "fat32_mount behind fsp iop = Some (r, fsp')"
  shows "(r = FAT32_SUCCESS \<and> fat32_is_initialized fsp') \<or>
         (r \<in> {FAT32_ERROR_BAD_PARAMETER, FAT32_ERROR_IO, FAT32_ERROR_INVALID_BOOT_SECTOR} \<and> fsp' = fsp)"
  using assms
  by (auto simp: fat32_mount_def Let_def initialize_fat32_fs_def fat32_is_initialized_def
      bind_eq_Some_conv' split: option.splits if_splits)

lemma ex_mount: "fat32_mount [0, 0] (Some ex_blank_fs) (Some (Some ex_read)) = Some (FAT32_SUCCESS, Some ex_fs)"
proof -
  have "ex_read 0 = Some ex_mbr" "ex_read 8 = Some ex_boot"
    by (simp_all add: ex_read_def)
  moreover have "validate_fat32_boot_sector (ex_boot @ [0, 0]) = 0"
    by (subst validate_iff) (simp_all add: ex_boot_def)
  ultimately show ?thesis
    using ex_mbr_facts by (simp add: mount_defs ex_initialize Let_def)
qed

theorem mount_result_codes_witness:
  "fat32_mount [0, 0] (Some ex_blank_fs) (Some (Some ex_read)) = Some (FAT32_SUCCESS, Some ex_fs) \<and>
   fat32_is_initialized (Some ex_fs)"
  using mount_result_codes[OF ex_mount] ex_mount by (auto simp: c_consts)

text \<open>The fields a successful mount leaves, and the sector the volume starts at.\<close>

lemma mount_success_fields:
  assumes "fat32_mount behind (Some fs) (Some (Some rd)) = Some (FAT32_SUCCESS, Some fs')"
  shows "\<exists>st bs. initialize_fat32_fs fs \<lparr>read_sector = rd\<rparr> (boot_sector_of bs) st = Some fs'"
  using assms
  by (auto simp: fat32_mount_def Let_def bind_eq_Some_conv' c_consts split: option.splits if_splits)

definition volume_start :: "fat32_fs_t \<Rightarrow> u32" where
  "volume_start fs = fat_start_sector fs - u32_of_u16 (reserved_sector_count fs)"

definition meta_sectors :: "fat32_fs_t \<Rightarrow> nat" where
  "meta_sectors fs = unat (reserved_sector_count fs) + unat (num_fats fs) * unat (sectors_per_fat fs)"

lemma initialize_geometry:
  assumes "initialize_fat32_fs fs io b st = Some fs'"
  shows "disk fs' = io" "bytes_per_sector fs' = 512" "sectors_per_cluster fs' \<noteq> 0"
    and "fs_magic fs' = FAT32_MAGIC" "volume_start fs' = st"
    and "first_data_sector fs' = st + word_of_nat (meta_sectors fs')"
    and "total_clusters fs' = (total_sectors fs' - word_of_nat (meta_sectors fs')) div
           u32_of_u8 (sectors_per_cluster fs')"
  using assms
  by (auto simp: initialize_fat32_fs_def Let_def volume_start_def meta_sectors_def split: if_splits)

text \<open>
  C30. The geometry a successful mount computes: sectors of 512 bytes, a non-zero cluster size, and,
  when the reserved area and the FATs fit in a volume that does not run past sector \<open>2\<^sup>3\<^sup>2\<close>, every
  cluster the driver accepts lies between the end of the FATs and the end of the volume.
\<close>

theorem mount_clusters_inside_volume:
  assumes "fat32_mount behind (Some fs) (Some (Some rd)) = Some (FAT32_SUCCESS, Some fs')"
    and "meta_sectors fs' \<le> unat (total_sectors fs')"
    and "unat (volume_start fs') + unat (total_sectors fs') < 2 ^ 32"
    and "2 \<le> c" "c < 2 + unat (total_clusters fs')"
  shows "read_sector (disk fs') = rd \<and> bytes_per_sector fs' = 512 \<and> sectors_per_cluster fs' \<noteq> 0 \<and>
         unat (first_data_sector fs') = unat (volume_start fs') + meta_sectors fs' \<and>
         unat (first_data_sector fs') + (c - 2) * unat (sectors_per_cluster fs') +
           unat (sectors_per_cluster fs') \<le> unat (volume_start fs') + unat (total_sectors fs')"
proof -
  obtain st b where ini: "initialize_fat32_fs fs \<lparr>read_sector = rd\<rparr> b st = Some fs'"
    using mount_success_fields[OF assms(1)] by blast
  note g = initialize_geometry[OF ini]
  let ?m = "meta_sectors fs'" and ?t = "unat (total_sectors fs')" and ?n = "unat (sectors_per_cluster fs')"
  have m: "unat (word_of_nat ?m :: u32) = ?m"
    using assms(2) unat_u32_bound[of "total_sectors fs'"] by (intro unat_u32_of_nat) linarith
  have fd: "unat (first_data_sector fs') = unat (volume_start fs') + ?m"
    using assms(2,3) g(5,6) m by (simp add: unat_word_ariths)
  have "(word_of_nat ?m :: u32) \<le> total_sectors fs'"
    using assms(2) m by (simp add: word_le_nat_alt)
  then have tc: "unat (total_clusters fs') = (?t - ?m) div ?n"
    using g(7) m by (simp add: unat_div unat_sub)
  have "c - 2 + 1 \<le> (?t - ?m) div ?n"
    using assms(4,5) tc by linarith
  then have "(c - 2 + 1) * ?n \<le> ?t - ?m"
    by (meson div_times_less_eq_dividend le_trans mult_le_mono1)
  then have "(c - 2) * ?n + ?n \<le> ?t - ?m"
    by simp
  then show ?thesis
    using g fd assms(2) by simp
qed

theorem mount_clusters_inside_volume_witness:
  "fat32_mount [0, 0] (Some ex_blank_fs) (Some (Some ex_read)) = Some (FAT32_SUCCESS, Some ex_fs) \<and>
   unat (first_data_sector ex_fs) + (38 - 2) * 1 + 1 \<le> unat (volume_start ex_fs) + 40"
  using mount_clusters_inside_volume[OF ex_mount, of 38] ex_mount
  by (simp add: meta_sectors_def volume_start_def ex_fs_def)

end
