(* ===== verification/Fat32_File.thy ===== *)
theory Fat32_File
  imports Fat32
begin

text \<open>
  The FAT32 driver, second part: following cluster chains through the FAT, and the operations on
  an open file (\<^verbatim>\<open>fat32_read\<close>, \<^verbatim>\<open>fat32_seek\<close>, \<^verbatim>\<open>fat32_tell\<close>, \<^verbatim>\<open>fat32_eof\<close>, \<^verbatim>\<open>fat32_size\<close>,
  \<^verbatim>\<open>fat32_close\<close>, \<^verbatim>\<open>fat32_geterror\<close>).

  The abstract view of a file is a function from offsets to bytes (\<open>file_byte\<close>): the byte is found
  in the cluster that the FAT chain reaches after as many steps as whole clusters precede the
  offset. The main theorem says that \<^verbatim>\<open>fat32_read\<close>, with its nested loops over clusters and
  sectors, returns exactly the requested slice of that function.
\<close>

section \<open>Structures and cluster chains\<close>

record fat32_file_t =
  file_fs :: fat32_fs_t
  formatted_name :: "u8 list"
  start_cluster :: u32
  current_cluster :: u32
  current_cluster_index :: u32
  file_size :: u32
  file_offset :: u32
  parent_dir_cluster :: u32

definition fat32_get_next_cluster :: "fat32_fs_t option \<Rightarrow> u32 \<Rightarrow> u32" where
  "fat32_get_next_cluster fsp cur =
     (case fsp of
        None \<Rightarrow> word_of_int FAT32_ERROR_BAD_PARAMETER
      | Some fs \<Rightarrow>
          let fat_offset = cur * 4;
              entry_offset = unat (fat_offset mod 512);
              fat_sector = fat_offset div 512 + fat_start_sector fs
          in (case read_sector (disk fs) fat_sector of
                None \<Rightarrow> word_of_int FAT32_ERROR_IO
              | Some buffer \<Rightarrow>
                  let entry = u32_of_u8 (buffer ! entry_offset) OR
                        push_bit 8 (u32_of_u8 (buffer ! (entry_offset + 1))) OR
                        push_bit 16 (u32_of_u8 (buffer ! (entry_offset + 2))) OR
                        push_bit 24 (u32_of_u8 (buffer ! (entry_offset + 3)));
                      value = entry AND 0x0FFFFFFF
                  in if value \<ge> 0x0FFFFFF8 then FAT32_EOC_MARKER
                     else if value = 0x0FFFFFF7 then word_of_int FAT32_ERROR_IO
                     else if value < 2 then word_of_int FAT32_ERROR_CORRUPTED_FS
                     else value))"

text \<open>
  The loop of \<^verbatim>\<open>get_cluster_at_index\<close>, by the number of iterations left: \<^verbatim>\<open>i < index - 1\<close> holds in
  an iteration exactly when more iterations follow it.
\<close>

fun get_cluster_loop :: "fat32_fs_t option \<Rightarrow> nat \<Rightarrow> u32 \<Rightarrow> int + u32" where
  "get_cluster_loop fsp 0 cur = Inr cur"
| "get_cluster_loop fsp (Suc left) cur =
     (let next_cluster = fat32_get_next_cluster fsp cur in
      if next_cluster = FAT32_EOC_MARKER \<and> 0 < left then Inl FAT32_ERROR_CORRUPTED_FS
      else get_cluster_loop fsp left next_cluster)"

definition get_cluster_at_index :: "fat32_fs_t option \<Rightarrow> u32 \<Rightarrow> u32 \<Rightarrow> int + u32" where
  "get_cluster_at_index fsp start index =
     (if start \<le> 2 then Inl FAT32_ERROR_BAD_PARAMETER
      else get_cluster_loop fsp (unat index) start)"

text \<open>The C function returns an \<^verbatim>\<open>int32_t\<close>: the word is read with \<open>sint\<close>.\<close>

definition cluster_to_sector :: "fat32_fs_t \<Rightarrow> u32 \<Rightarrow> u32" where
  "cluster_to_sector fs cluster =
     (if cluster < 2 \<or> cluster \<ge> 2 + total_clusters fs then word_of_int FAT32_ERROR_INVALID_CLUSTER
      else (cluster - 2) * u32_of_u8 (sectors_per_cluster fs) + first_data_sector fs)"

section \<open>Reading\<close>

text \<open>
  The local variables of \<^verbatim>\<open>fat32_read\<close>. \<open>rs_out\<close> holds the bytes written through \<^verbatim>\<open>buf_ptr\<close> so
  far; \<open>rs_offset\<close> is \<^verbatim>\<open>file->file_offset\<close>, which the loop advances as it goes.
\<close>

record read_state =
  rs_out :: "u8 list"
  rs_bytes_read :: u32
  rs_remaining :: u32
  rs_offset :: u32
  rs_to_read :: u32
  rs_sector :: u32
  rs_sector_offset :: u32

definition copy_from_sector :: "fat32_fs_t \<Rightarrow> u8 list \<Rightarrow> read_state \<Rightarrow> read_state" where
  "copy_from_sector fs buf st =
     (let bytes_in_sector = u32_of_u16 (bytes_per_sector fs) - rs_sector_offset st;
          n = (if rs_to_read st < bytes_in_sector then rs_to_read st else bytes_in_sector)
      in st\<lparr>rs_out := rs_out st @ map (\<lambda>i. buf ! (unat (rs_sector_offset st) + i)) [0..<unat n],
            rs_bytes_read := rs_bytes_read st + n,
            rs_remaining := rs_remaining st - n,
            rs_offset := rs_offset st + n,
            rs_to_read := rs_to_read st - n,
            rs_sector := rs_sector st + 1,
            rs_sector_offset := 0\<rparr>)"

text \<open>The inner loop: \<open>Inl\<close> is a return from \<^verbatim>\<open>fat32_read\<close>, \<open>Inr\<close> the end of the loop.\<close>

partial_function (option) read_sectors ::
    "fat32_fs_t \<Rightarrow> u32 \<Rightarrow> read_state \<Rightarrow> ((int \<times> read_state) + read_state) option" where
  "read_sectors fs cluster_start_sector st =
     (if rs_to_read st = 0 then Some (Inr st)
      else (case read_sector (disk fs) (rs_sector st) of
              None \<Rightarrow> Some (Inl (if rs_bytes_read st > 0 then sint (rs_bytes_read st) else FAT32_ERROR_IO, st))
            | Some buf \<Rightarrow>
                let st' = copy_from_sector fs buf st in
                if rs_sector st' - cluster_start_sector \<ge> u32_of_u8 (sectors_per_cluster fs)
                then Some (Inr st')
                else read_sectors fs cluster_start_sector st'))"

definition read_return :: "int \<Rightarrow> fat32_file_t \<Rightarrow> read_state \<Rightarrow> (int \<times> fat32_file_t \<times> u8 list) option" where
  "read_return r file st = Some (r, file\<lparr>file_offset := rs_offset st\<rparr>, rs_out st)"

text \<open>The outer loop. \<open>None\<close> also stands for the division by a zero cluster size.\<close>

partial_function (option) read_clusters ::
    "fat32_file_t \<Rightarrow> read_state \<Rightarrow> (int \<times> fat32_file_t \<times> u8 list) option" where
  "read_clusters file st =
     (let fs = file_fs file;
          spc = u32_of_u8 (sectors_per_cluster fs);
          bps = u32_of_u16 (bytes_per_sector fs);
          csize = bps * spc
      in if rs_remaining st = 0 then read_return (sint (rs_bytes_read st)) file st
         else if csize = 0 then None
         else
           let cluster_offset = rs_offset st mod csize;
               cluster_index = rs_offset st div csize
           in (case get_cluster_at_index (Some fs) (start_cluster file) cluster_index of
                 Inl r \<Rightarrow> read_return (if rs_bytes_read st > 0 then sint (rs_bytes_read st) else r) file st
               | Inr target_cluster \<Rightarrow>
                   let bytes_in_cluster = csize - cluster_offset;
                       bytes_to_read = (if rs_remaining st < bytes_in_cluster then rs_remaining st
                                        else bytes_in_cluster);
                       cluster_result = cluster_to_sector fs target_cluster
                   in if sint cluster_result < 0 then read_return (sint cluster_result) file st
                      else do {
                        r \<leftarrow> read_sectors fs cluster_result
                               (st\<lparr>rs_to_read := bytes_to_read,
                                   rs_sector := cluster_result + cluster_offset div bps,
                                   rs_sector_offset := cluster_offset mod bps\<rparr>);
                        (case r of
                           Inl (code, st') \<Rightarrow> read_return code file st'
                         | Inr st' \<Rightarrow>
                             let file' = file\<lparr>current_cluster := target_cluster\<rparr> in
                             if rs_to_read st' > 0 \<and>
                                (fat32_get_next_cluster (Some fs) target_cluster \<ge> FAT32_LAST_MARKER \<or>
                                 fat32_get_next_cluster (Some fs) target_cluster = FAT32_EOC_MARKER)
                             then read_return (sint (rs_bytes_read st')) file' st'
                             else read_clusters file' st')
                      }))"

text \<open>
  The result is the return value, \<^verbatim>\<open>*file\<close> afterwards and the bytes stored from the start of the
  caller's buffer on. \<^verbatim>\<open>size\<close> is a C \<^verbatim>\<open>int\<close>, used as a \<^verbatim>\<open>uint32_t\<close>.
\<close>

definition fat32_read ::
    "fat32_file_t option \<Rightarrow> bool \<Rightarrow> u32 \<Rightarrow> (int \<times> fat32_file_t option \<times> u8 list) option" where
  "fat32_read filep buffer_given sz =
     (case filep of
        None \<Rightarrow> Some (FAT32_ERROR_BAD_PARAMETER, None, [])
      | Some file \<Rightarrow>
          if \<not> buffer_given then Some (FAT32_ERROR_BAD_PARAMETER, filep, [])
          else if file_offset file \<ge> file_size file \<or> sz = 0 then Some (0, filep, [])
          else
            let max_readable = file_size file - file_offset file;
                remaining = (if sz > max_readable then max_readable else sz)
            in do {
              (r, file', out) \<leftarrow> read_clusters file
                 \<lparr>rs_out = [], rs_bytes_read = 0, rs_remaining = remaining,
                  rs_offset = file_offset file, rs_to_read = 0, rs_sector = 0, rs_sector_offset = 0\<rparr>;
              Some (r, Some file', out)
            })"

section \<open>The other file operations\<close>

definition fat32_tell :: "fat32_file_t option \<Rightarrow> int" where
  "fat32_tell filep = (case filep of None \<Rightarrow> FAT32_ERROR_BAD_PARAMETER | Some f \<Rightarrow> sint (file_offset f))"

definition fat32_seek :: "fat32_file_t option \<Rightarrow> u32 \<Rightarrow> int \<times> fat32_file_t option" where
  "fat32_seek filep offset =
     (case filep of
        None \<Rightarrow> (FAT32_ERROR_BAD_PARAMETER, None)
      | Some f \<Rightarrow>
          if sint offset < 0 \<or> offset > file_size f then (FAT32_ERROR_BAD_PARAMETER, filep)
          else (FAT32_SUCCESS, Some (f\<lparr>file_offset := offset\<rparr>)))"

definition fat32_eof :: "fat32_file_t option \<Rightarrow> int" where
  "fat32_eof filep =
     (case filep of None \<Rightarrow> FAT32_ERROR_BAD_PARAMETER
      | Some f \<Rightarrow> (if file_offset f \<ge> file_size f then 1 else 0))"

definition fat32_size :: "fat32_file_t option \<Rightarrow> int" where
  "fat32_size filep = (case filep of None \<Rightarrow> FAT32_ERROR_BAD_PARAMETER | Some f \<Rightarrow> sint (file_size f))"

definition fat32_close :: "fat32_file_t option \<Rightarrow> int" where
  "fat32_close filep = (case filep of None \<Rightarrow> FAT32_ERROR_BAD_PARAMETER | Some f \<Rightarrow> FAT32_SUCCESS)"

definition fat32_geterror :: "int \<Rightarrow> string" where
  "fat32_geterror err =
     (if err = FAT32_SUCCESS then ''Success''
      else if err = FAT32_ERROR_BAD_PARAMETER then ''Bad parameter''
      else if err = FAT32_ERROR_IO then ''I/O error''
      else if err = FAT32_ERROR_NO_PATH then ''Path not found''
      else if err = FAT32_ERROR_NO_FILE then ''File not found''
      else if err = FAT32_ERROR_IS_DIR then ''Path is a directory''
      else if err = FAT32_ERROR_CORRUPTED_FS then ''Corrupted filesystem''
      else if err = FAT32_ERROR_INVALID_BOOT_SECTOR then ''Invalid boot sector''
      else if err = FAT32_ERROR_NO_LABEL then ''No volume label found''
      else ''Unknown error'')"

section \<open>The bytes of a file\<close>

definition cluster_nth :: "fat32_fs_t \<Rightarrow> u32 \<Rightarrow> nat \<Rightarrow> u32" where
  "cluster_nth fs start k = (fat32_get_next_cluster (Some fs) ^^ k) start"

definition cluster_bytes :: "fat32_fs_t \<Rightarrow> nat" where
  "cluster_bytes fs = 512 * unat (sectors_per_cluster fs)"

definition file_byte :: "fat32_fs_t \<Rightarrow> u32 \<Rightarrow> nat \<Rightarrow> u8" where
  "file_byte fs start k =
     (let r = k mod cluster_bytes fs;
          s = cluster_to_sector fs (cluster_nth fs start (k div cluster_bytes fs)) + word_of_nat (r div 512)
      in the (read_sector (disk fs) s) ! (r mod 512))"

text \<open>
  A cluster that can be read: an allowed cluster number, a sector number that fits in an
  \<^verbatim>\<open>int32_t\<close>, and sectors that the disk delivers.
\<close>

definition cluster_ok :: "fat32_fs_t \<Rightarrow> u32 \<Rightarrow> bool" where
  "cluster_ok fs c \<longleftrightarrow>
     c \<noteq> FAT32_EOC_MARKER \<and> 2 \<le> c \<and> c < 2 + total_clusters fs \<and>
     0 \<le> sint (cluster_to_sector fs c) \<and>
     (\<forall>j < unat (sectors_per_cluster fs).
        \<exists>bs. read_sector (disk fs) (cluster_to_sector fs c + word_of_nat j) = Some bs \<and> length bs = 512)"

definition fs_ok :: "fat32_fs_t \<Rightarrow> bool" where
  "fs_ok fs \<longleftrightarrow> bytes_per_sector fs = 512 \<and> sectors_per_cluster fs \<noteq> 0"

text \<open>An open file whose chain covers its size.\<close>

definition file_ok :: "fat32_file_t \<Rightarrow> bool" where
  "file_ok f \<longleftrightarrow>
     fs_ok (file_fs f) \<and> 2 < start_cluster f \<and>
     (\<forall>k. k * cluster_bytes (file_fs f) < unat (file_size f) \<longrightarrow>
          cluster_ok (file_fs f) (cluster_nth (file_fs f) (start_cluster f) k))"

section \<open>The loops of \<^verbatim>\<open>fat32_read\<close>\<close>

definition cluster_byte :: "fat32_fs_t \<Rightarrow> u32 \<Rightarrow> nat \<Rightarrow> u8" where
  "cluster_byte fs c r =
     the (read_sector (disk fs) (cluster_to_sector fs c + word_of_nat (r div 512))) ! (r mod 512)"

lemma file_byte_cluster:
  assumes "r < cluster_bytes fs"
  shows "file_byte fs start (k * cluster_bytes fs + r) = cluster_byte fs (cluster_nth fs start k) r"
  using assms by (simp add: file_byte_def cluster_byte_def Let_def)

lemma div_mod_512_add:
  assumes "i < 512 - r mod (512::nat)"
  shows "(r + i) div 512 = r div 512" "(r + i) mod 512 = r mod 512 + i"
proof -
  have "r + i = 512 * (r div 512) + (r mod 512 + i)" by simp
  moreover have "r mod 512 + i < 512" using assms by simp
  ultimately show "(r + i) div 512 = r div 512" "(r + i) mod 512 = r mod 512 + i"
    by (metis div_mult_self4 div_less add.right_neutral add.commute zero_neq_numeral, metis mod_mult_self4 mod_less)
qed

lemma map_upt_split:
  assumes "n \<le> t"
  shows "map (\<lambda>i. g (r + i)) [0..<n] @ map (\<lambda>i. g (r + n + i)) [0..<t - n] =
    map (\<lambda>i. g (r + (i::nat))) [0..<t]"
proof -
  have "[0..<t] = [0..<n] @ map (\<lambda>i. i + n) [0..<t - n]"
    using assms upt_add_eq_append[of 0 n "t - n"] by (simp add: map_add_upt)
  then show ?thesis by (simp add: ac_simps comp_def)
qed

lemma copy_from_sector_eq:
  assumes "bytes_per_sector fs = 512" "rs_sector_offset st = word_of_nat m" "m < 512"
    and "n = min (unat (rs_to_read st)) (512 - m)"
  shows "copy_from_sector fs buf st =
     st\<lparr>rs_out := rs_out st @ map (\<lambda>i. buf ! (m + i)) [0..<n],
        rs_bytes_read := rs_bytes_read st + word_of_nat n,
        rs_remaining := rs_remaining st - word_of_nat n,
        rs_offset := rs_offset st + word_of_nat n,
        rs_to_read := rs_to_read st - word_of_nat n,
        rs_sector := rs_sector st + 1, rs_sector_offset := 0\<rparr>"
proof -
  have m: "unat (word_of_nat m :: u32) = m" using assms(3) by (intro unat_u32_of_nat) simp
  have b: "unat (512 - word_of_nat m :: u32) = 512 - m"
    using assms(3) m by (subst unat_sub) (simp_all add: word_le_nat_alt)
  have "(if rs_to_read st < 512 - word_of_nat m then rs_to_read st else 512 - word_of_nat m) = (word_of_nat n :: u32)"
    (is "?x = _")
    using b assms(3,4) by (auto simp: word_less_nat_alt min_def of_nat_diff)
  moreover have "unat (word_of_nat n :: u32) = n"
    using assms(4) by (intro unat_u32_of_nat) simp
  ultimately show ?thesis
    using assms(1,2) m by (simp add: copy_from_sector_def Let_def)
qed


definition after_sector :: "fat32_fs_t \<Rightarrow> u32 \<Rightarrow> nat \<Rightarrow> nat \<Rightarrow> read_state \<Rightarrow> read_state" where
  "after_sector fs c r n st =
     st\<lparr>rs_out := rs_out st @ map (\<lambda>i. cluster_byte fs c (r + i)) [0..<n],
        rs_bytes_read := rs_bytes_read st + word_of_nat n,
        rs_remaining := rs_remaining st - word_of_nat n,
        rs_offset := rs_offset st + word_of_nat n,
        rs_to_read := rs_to_read st - word_of_nat n,
        rs_sector := rs_sector st + 1, rs_sector_offset := 0\<rparr>"

text \<open>One iteration of the inner loop, in terms of the bytes of the cluster.\<close>

lemma read_sectors_step:
  assumes "fs_ok fs" "cluster_ok fs c" "rs_to_read st \<noteq> 0"
    and "r + unat (rs_to_read st) \<le> cluster_bytes fs"
    and "rs_sector st = cluster_to_sector fs c + word_of_nat (r div 512)"
    and "rs_sector_offset st = word_of_nat (r mod 512)"
    and "n = min (unat (rs_to_read st)) (512 - r mod 512)"
  shows "read_sectors fs (cluster_to_sector fs c) st =
     (let st' = after_sector fs c r n st in
      if u32_of_u8 (sectors_per_cluster fs) \<le> word_of_nat (Suc (r div 512)) then Some (Inr st')
      else read_sectors fs (cluster_to_sector fs c) st')"
proof -
  have "0 < unat (rs_to_read st)"
    using assms(3) by (simp add: unat_gt_0)
  then have "r div 512 < unat (sectors_per_cluster fs)"
    using assms(4) by (simp add: cluster_bytes_def less_mult_imp_div_less)
  then obtain bs where
    bs: "read_sector (disk fs) (cluster_to_sector fs c + word_of_nat (r div 512)) = Some bs"
    using assms(2) by (auto simp: cluster_ok_def)
  have m: "map (\<lambda>i. bs ! (r mod 512 + i)) [0..<n] = map (\<lambda>i. cluster_byte fs c (r + i)) [0..<n]"
    using bs assms(7) by (intro map_cong) (simp_all add: cluster_byte_def div_mod_512_add)
  have st': "copy_from_sector fs bs st = after_sector fs c r n st"
    unfolding after_sector_def m[symmetric]
    using assms(1) by (intro copy_from_sector_eq assms(6,7)) (simp_all add: fs_ok_def)
  have "rs_sector (after_sector fs c r n st) - cluster_to_sector fs c = word_of_nat (Suc (r div 512))"
    using assms(5) by (simp add: after_sector_def)
  then show ?thesis
    using assms(3,5) bs st' by (subst read_sectors.simps) (simp add: Let_def)
qed

lemma read_sectors_ok:
  assumes "fs_ok fs" "cluster_ok fs c"
    and "r + unat (rs_to_read st) \<le> cluster_bytes fs"
    and "rs_sector st = cluster_to_sector fs c + word_of_nat (r div 512)"
    and "rs_sector_offset st = word_of_nat (r mod 512)"
  shows "\<exists>sec so. read_sectors fs (cluster_to_sector fs c) st = Some (Inr (st\<lparr>
            rs_out := rs_out st @ map (\<lambda>i. cluster_byte fs c (r + i)) [0..<unat (rs_to_read st)],
            rs_bytes_read := rs_bytes_read st + rs_to_read st,
            rs_remaining := rs_remaining st - rs_to_read st,
            rs_offset := rs_offset st + rs_to_read st,
            rs_to_read := 0, rs_sector := sec, rs_sector_offset := so\<rparr>))"
  using assms(3-5)
proof (induction "unat (rs_to_read st)" arbitrary: st r rule: less_induct)
  case less
  let ?t = "unat (rs_to_read st)" and ?spc = "unat (sectors_per_cluster fs)"
  let ?base = "cluster_to_sector fs c"
  define n where "n = min ?t (512 - r mod 512)"
  define st' where "st' = after_sector fs c r n st"
  have n: "unat (word_of_nat n :: u32) = n" "n \<le> ?t"
    by (auto simp: n_def intro!: unat_u32_of_nat)
  consider (finished) "rs_to_read st = 0" | (last) "rs_to_read st \<noteq> 0" "?t \<le> 512 - r mod 512"
    | (more) "rs_to_read st \<noteq> 0" "512 - r mod 512 < ?t" by linarith
  then show ?case
  proof cases
    case finished
    then show ?thesis
      by (intro exI[of _ "rs_sector st"] exI[of _ "rs_sector_offset st"]) (simp add: read_sectors.simps)
  next
    case last
    then have nt: "n = ?t" by (simp add: n_def)
    then have "rs_to_read st' = 0" by (simp add: st'_def after_sector_def)
    then have "read_sectors fs ?base st = Some (Inr st')"
      using read_sectors_step[OF assms(1,2) last(1) less.prems n_def] read_sectors.simps[of fs ?base st']
      by (simp add: st'_def Let_def)
    then show ?thesis using nt
      by (intro exI[of _ "rs_sector st'"] exI[of _ 0]) (simp add: st'_def after_sector_def)
  next
    case more
    then have n512: "n = 512 - r mod 512" by (simp add: n_def)
    have r': "r + n = 512 * Suc (r div 512)"
    proof -
      have "512 * (r div 512) + r mod 512 = r" "r mod 512 < 512" by simp_all
      then show ?thesis using n512 unfolding mult_Suc_right by linarith
    qed
    have t': "unat (rs_to_read st') = ?t - n"
      using n by (simp add: st'_def after_sector_def unat_sub word_le_nat_alt)
    have "512 * Suc (r div 512) < 512 * ?spc"
      using more(2) less.prems(1) n512 r' by (simp add: cluster_bytes_def)
    then have "unat (word_of_nat (Suc (r div 512)) :: u32) < ?spc"
      using unat_u8_bound[of "sectors_per_cluster fs"] by (subst unat_u32_of_nat) simp_all
    then have rec: "read_sectors fs ?base st = read_sectors fs ?base st'"
      using read_sectors_step[OF assms(1,2) more(1) less.prems n_def]
      by (simp add: st'_def Let_def word_le_nat_alt)
    have out: "map (\<lambda>i. cluster_byte fs c (r + i)) [0..<n] @
        map (\<lambda>i. cluster_byte fs c (r + n + i)) [0..<?t - n] = map (\<lambda>i. cluster_byte fs c (r + i)) [0..<?t]"
      using n(2) by (rule map_upt_split)
    have "\<exists>sec so. read_sectors fs ?base st' = Some (Inr (st'\<lparr>
          rs_out := rs_out st' @ map (\<lambda>i. cluster_byte fs c (r + n + i)) [0..<unat (rs_to_read st')],
          rs_bytes_read := rs_bytes_read st' + rs_to_read st',
          rs_remaining := rs_remaining st' - rs_to_read st',
          rs_offset := rs_offset st' + rs_to_read st',
          rs_to_read := 0, rs_sector := sec, rs_sector_offset := so\<rparr>))"
    proof (rule less.hyps)
      have "0 < n" "n < ?t" using more(2) n512 by simp_all
      then show "unat (rs_to_read st') < ?t" "r + n + unat (rs_to_read st') \<le> cluster_bytes fs"
        using t' less.prems(1) by simp_all
      show "rs_sector st' = ?base + word_of_nat ((r + n) div 512)"
        "rs_sector_offset st' = word_of_nat ((r + n) mod 512)"
        using less.prems(2) by (simp_all add: r' st'_def after_sector_def)
    qed
    moreover have "rs_out st' @ map (\<lambda>i. cluster_byte fs c (r + n + i)) [0..<unat (rs_to_read st')] =
        rs_out st @ map (\<lambda>i. cluster_byte fs c (r + i)) [0..<?t]"
      unfolding t' by (simp add: st'_def after_sector_def out)
    ultimately obtain sec so where "read_sectors fs ?base st' = Some (Inr (st'\<lparr>
          rs_out := rs_out st @ map (\<lambda>i. cluster_byte fs c (r + i)) [0..<?t],
          rs_bytes_read := rs_bytes_read st' + rs_to_read st',
          rs_remaining := rs_remaining st' - rs_to_read st',
          rs_offset := rs_offset st' + rs_to_read st',
          rs_to_read := 0, rs_sector := sec, rs_sector_offset := so\<rparr>))" by auto
    then show ?thesis
      by (intro exI[of _ sec] exI[of _ so]) (simp add: rec st'_def after_sector_def)
  qed
qed


lemma cluster_nth_Suc: "cluster_nth fs c (Suc n) = cluster_nth fs (fat32_get_next_cluster (Some fs) c) n"
  by (simp add: cluster_nth_def funpow_swap1)

lemma cluster_nth_0 [simp]: "cluster_nth fs c 0 = c"
  by (simp add: cluster_nth_def)

lemma get_cluster_loop_ok:
  assumes "\<And>j. 0 < j \<Longrightarrow> j < n \<Longrightarrow> cluster_nth fs c j \<noteq> FAT32_EOC_MARKER"
  shows "get_cluster_loop (Some fs) n c = Inr (cluster_nth fs c n)"
  using assms
proof (induction n arbitrary: c)
  case (Suc n)
  let ?next = "fat32_get_next_cluster (Some fs) c"
  have "get_cluster_loop (Some fs) n ?next = Inr (cluster_nth fs ?next n)"
    using Suc.prems by (intro Suc.IH) (metis cluster_nth_Suc Suc_less_eq zero_less_Suc)
  moreover have "\<not> (?next = FAT32_EOC_MARKER \<and> 0 < n)"
    using Suc.prems[of 1] by (auto simp: cluster_nth_Suc)
  ultimately show ?case by (simp add: Let_def cluster_nth_Suc)
qed simp

lemma file_ok_cluster:
  assumes "file_ok f" "k < unat (file_size f)"
  shows "cluster_ok (file_fs f) (cluster_nth (file_fs f) (start_cluster f) (k div cluster_bytes (file_fs f)))"
  using assms(1) le_less_trans[OF div_times_less_eq_dividend[of k "cluster_bytes (file_fs f)"] assms(2)]
  by (simp add: file_ok_def)

lemma file_ok_get_cluster:
  assumes "file_ok f" "unat i * cluster_bytes (file_fs f) < unat (file_size f)"
  shows "get_cluster_at_index (Some (file_fs f)) (start_cluster f) i =
    Inr (cluster_nth (file_fs f) (start_cluster f) (unat i))"
proof -
  have "cluster_nth (file_fs f) (start_cluster f) j \<noteq> FAT32_EOC_MARKER" if "j < unat i" for j
  proof -
    have "j * cluster_bytes (file_fs f) \<le> unat i * cluster_bytes (file_fs f)" using that by simp
    then have "j * cluster_bytes (file_fs f) < unat (file_size f)" using assms(2) by linarith
    then show ?thesis using assms(1) by (auto simp: file_ok_def cluster_ok_def)
  qed
  then show ?thesis
    using assms(1) by (auto simp: get_cluster_at_index_def file_ok_def intro: get_cluster_loop_ok)
qed

lemma cluster_size_word:
  assumes "fs_ok fs"
  shows "u32_of_u16 (bytes_per_sector fs) * u32_of_u8 (sectors_per_cluster fs) = word_of_nat (cluster_bytes fs)"
    and "unat (word_of_nat (cluster_bytes fs) :: u32) = cluster_bytes fs" "0 < cluster_bytes fs"
proof -
  have s: "0 < unat (sectors_per_cluster fs)" using assms by (simp add: fs_ok_def unat_gt_0)
  then show "0 < cluster_bytes fs" by (simp add: cluster_bytes_def)
  have "cluster_bytes fs < 4294967296"
    using unat_u8_bound[of "sectors_per_cluster fs"] by (simp add: cluster_bytes_def)
  then show u: "unat (word_of_nat (cluster_bytes fs) :: u32) = cluster_bytes fs"
    by (rule unat_u32_of_nat)
  show "u32_of_u16 (bytes_per_sector fs) * u32_of_u8 (sectors_per_cluster fs) = word_of_nat (cluster_bytes fs)"
    using assms unat_u8_bound[of "sectors_per_cluster fs"]
    by (subst word_unat_eq_iff) (simp add: fs_ok_def u unat_word_ariths cluster_bytes_def)
qed

text \<open>One iteration of the outer loop.\<close>

lemma read_clusters_step:
  fixes f st
  defines "fs \<equiv> file_fs f"
  defines "off \<equiv> unat (rs_offset st)"
  defines "t \<equiv> min (unat (rs_remaining st)) (cluster_bytes fs - off mod cluster_bytes fs)"
  assumes ok: "file_ok f" and rem: "rs_remaining st \<noteq> 0"
    and bound: "off + unat (rs_remaining st) \<le> unat (file_size f)"
  shows "\<exists>sec so. read_clusters f st =
    read_clusters (f\<lparr>current_cluster := cluster_nth fs (start_cluster f) (off div cluster_bytes fs)\<rparr>)
      (st\<lparr>rs_out := rs_out st @ map (\<lambda>i. file_byte fs (start_cluster f) (off + i)) [0..<t],
          rs_bytes_read := rs_bytes_read st + word_of_nat t,
          rs_remaining := rs_remaining st - word_of_nat t,
          rs_offset := rs_offset st + word_of_nat t,
          rs_to_read := 0, rs_sector := sec, rs_sector_offset := so\<rparr>)"
proof -
  let ?cb = "cluster_bytes fs"
  let ?cs = "word_of_nat ?cb :: u32"
  define c where "c = cluster_nth fs (start_cluster f) (off div ?cb)"
  define r where "r = off mod ?cb"
  have fsok: "fs_ok fs" using ok by (simp add: file_ok_def fs_def)
  note cs = cluster_size_word[OF fsok]
  have bps: "bytes_per_sector fs = 512" using fsok by (simp add: fs_ok_def)
  have "0 < unat (rs_remaining st)" using rem by (simp add: unat_gt_0)
  then have offs: "off < unat (file_size f)" using bound by simp
  have cok: "cluster_ok fs c" using file_ok_cluster[OF ok offs] by (simp add: c_def fs_def)
  have idx: "unat (rs_offset st div ?cs) = off div ?cb" "unat (rs_offset st mod ?cs) = r"
    by (simp_all add: unat_div unat_mod cs off_def r_def)
  have gc: "get_cluster_at_index (Some fs) (start_cluster f) (rs_offset st div ?cs) = Inr c"
    using file_ok_get_cluster[OF ok, of "rs_offset st div ?cs"] offs
      div_times_less_eq_dividend[of off ?cb]
    by (simp add: idx c_def flip: fs_def)
  have rlt: "r < ?cb" using cs(3) by (simp add: r_def)
  have left: "unat (?cs - rs_offset st mod ?cs) = ?cb - r"
    using rlt idx(2) cs(2) by (subst unat_sub) (simp_all add: word_le_nat_alt)
  have tt: "(if rs_remaining st < ?cs - rs_offset st mod ?cs then rs_remaining st
      else ?cs - rs_offset st mod ?cs) = word_of_nat t" (is "?btr = _")
    using left rlt by (auto simp: t_def word_less_nat_alt min_def r_def[symmetric] of_nat_diff idx(2)[symmetric])
  have ut: "unat (word_of_nat t :: u32) = t"
    using unat_u32_bound[of "rs_remaining st"] by (intro unat_u32_of_nat) (simp add: t_def)
  define st1 where "st1 = st\<lparr>rs_to_read := word_of_nat t,
     rs_sector := cluster_to_sector fs c + word_of_nat (r div 512), rs_sector_offset := word_of_nat (r mod 512)\<rparr>"
  have rt: "r + t \<le> ?cb" using rlt by (simp add: t_def r_def)
  have w: "rs_offset st mod ?cs div 512 = word_of_nat (r div 512)"
      "rs_offset st mod ?cs mod 512 = word_of_nat (r mod 512)"
    by (simp_all add: word_arith_nat_div[of "rs_offset st mod ?cs"] word_arith_nat_mod[of "rs_offset st mod ?cs"] idx(2))
  obtain sec so where rs: "read_sectors fs (cluster_to_sector fs c) st1 = Some (Inr (st1\<lparr>
            rs_out := rs_out st1 @ map (\<lambda>i. cluster_byte fs c (r + i)) [0..<unat (rs_to_read st1)],
            rs_bytes_read := rs_bytes_read st1 + rs_to_read st1,
            rs_remaining := rs_remaining st1 - rs_to_read st1,
            rs_offset := rs_offset st1 + rs_to_read st1,
            rs_to_read := 0, rs_sector := sec, rs_sector_offset := so\<rparr>))"
    using read_sectors_ok[OF fsok cok, of r st1] rt ut by (auto simp: st1_def)
  have out: "map (\<lambda>i. cluster_byte fs c (r + i)) [0..<t] = map (\<lambda>i. file_byte fs (start_cluster f) (off + i)) [0..<t]"
  proof (intro map_cong refl)
    fix i assume "i \<in> set [0..<t]"
    then have "r + i < ?cb" using rt by simp
    from file_byte_cluster[OF this, of "start_cluster f" "off div ?cb"]
    show "cluster_byte fs c (r + i) = file_byte fs (start_cluster f) (off + i)"
      by (simp add: c_def r_def flip: add.assoc)
  qed
  have "?cs \<noteq> 0" "\<not> sint (cluster_to_sector fs c) < 0"
    using cs(2,3) cok by (auto simp: cluster_ok_def)
  then have "read_clusters f st = read_clusters (f\<lparr>current_cluster := c\<rparr>)
      (st\<lparr>rs_out := rs_out st @ map (\<lambda>i. cluster_byte fs c (r + i)) [0..<t],
          rs_bytes_read := rs_bytes_read st + word_of_nat t,
          rs_remaining := rs_remaining st - word_of_nat t,
          rs_offset := rs_offset st + word_of_nat t,
          rs_to_read := 0, rs_sector := sec, rs_sector_offset := so\<rparr>)"
    using rem cs(1) gc rs
    by (subst read_clusters.simps) (simp add: Let_def bps w tt st1_def ut flip: fs_def)
  then show ?thesis unfolding out[symmetric] c_def[symmetric] by blast
qed

text \<open>The cluster the file is left at by a read of \<open>n\<close> bytes from \<open>off\<close> on.\<close>

definition read_end :: "fat32_file_t \<Rightarrow> nat \<Rightarrow> fat32_file_t" where
  "read_end f n = (if n = 0 then f else
     f\<lparr>file_offset := file_offset f + word_of_nat n,
       current_cluster := cluster_nth (file_fs f) (start_cluster f)
         ((unat (file_offset f) + n - 1) div cluster_bytes (file_fs f))\<rparr>)"

lemma read_end_step:
  assumes "fs_ok (file_fs f)" "t = min n (cluster_bytes (file_fs f) - off mod cluster_bytes (file_fs f))"
    "0 < n" "off = unat (file_offset f)" "off + n < 4294967296"
  shows "read_end (f\<lparr>current_cluster :=
        cluster_nth (file_fs f) (start_cluster f) (off div cluster_bytes (file_fs f)),
      file_offset := file_offset f + word_of_nat t\<rparr>) (n - t)
    = read_end f n"
proof -
  let ?cb = "cluster_bytes (file_fs f)"
  have lt: "off mod ?cb < ?cb" using cluster_size_word(3)[OF assms(1)] by simp
  have t: "0 < t" "t \<le> n" using lt assms(2,3) by auto
  have "unat (file_offset f + word_of_nat t) = off + t"
    using t(2) assms(4,5) by (simp add: unat_word_ariths unat_u32_of_nat)
  moreover have "off div ?cb = (off + n - 1) div ?cb" if "t = n"
  proof -
    have "off mod ?cb + (n - 1) < ?cb" using that assms(2) t(1) lt by simp
    moreover have "off + n - 1 = ?cb * (off div ?cb) + (off mod ?cb + (n - 1))" using t that by simp
    ultimately show ?thesis by (metis div_less div_mult_self4 lt add.right_neutral add.commute less_nat_zero_code)
  qed
  ultimately show ?thesis using t assms(4) by (auto simp: read_end_def of_nat_diff)
qed

lemma file_ok_update [simp]:
  "file_ok (f\<lparr>current_cluster := c\<rparr>) = file_ok f" "file_ok (f\<lparr>file_offset := x\<rparr>) = file_ok f"
  by (simp_all add: file_ok_def)

lemma read_clusters_ok:
  assumes "file_ok f"
    and "unat (rs_offset st) + unat (rs_remaining st) \<le> unat (file_size f)"
  shows "read_clusters f st =
    Some (sint (rs_bytes_read st + rs_remaining st),
      read_end (f\<lparr>file_offset := rs_offset st\<rparr>) (unat (rs_remaining st)),
      rs_out st @ map (\<lambda>i. file_byte (file_fs f) (start_cluster f) (unat (rs_offset st) + i))
        [0..<unat (rs_remaining st)])"
  using assms
proof (induction "unat (rs_remaining st)" arbitrary: st f rule: less_induct)
  case less
  let ?cb = "cluster_bytes (file_fs f)" and ?off = "unat (rs_offset st)" and ?n = "unat (rs_remaining st)"
  let ?b = "\<lambda>k. file_byte (file_fs f) (start_cluster f) k"
  show ?case
  proof (cases "rs_remaining st = 0")
    case True
    then show ?thesis by (simp add: read_clusters.simps read_return_def read_end_def)
  next
    case False
    define t where "t = min ?n (?cb - ?off mod ?cb)"
    obtain sec so where
      step: "read_clusters f st = read_clusters
        (f\<lparr>current_cluster := cluster_nth (file_fs f) (start_cluster f) (?off div ?cb)\<rparr>)
        (st\<lparr>rs_out := rs_out st @ map (\<lambda>i. ?b (?off + i)) [0..<t],
          rs_bytes_read := rs_bytes_read st + word_of_nat t,
          rs_remaining := rs_remaining st - word_of_nat t,
          rs_offset := rs_offset st + word_of_nat t,
          rs_to_read := 0, rs_sector := sec, rs_sector_offset := so\<rparr>)" (is "_ = read_clusters ?f' ?st'")
      using read_clusters_step[OF less.prems(1) False less.prems(2)] unfolding t_def by blast
    have fsok: "fs_ok (file_fs f)" using less.prems(1) by (simp add: file_ok_def)
    have n: "0 < ?n" using False by (simp add: unat_gt_0)
    have t: "0 < t" "t \<le> ?n" using n cluster_size_word(3)[OF fsok] by (auto simp: t_def)
    have big: "?off + ?n < 4294967296" using less.prems(2) unat_u32_bound[of "file_size f"] by simp
    have u: "unat (word_of_nat t :: u32) = t" "unat (rs_offset st + word_of_nat t) = ?off + t"
        "unat (rs_remaining st - word_of_nat t) = ?n - t"
      using t big by (simp_all add: unat_u32_of_nat unat_word_ariths(1) unat_sub word_le_nat_alt)
    have split: "map (\<lambda>i. ?b (?off + i)) [0..<t] @ map (\<lambda>i. ?b (?off + t + i)) [0..<?n - t] =
      map (\<lambda>i. ?b (?off + i)) [0..<?n]"
      using t(2) by (rule map_upt_split)
    have "read_clusters ?f' ?st' = Some (sint (rs_bytes_read ?st' + rs_remaining ?st'),
      read_end (?f'\<lparr>file_offset := rs_offset ?st'\<rparr>) (unat (rs_remaining ?st')),
      rs_out ?st' @ map (\<lambda>i. file_byte (file_fs ?f') (start_cluster ?f') (unat (rs_offset ?st') + i))
        [0..<unat (rs_remaining ?st')])"
      using t u less.prems by (intro less.hyps) simp_all
    moreover have "read_end (?f'\<lparr>file_offset := rs_offset st + word_of_nat t\<rparr>) (?n - t) =
        read_end (f\<lparr>file_offset := rs_offset st\<rparr>) ?n"
      using read_end_step[of "f\<lparr>file_offset := rs_offset st\<rparr>", simplified, OF fsok t_def n refl big] by simp
    ultimately show ?thesis
      by (simp add: step u split)
  qed
qed


definition read_count :: "fat32_file_t \<Rightarrow> u32 \<Rightarrow> nat" where
  "read_count f sz = min (unat sz) (unat (file_size f) - unat (file_offset f))"

lemma read_correct:
  assumes "file_ok f"
  shows "fat32_read (Some f) True sz =
    (let n = read_count f sz in
     Some (sint (word_of_nat n :: u32), Some (read_end f n),
           map (\<lambda>i. file_byte (file_fs f) (start_cluster f) (unat (file_offset f) + i)) [0..<n]))"
proof (cases "file_size f \<le> file_offset f \<or> sz = 0")
  case True
  then have "read_count f sz = 0" by (auto simp: read_count_def word_le_nat_alt)
  then show ?thesis using True by (simp add: fat32_read_def read_end_def)
next
  case False
  define rem where "rem = (if sz > file_size f - file_offset f then file_size f - file_offset f else sz)"
  have m: "unat (file_size f - file_offset f) = unat (file_size f) - unat (file_offset f)"
    using False by (subst unat_sub) (auto simp: word_le_nat_alt)
  have n: "unat rem = read_count f sz"
    using m by (auto simp: rem_def read_count_def word_less_nat_alt)
  then have bound: "unat (file_offset f) + unat rem \<le> unat (file_size f)"
    using False by (auto simp: read_count_def word_le_nat_alt)
  have w: "word_of_nat (read_count f sz) = rem" by (simp flip: n)
  show ?thesis
    using False bound read_clusters_ok[OF assms]
    by (simp add: fat32_read_def Let_def w flip: rem_def n)
qed

text \<open>
  A safety property that needs no well-formed file system: whatever the disk delivers, the bytes
  stored and the bytes still wanted add up to the same number in every state of the loops.
\<close>

definition read_total :: "read_state \<Rightarrow> nat" where
  "read_total st = length (rs_out st) + unat (rs_remaining st)"

definition loop_state :: "(int \<times> read_state) + read_state \<Rightarrow> read_state" where
  "loop_state res = (case res of Inl x \<Rightarrow> snd x | Inr st \<Rightarrow> st)"

lemma copy_from_sector_total:
  assumes "rs_to_read st \<le> rs_remaining st"
  shows "read_total (copy_from_sector fs buf st) = read_total st"
    and "rs_to_read (copy_from_sector fs buf st) \<le> rs_remaining (copy_from_sector fs buf st)"
proof -
  define b where "b = u32_of_u16 (bytes_per_sector fs) - rs_sector_offset st"
  define n where "n = (if rs_to_read st < b then rs_to_read st else b)"
  have "unat n \<le> unat (rs_to_read st)" "unat (rs_to_read st) \<le> unat (rs_remaining st)"
    using assms by (auto simp: n_def word_less_nat_alt word_le_nat_alt)
  then show "read_total (copy_from_sector fs buf st) = read_total st"
    and "rs_to_read (copy_from_sector fs buf st) \<le> rs_remaining (copy_from_sector fs buf st)"
    by (simp_all add: copy_from_sector_def Let_def read_total_def unat_sub word_le_nat_alt
          flip: b_def n_def)
qed

lemma read_sectors_total:
  assumes "read_sectors fs c st = Some res" "rs_to_read st \<le> rs_remaining st"
  shows "read_total (loop_state res) = read_total st"
proof -
  have "rs_to_read st \<le> rs_remaining st \<longrightarrow> read_total (loop_state res) = read_total st"
    by (rule read_sectors.raw_induct[OF _ assms(1)])
      (auto simp: Let_def loop_state_def copy_from_sector_total split: if_splits option.splits)
  then show ?thesis using assms(2) by simp
qed

lemma read_clusters_total:
  assumes "read_clusters f st = Some (r, f', out)"
  shows "length out \<le> read_total st"
proof -
  have "length (snd (snd (r, f', out))) \<le> read_total st"
  proof (rule read_clusters.raw_induct[OF _ assms], goal_cases)
    case (1 rc f st res)
    show ?case
      using 1(2)
      by (auto simp: Let_def read_return_def read_total_def loop_state_def not_less
          split: if_splits sum.splits elim!: bind_SomeE dest!: 1(1) read_sectors_total)
  qed
  then show ?thesis by simp
qed

section \<open>Properties of open files\<close>

definition hello_file :: fat32_file_t where
  "hello_file =
     \<lparr>file_fs = ex_fs, formatted_name = cstr ''HELLO   TXT'', start_cluster = 3, current_cluster = 3,
      current_cluster_index = 0, file_size = 600, file_offset = 0, parent_dir_cluster = 2\<rparr>"

lemma ex_fs_simps [simp]:
  "bytes_per_sector ex_fs = 512" "sectors_per_cluster ex_fs = 1" "read_sector (disk ex_fs) = ex_read"
  "fs_ok ex_fs" "cluster_bytes ex_fs = 512"
  by (simp_all add: ex_fs_def fs_ok_def cluster_bytes_def)

lemma ex_cluster:
  "cluster_to_sector ex_fs 3 = 12" "cluster_to_sector ex_fs 4 = 13"
  "cluster_nth ex_fs 3 1 = 4"
  by (simp_all add: cluster_to_sector_def cluster_nth_def fat32_get_next_cluster_def ex_fs_def c_consts ex_read_def ex_fat_def)

lemma hello_ok: "file_ok hello_file"
proof -
  have "cluster_ok ex_fs 3" "cluster_ok ex_fs 4"
    by (simp_all add: cluster_ok_def ex_cluster c_consts) (simp_all add: ex_fs_def ex_read_def)
  moreover have "k = 0 \<or> k = 1" if "k * 512 < 600" for k :: nat using that by linarith
  ultimately have "cluster_ok ex_fs (cluster_nth ex_fs 3 k)" if "k * 512 < 600" for k
    using that ex_cluster(3) by (metis cluster_nth_0)
  then show ?thesis by (simp add: file_ok_def hello_file_def)
qed

text \<open>
  C1. \<^verbatim>\<open>fat32_read\<close> on a file whose cluster chain covers its size: it returns, the return value is
  the number of bytes asked for cut at the end of the file, the bytes stored are exactly that slice
  of the file, across sector and cluster boundaries, and the file is left behind the slice, at the
  cluster of the last byte read.
\<close>

theorem read_returns_file_slice:
  assumes "file_ok f"
    and "n = min (unat sz) (unat (file_size f) - unat (file_offset f))"
  shows "fat32_read (Some f) True sz =
     Some (sint (word_of_nat n :: u32), Some (read_end f n),
           map (\<lambda>i. file_byte (file_fs f) (start_cluster f) (unat (file_offset f) + i)) [0..<n])"
  using read_correct[OF assms(1), of sz] assms(2) by (simp add: read_count_def Let_def)

theorem read_returns_file_slice_witness:
  "fat32_read (Some (hello_file\<lparr>file_offset := 511\<rparr>)) True 2 =
     Some (2, Some (hello_file\<lparr>file_offset := 513, current_cluster := 4\<rparr>), [73, 74])"
proof -
  have ok: "file_ok (hello_file\<lparr>file_offset := 511\<rparr>)" using hello_ok by simp
  have "read_end (hello_file\<lparr>file_offset := 511\<rparr>) 2 = hello_file\<lparr>file_offset := 513, current_cluster := 4\<rparr>"
    using ex_cluster(3) by (simp add: read_end_def hello_file_def)
  moreover have "file_byte ex_fs 3 511 = 73" "file_byte ex_fs 3 512 = 74"
    using ex_cluster by (simp_all add: file_byte_def Let_def ex_read_def)
  ultimately show ?thesis
    using read_returns_file_slice[OF ok, of 2 2] by (simp add: hello_file_def upt_rec)
qed

text \<open>
  C28. Reading never writes past the caller's buffer, whatever the disk delivers: for any file,
  well-formed or not, and any size, when \<^verbatim>\<open>fat32_read\<close> returns it has stored at most the requested
  number of bytes, and no more than the file has left.
\<close>

theorem read_stays_in_buffer:
  assumes "fat32_read (Some f) given sz = Some (r, f', out)"
  shows "length out \<le> unat sz \<and> length out \<le> unat (file_size f) - unat (file_offset f)"
  using assms
  by (auto simp: fat32_read_def Let_def read_total_def word_le_nat_alt word_less_nat_alt unat_sub
      split: if_splits elim!: bind_SomeE dest!: read_clusters_total)

theorem read_stays_in_buffer_witness:
  "\<exists>r f' out. fat32_read (Some hello_file) True 700 = Some (r, f', out) \<and> length out \<le> 600"
  using read_stays_in_buffer[of hello_file True 700] read_correct[OF hello_ok, of 700]
  by (auto simp: Let_def hello_file_def)

lemma read_end_0 [simp]: "read_end f 0 = f"
  by (simp add: read_end_def)

lemma read_end_simps [simp]:
  "file_fs (read_end f n) = file_fs f" "start_cluster (read_end f n) = start_cluster f"
  "file_size (read_end f n) = file_size f" "file_ok (read_end f n) = file_ok f"
  by (simp_all add: read_end_def)

lemma read_end_offset:
  "unat (file_offset f) + n < 4294967296 \<Longrightarrow> unat (file_offset (read_end f n)) = unat (file_offset f) + n"
  by (simp add: read_end_def unat_word_ariths unat_u32_of_nat)

text \<open>
  Reading in pieces: two consecutive reads deliver, one after the other, the bytes one read of
  the combined size delivers, and leave the file at the same offset and cluster.
\<close>

theorem read_in_pieces:
  assumes "file_ok f" "unat a + unat b < 2 ^ 32"
    and "fat32_read (Some f) True a = Some (r1, Some f1, out1)"
    and "fat32_read (Some f1) True b = Some (r2, Some f2, out2)"
  shows "\<exists>r. fat32_read (Some f) True (a + b) = Some (r, Some f2, out1 @ out2)"
proof -
  let ?off = "unat (file_offset f)"
  define n m where "n = read_count f a" and "m = read_count (read_end f n) b"
  have "read_count f a \<le> unat (file_size f) - ?off" by (simp add: read_count_def)
  then have n: "n = 0 \<or> ?off + n \<le> unat (file_size f)" by (auto simp: n_def)
  then have off: "unat (file_offset (read_end f n)) = ?off + n"
    using unat_u32_bound[of "file_size f"] by (auto intro: read_end_offset)
  have r1: "f1 = read_end f n" "out1 = map (\<lambda>i. file_byte (file_fs f) (start_cluster f) (?off + i)) [0..<n]"
    using assms(3) read_correct[OF assms(1), of a] by (auto simp: Let_def n_def)
  have r2: "f2 = read_end (read_end f n) m"
      "out2 = map (\<lambda>i. file_byte (file_fs f) (start_cluster f) (?off + n + i)) [0..<m]"
    using assms(4) read_correct[of f1 b] assms(1) by (auto simp: r1(1) Let_def m_def off)
  have "unat (a + b) = unat a + unat b" using assms(2) by (simp add: unat_word_ariths)
  then have nm: "read_count f (a + b) = n + m"
    by (auto simp: n_def m_def read_count_def off[unfolded n_def read_count_def])
  then have e: "f2 = read_end f (n + m)" using off by (auto simp: r2(1) read_end_def add.assoc)
  have o: "out1 @ out2 = map (\<lambda>i. file_byte (file_fs f) (start_cluster f) (?off + i)) [0..<n + m]"
    using map_upt_split[of n "n + m"] by (simp add: r1 r2)
  show ?thesis using read_correct[OF assms(1), of "a + b"] by (simp add: Let_def nm e o)
qed

theorem read_in_pieces_witness:
  "\<exists>r f1 out1 r' f2 out2 r''. fat32_read (Some hello_file) True 300 = Some (r, Some f1, out1) \<and>
     fat32_read (Some f1) True 400 = Some (r', Some f2, out2) \<and>
     fat32_read (Some hello_file) True 700 = Some (r'', Some f2, out1 @ out2)"
proof -
  obtain r f1 out1 where 1: "fat32_read (Some hello_file) True 300 = Some (r, Some f1, out1)" "file_ok f1"
    using read_correct[OF hello_ok, of 300] hello_ok by (auto simp: Let_def)
  then obtain r' f2 out2 where 2: "fat32_read (Some f1) True 400 = Some (r', Some f2, out2)"
    using read_correct[OF 1(2), of 400] by (auto simp: Let_def)
  show ?thesis using read_in_pieces[OF hello_ok _ 1(1) 2] 1 2 by auto
qed

text \<open>
  C32. Seeking: an offset up to the size of the file (and below \<open>2\<^sup>3\<^sup>1\<close>) is accepted, becomes the
  position \<^verbatim>\<open>fat32_tell\<close> reports and the place the next read starts at, and \<^verbatim>\<open>fat32_eof\<close> then holds
  exactly at the size; any other offset is rejected and leaves the file alone.
\<close>

theorem seek_read_tell:
  assumes "file_ok f" "n = min (unat sz) (unat (file_size f) - unat off)"
  shows "if 0 \<le> sint off \<and> off \<le> file_size f
         then \<exists>f'. fat32_seek (Some f) off = (FAT32_SUCCESS, Some f') \<and>
                fat32_tell (Some f') = sint off \<and>
                fat32_eof (Some f') = (if off = file_size f then 1 else 0) \<and>
                fat32_read (Some f') True sz =
                  Some (sint (word_of_nat n :: u32), Some (read_end f' n),
                    map (\<lambda>i. file_byte (file_fs f) (start_cluster f) (unat off + i)) [0..<n])
         else fat32_seek (Some f) off = (FAT32_ERROR_BAD_PARAMETER, Some f)"
  using read_correct[of "f\<lparr>file_offset := off\<rparr>" sz] assms
  by (auto simp: fat32_seek_def fat32_tell_def fat32_eof_def Let_def read_count_def)

theorem seek_read_tell_witness:
  "(\<exists>f'. fat32_seek (Some hello_file) 512 = (FAT32_SUCCESS, Some f') \<and> fat32_tell (Some f') = 512 \<and>
     (\<exists>r f''. fat32_read (Some f') True 1 = Some (r, f'', [74]))) \<and>
   fat32_seek (Some hello_file) 601 = (FAT32_ERROR_BAD_PARAMETER, Some hello_file)"
proof -
  have "file_byte ex_fs 3 512 = 74" using ex_cluster by (simp add: file_byte_def Let_def ex_read_def)
  then show ?thesis
    using seek_read_tell[OF hello_ok, of 1 1 512] seek_read_tell[OF hello_ok, of 0 1 601]
    by (auto simp: hello_file_def)
qed

text \<open>
  C35. What following the FAT gives: the next cluster is an ordinary cluster number between 2 and
  0x0FFFFFF6, the end-of-chain marker, or one of three error codes stored in the same 32-bit word;
  the error codes are never mistaken for the end marker, nor for an ordinary cluster number.
\<close>

theorem next_cluster_range:
  "fat32_get_next_cluster fsp c \<in>
     {FAT32_EOC_MARKER, word_of_int FAT32_ERROR_BAD_PARAMETER, word_of_int FAT32_ERROR_IO,
      word_of_int FAT32_ERROR_CORRUPTED_FS} \<union> {2..0x0FFFFFF6}"
proof -
  have "v \<le> 0x0FFFFFF6" if "\<not> 0x0FFFFFF8 \<le> v" "v \<noteq> 0x0FFFFFF7" for v :: u32
    using that by (auto simp: word_le_nat_alt word_unat_eq_iff)
  then show ?thesis
    by (auto simp: fat32_get_next_cluster_def Let_def not_less split: option.splits)
qed

end
