(* ===== verification/Fat32_Dir.thy ===== *)
theory Fat32_Dir
  imports Fat32_File
begin

text \<open>
  The FAT32 driver, third part: names, paths and directories (\<^verbatim>\<open>format_name_to_fat32\<close>,
  \<^verbatim>\<open>parse_fat32_path\<close>, \<^verbatim>\<open>fat32_read_fat_entry\<close>, \<^verbatim>\<open>read_dir_entry\<close>, \<^verbatim>\<open>fat32_open\<close>,
  \<^verbatim>\<open>fat32_readlabel\<close>).

  The index loops over strings are kept as the code has them and proved equal to reference
  definitions (splitting at slashes, padding to 8.3). Directories are searched by the code's
  triple loop over clusters, sectors and entries; the reference is a search of the list of
  entries of the directory's first cluster.
\<close>

section \<open>Names\<close>

text \<open>The loops \<open>for (i = 0; i < 8; i++)\<close> and \<open>for (i = 0; i < 3; i++)\<close> write one byte each.\<close>

definition format_name_to_fat32 :: "u8 list \<Rightarrow> u8 list" where
  "format_name_to_fat32 input =
     (let ext_pos = strchr input 46;
          name_len = (case ext_pos of Some p \<Rightarrow> p | None \<Rightarrow> strlen input);
          ext_len = (case ext_pos of Some p \<Rightarrow> strlen (drop (p + 1) input) | None \<Rightarrow> 0)
      in map (\<lambda>i. if i < name_len then toupper (char_at input i) else 32) [0..<8] @
         map (\<lambda>i. case ext_pos of
                    Some p \<Rightarrow> if i < ext_len then toupper (char_at input (p + 1 + i)) else 32
                  | None \<Rightarrow> 32) [0..<3])"

section \<open>Paths\<close>

record fat32_path_t =
  components :: "u8 list list"
  num_components :: nat

definition fat32_path_init :: "fat32_path_t \<Rightarrow> fat32_path_t" where
  "fat32_path_init path = path\<lparr>num_components := 0\<rparr>"

text \<open>
  The loop body of \<^verbatim>\<open>parse_fat32_path\<close> on its locals \<open>(start, components written so far)\<close>;
  \<^verbatim>\<open>component_idx\<close> is the number of components written.
\<close>

definition parse_path_step :: "u8 list \<Rightarrow> nat \<times> u8 list list \<Rightarrow> nat \<Rightarrow> nat \<times> u8 list list" where
  "parse_path_step path st i =
     (let (start, comps) = st in
      if char_at path i = 47 \<or> char_at path i = 0 then
        (i + 1,
         if i > start then
           (let len = i - start in
            if len < FAT32_MAX_COMPONENT_LENGTH \<and> length comps < FAT32_MAX_COMPONENTS
            then comps @ [strncpy (drop start path) len] else comps)
         else comps)
      else (start, comps))"

definition parse_fat32_path :: "u8 list \<Rightarrow> fat32_path_t \<Rightarrow> fat32_path_t" where
  "parse_fat32_path path parser =
     (let path_len = strlen path;
          (path', len') = (if char_at path 0 = 46 then (drop 1 path, path_len - 1) else (path, path_len));
          comps = snd (foldl (parse_path_step path') (0, []) [0..<len' + 1])
      in parser\<lparr>components := comps @ drop (length comps) (components parser), num_components := length comps\<rparr>)"

section \<open>Directory entries\<close>

record Fat32DirectoryEntry =
  de_filename :: "u8 list"
  de_attr :: u8
  firstClusterHigh :: u16
  firstClusterLow :: u16
  fileSize :: u32

text \<open>The packed 32-byte entry \<open>k\<close> of a sector: filename 0, attr 11, clusters 20 and 26, size 28.\<close>

definition dir_entry_at :: "u8 list \<Rightarrow> nat \<Rightarrow> Fat32DirectoryEntry" where
  "dir_entry_at buf k =
     \<lparr>de_filename = map (\<lambda>i. buf ! (32 * k + i)) [0..<11], de_attr = buf ! (32 * k + 11),
      firstClusterHigh = read_unaligned_uint16 buf (32 * k + 20),
      firstClusterLow = read_unaligned_uint16 buf (32 * k + 26),
      fileSize = read_unaligned_uint32 buf (32 * k + 28)\<rparr>"

record fat32_dir_entry_t =
  de_attributes :: u8
  de_file_size :: u32
  de_start_cluster :: u32
  de_is_initialized :: bool

definition fat32_read_fat_entry :: "fat32_fs_t option \<Rightarrow> u32 \<Rightarrow> int" where
  "fat32_read_fat_entry fsp cluster =
     (case fsp of
        None \<Rightarrow> FAT32_ERROR_BAD_PARAMETER
      | Some fs \<Rightarrow>
          let fat_offset = cluster * 4;
              entry_offset = unat (fat_offset mod 512);
              fat_sector = fat_offset div 512 + fat_start_sector fs
          in (case read_sector (disk fs) fat_sector of
                None \<Rightarrow> FAT32_ERROR_IO
              | Some buffer \<Rightarrow>
                  let next_cluster = u32_of_u8 (buffer ! entry_offset) AND 0x0FFFFFFF
                  in if next_cluster \<ge> 0x0FFFFFF8 then sint FAT32_EOC_MARKER
                     else if next_cluster = 0x0FFFFFF7 then FAT32_ERROR_IO
                     else sint next_cluster))"

text \<open>
  \<^verbatim>\<open>read_dir_entry\<close> and \<^verbatim>\<open>fat32_readlabel\<close> run the same three loops, with a different test on an
  entry and a different code at the end marker: \<open>hit\<close> and \<open>eod\<close>. The loop over the entries of a
  sector either returns from the function (\<open>Some\<close>), with a code or with the entry found, or goes on.
\<close>

fun scan_entries :: "(Fat32DirectoryEntry \<Rightarrow> bool) \<Rightarrow> int \<Rightarrow> Fat32DirectoryEntry list \<Rightarrow>
    (int + Fat32DirectoryEntry) option" where
  "scan_entries hit eod [] = None"
| "scan_entries hit eod (e # es) =
     (if de_filename e ! 0 = FAT32_ENTRY_EMPTY then Some (Inl eod)
      else if de_filename e ! 0 = FAT32_ENTRY_DELETED then scan_entries hit eod es
      else if hit e then Some (Inr e)
      else scan_entries hit eod es)"

definition sector_entries :: "u8 list \<Rightarrow> Fat32DirectoryEntry list" where
  "sector_entries buf = map (dir_entry_at buf) [0..<FAT32_SECTOR_SIZE div 32]"

fun scan_sectors :: "(Fat32DirectoryEntry \<Rightarrow> bool) \<Rightarrow> int \<Rightarrow> fat32_fs_t \<Rightarrow> u32 \<Rightarrow> nat list \<Rightarrow>
    (int + Fat32DirectoryEntry) option" where
  "scan_sectors hit eod fs sector_target [] = None"
| "scan_sectors hit eod fs sector_target (s # ss) =
     (case read_sector (disk fs) (sector_target + word_of_nat s) of
        None \<Rightarrow> Some (Inl FAT32_ERROR_IO)
      | Some buf \<Rightarrow>
          (case scan_entries hit eod (sector_entries buf) of
             Some r \<Rightarrow> Some r
           | None \<Rightarrow> scan_sectors hit eod fs sector_target ss))"

definition dir_sector :: "fat32_fs_t \<Rightarrow> u32 \<Rightarrow> u32" where
  "dir_sector fs cluster = first_data_sector fs + (cluster - 2) * u32_of_u8 (sectors_per_cluster fs)"

partial_function (option) scan_clusters :: "(Fat32DirectoryEntry \<Rightarrow> bool) \<Rightarrow> int \<Rightarrow> int \<Rightarrow> fat32_fs_t \<Rightarrow> u32 \<Rightarrow>
    (int + Fat32DirectoryEntry) option" where
  "scan_clusters hit eod eoc fs current =
     (if current = FAT32_EOC_MARKER then Some (Inl eoc)
      else (case scan_sectors hit eod fs (dir_sector fs current) [0..<unat (sectors_per_cluster fs)] of
              Some r \<Rightarrow> Some r
            | None \<Rightarrow>
                let next_cluster = fat32_read_fat_entry (Some fs) current in
                if next_cluster < 0 then Some (Inl next_cluster)
                else scan_clusters hit eod eoc fs (word_of_int next_cluster)))"

definition read_dir_entry ::
    "fat32_fs_t option \<Rightarrow> fat32_dir_entry_t option \<Rightarrow> u8 list option \<Rightarrow> (int \<times> fat32_dir_entry_t option) option" where
  "read_dir_entry fsp current_dir namep =
     (case (fsp, namep) of
        (Some fs, Some name) \<Rightarrow>
          let start = (case current_dir of
                 Some d \<Rightarrow> if de_is_initialized d then de_start_cluster d else root_cluster fs
               | None \<Rightarrow> root_cluster fs);
              formatted_name = format_name_to_fat32 name
          in do {
            r \<leftarrow> scan_clusters (\<lambda>e. memcmp formatted_name (de_filename e) 11 = 0) (-1) FAT32_ERROR_NO_FILE fs start;
            (case r of
               Inl code \<Rightarrow> Some (code, current_dir)
             | Inr e \<Rightarrow> Some (0, map_option (\<lambda>d. d\<lparr>de_is_initialized := True,
                   de_start_cluster := push_bit 16 (u32_of_u16 (firstClusterHigh e)) OR
                                       u32_of_u16 (firstClusterLow e),
                   de_file_size := fileSize e, de_attributes := de_attr e\<rparr>) current_dir))
          }
      | _ \<Rightarrow> Some (FAT32_ERROR_BAD_PARAMETER, current_dir))"

text \<open>The result is the code and the 12 bytes stored at \<^verbatim>\<open>label_out\<close>, if any.\<close>

definition fat32_readlabel :: "fat32_fs_t \<Rightarrow> (int \<times> u8 list option) option" where
  "fat32_readlabel fs = do {
     r \<leftarrow> scan_clusters (\<lambda>e. de_attr e AND FAT32_ATTR_VOLLABEL \<noteq> 0) FAT32_ERROR_NO_LABEL FAT32_ERROR_NO_LABEL
            fs (root_cluster fs);
     (case r of
        Inl code \<Rightarrow> Some (code, None)
      | Inr e \<Rightarrow> Some (FAT32_SUCCESS, Some (memcpy (de_filename e) 11 @ [0])))
   }"

section \<open>Opening a file\<close>

text \<open>The loop over the directories of the path: \<open>Inl\<close> is the early return.\<close>

fun open_walk :: "fat32_fs_t \<Rightarrow> u8 list list \<Rightarrow> fat32_dir_entry_t \<Rightarrow> u32 \<Rightarrow>
    (int + (fat32_dir_entry_t \<times> u32)) option" where
  "open_walk fs [] dir parent = Some (Inr (dir, parent))"
| "open_walk fs (c # cs) dir parent =
     do { (r, dir') \<leftarrow> read_dir_entry (Some fs) (Some dir) (Some c);
          if r \<noteq> 0 then Some (Inl FAT32_ERROR_NO_PATH)
          else open_walk fs cs (the dir') (de_start_cluster (the dir')) }"

text \<open>
  The rest of \<^verbatim>\<open>fat32_open\<close> once the path is parsed: the walk through the directories, the lookup of
  the last component and the fields of the opened file.
\<close>

definition open_from :: "fat32_fs_t \<Rightarrow> u8 list list \<Rightarrow> u8 list \<Rightarrow> fat32_dir_entry_t \<Rightarrow> u32 \<Rightarrow> fat32_file_t \<Rightarrow>
    (int \<times> fat32_file_t option) option" where
  "open_from fs dirs target_name dir parent file = do {
     w \<leftarrow> open_walk fs dirs dir parent;
     (case w of
        Inl code \<Rightarrow> Some (code, Some file)
      | Inr (d0, parent_cluster) \<Rightarrow> do {
          (r, dirp) \<leftarrow> read_dir_entry (Some fs) (Some d0) (Some target_name);
          let d = the dirp in
          if r \<noteq> 0 then Some (FAT32_ERROR_NO_FILE, Some file)
          else if de_attributes d AND FAT32_ATTR_DIRECTORY = FAT32_ATTR_DIRECTORY
          then Some (FAT32_ERROR_IS_DIR, Some file)
          else Some (FAT32_SUCCESS, Some (file\<lparr>file_fs := fs, start_cluster := de_start_cluster d,
                 current_cluster := de_start_cluster d, file_size := de_file_size d,
                 parent_dir_cluster := parent_cluster, file_offset := 0,
                 formatted_name := format_name_to_fat32 target_name\<rparr>)) }) }"

text \<open>
  \<open>None\<close> also stands for a path without components: the bound \<^verbatim>\<open>num_components - 1\<close> of the loop then
  wraps to \<open>2\<^sup>3\<^sup>2 - 1\<close> and the code reads components that were never written. \<open>junk\<close> and \<open>junk_path\<close>
  are what the uninitialised locals \<^verbatim>\<open>current_dir\<close> and \<^verbatim>\<open>path_struct\<close> hold.
\<close>

definition fat32_open :: "fat32_dir_entry_t \<Rightarrow> fat32_path_t \<Rightarrow> fat32_fs_t option \<Rightarrow> u8 list option \<Rightarrow>
    fat32_file_t option \<Rightarrow> (int \<times> fat32_file_t option) option" where
  "fat32_open junk junk_path fsp pathp filep =
     (case (fsp, pathp, filep) of
        (Some fs, Some path, Some file) \<Rightarrow>
          if \<not> fat32_is_initialized fsp then Some (FAT32_ERROR_BAD_PARAMETER, filep)
          else
            let path_struct = parse_fat32_path path (fat32_path_init junk_path);
                n = num_components path_struct
            in if n = 0 then None
               else open_from fs (take (n - 1) (components path_struct)) (components path_struct ! (n - 1))
                      (junk\<lparr>de_is_initialized := False\<rparr>) (root_cluster fs) file
      | _ \<Rightarrow> Some (FAT32_ERROR_BAD_PARAMETER, filep))"

section \<open>Names and paths: reference definitions\<close>

definition pad :: "nat \<Rightarrow> u8 list \<Rightarrow> u8 list" where
  "pad n xs = take n (map toupper xs @ replicate n 32)"

definition name_part :: "u8 list \<Rightarrow> u8 list" where
  "name_part s = takeWhile (\<lambda>c. c \<noteq> 46) s"

definition ext_part :: "u8 list \<Rightarrow> u8 list" where
  "ext_part s = drop 1 (dropWhile (\<lambda>c. c \<noteq> 46) s)"

lemma strlen_eq_length: "0 \<notin> set s \<Longrightarrow> strlen s = length s"
  by (induction s) auto

lemma strchr_from_eq:
  assumes "0 \<notin> set s" "ch \<noteq> 0"
  shows "strchr_from s ch k = (if ch \<in> set s then Some (k + length (takeWhile (\<lambda>c. c \<noteq> ch) s)) else None)"
  using assms by (induction s arbitrary: k) auto

lemma strncpy_eq_take:
  assumes "0 \<notin> set s" "n \<le> length s"
  shows "strncpy s n = take n s"
  using assms by (induction s n rule: strncpy.induct) auto

lemma strncpy_slice:
  assumes "0 \<notin> set s" "start \<le> k" "k \<le> length s"
  shows "strncpy (drop start s) (k - start) = take (k - start) (drop start s)"
  using assms by (intro strncpy_eq_take) (auto dest: in_set_dropD)

lemma map_pad:
  "map (\<lambda>i. if i < length xs then toupper (xs ! i) else 32) [0..<n] = pad n xs"
  by (rule nth_equalityI) (auto simp: pad_def nth_append)

lemma length_pad [simp]: "length (pad n xs) = n"
  by (simp add: pad_def)

lemma split_at_first:
  "ch \<in> set s \<Longrightarrow> s = takeWhile (\<lambda>c. c \<noteq> ch) s @ ch # drop 1 (dropWhile (\<lambda>c. c \<noteq> ch) s)"
  by (induction s) auto

lemma format_name_eq:
  assumes "0 \<notin> set s"
  shows "format_name_to_fat32 s = pad 8 (name_part s) @ pad 3 (ext_part s)"
proof (cases "46 \<in> set s")
  case False
  then have n: "name_part s = s" and "dropWhile (\<lambda>c. c \<noteq> 46) s = []"
    by (auto simp: name_part_def takeWhile_eq_all_conv dropWhile_eq_Nil_conv)
  then have e: "ext_part s = []" by (simp only: ext_part_def drop_Nil)
  have "(if i < length s then toupper (char_at s i) else 32) = (if i < length s then toupper (s ! i) else 32)" for i
    by (simp add: char_at_def)
  then show ?thesis
    using assms False map_pad[of s 8] map_pad[of "[]" 3]
    by (simp add: format_name_to_fat32_def strchr_def strchr_from_eq strlen_eq_length n e)
next
  case True
  let ?n = "name_part s" and ?e = "ext_part s"
  have split: "s = ?n @ 46 # ?e" using split_at_first[OF True] by (simp add: name_part_def ext_part_def)
  have pos: "strchr s 46 = Some (length ?n)"
    using assms True by (simp add: strchr_def strchr_from_eq name_part_def)
  have e: "drop (length ?n + 1) s = ?e" "0 \<notin> set ?e"
    using arg_cong[OF split, of "drop (length ?n + 1)"] assms by (simp_all, metis split in_set_conv_decomp set_ConsD UnI2 set_append list.set_intros(2))
  have c: "i < length ?n \<Longrightarrow> char_at s i = ?n ! i" "i < length ?e \<Longrightarrow> char_at s (length ?n + 1 + i) = ?e ! i" for i
    by (subst split, simp add: char_at_def nth_append)+
  show ?thesis
    using map_pad[of ?n 8] map_pad[of ?e 3]
    by (simp add: format_name_to_fat32_def pos e(1)[simplified] strlen_eq_length[OF e(2)] c[simplified] cong: map_cong if_cong)
qed

fun split_path :: "u8 list \<Rightarrow> u8 list list" where
  "split_path [] = [[]]"
| "split_path (c # s) = (if c = 47 then [] # split_path s
     else (case split_path s of [] \<Rightarrow> [[c]] | x # xs \<Rightarrow> (c # x) # xs))"

definition usable :: "u8 list \<Rightarrow> bool" where
  "usable c \<longleftrightarrow> c \<noteq> [] \<and> length c < FAT32_MAX_COMPONENT_LENGTH"

definition path_components :: "u8 list \<Rightarrow> u8 list list" where
  "path_components s = take FAT32_MAX_COMPONENTS (filter usable
     (split_path (if s \<noteq> [] \<and> hd s = 46 then tl s else s)))"

lemma split_path_not_Nil [simp]: "split_path s \<noteq> []"
  by (induction s) (auto split: list.splits)

lemma parse_path_fold:
  assumes "0 \<notin> set s" "start \<le> k" "k \<le> length s"
  shows "snd (foldl (parse_path_step s) (start, comps) [k..<length s + 1]) =
    (if length comps < FAT32_MAX_COMPONENTS then
     take FAT32_MAX_COMPONENTS (comps @ filter usable
       ((take (k - start) (drop start s) @ hd (split_path (drop k s))) # tl (split_path (drop k s))))
    else comps)"
  using assms(2,3)
proof (induction "length s - k" arbitrary: start k comps)
  case 0
  then have k: "k = length s" by simp
  show ?case
    using 0(2) strncpy_slice[OF assms(1), of start "length s"]
    by (auto simp: k parse_path_step_def char_at_def usable_def Let_def)
next
  case (Suc d)
  then have k: "k < length s" by simp
  have c0: "s ! k \<noteq> 0" using assms(1) k by (metis nth_mem)
  have d: "drop k s = s ! k # drop (Suc k) s" using k by (simp add: Cons_nth_drop_Suc)
  have u: "[k..<length s + 1] = k # [Suc k..<length s + 1]" using k by (simp add: upt_conv_Cons)
  show ?case
  proof (cases "s ! k = 47")
    case True
    define piece where "piece = take (k - start) (drop start s)"
    define comps' where "comps' = (if usable piece \<and> length comps < FAT32_MAX_COMPONENTS then comps @ [piece] else comps)"
    have "parse_path_step s (start, comps) k = (Suc k, comps')"
      using Suc.prems True k strncpy_slice[OF assms(1), of start k]
      by (auto simp: parse_path_step_def char_at_def usable_def Let_def piece_def comps'_def)
    moreover have "snd (foldl (parse_path_step s) (Suc k, comps') [Suc k..<length s + 1]) =
      (if length comps' < FAT32_MAX_COMPONENTS then take FAT32_MAX_COMPONENTS
         (comps' @ filter usable (split_path (drop (Suc k) s))) else comps')"
      using Suc.hyps(1)[of "Suc k" "Suc k" comps'] Suc.hyps(2) k by simp
    ultimately show ?thesis
      unfolding u d piece_def[symmetric] by (auto simp: True comps'_def take_Cons' not_less)
  next
    case False
    have "take (Suc k - start) (drop start s) = take (k - start) (drop start s) @ [s ! k]"
      using Suc.prems k by (simp add: Suc_diff_le take_Suc_conv_app_nth)
    moreover have "parse_path_step s (start, comps) k = (start, comps)"
      using False c0 k by (simp add: parse_path_step_def char_at_def)
    moreover obtain x xs where "split_path (drop (Suc k) s) = x # xs" by (cases "split_path (drop (Suc k) s)") auto
    ultimately show ?thesis
      using Suc.hyps(1)[of "Suc k" start comps] Suc.hyps(2) Suc.prems k False
      unfolding u d by simp
  qed
qed

lemma parse_path_eq:
  assumes "0 \<notin> set s"
  shows "parse_fat32_path s parser =
    parser\<lparr>components := path_components s @ drop (length (path_components s)) (components parser),
           num_components := length (path_components s)\<rparr>"
proof -
  have f: "snd (foldl (parse_path_step t) (0, []) [0..<length t + 1]) =
      take FAT32_MAX_COMPONENTS (filter usable (split_path t))" if "0 \<notin> set t" for t
    using parse_path_fold[OF that, of 0 0 "[]"] by (simp add: FAT32_MAX_COMPONENTS_def)
  show ?thesis
  proof (cases s)
    case (Cons c s')
    then show ?thesis
      using assms f[of s] f[of s'] by (auto simp: parse_fat32_path_def path_components_def char_at_def strlen_eq_length Let_def)
  qed (use f[of "[]"] in \<open>simp add: parse_fat32_path_def path_components_def char_at_def Let_def\<close>)
qed

fun join_path :: "u8 list list \<Rightarrow> u8 list" where
  "join_path [] = []"
| "join_path (c # cs) = 47 # c @ join_path cs"

lemma split_join: "47 \<notin> set c \<Longrightarrow> split_path (c @ 47 # s) = c # split_path s"
  by (induction c) auto

lemma split_plain: "47 \<notin> set c \<Longrightarrow> split_path c = [c]"
  by (induction c) auto

lemma split_join_path:
  "\<forall>c \<in> set cs. 47 \<notin> set c \<Longrightarrow> 47 \<notin> set b \<Longrightarrow> split_path (b @ join_path cs) = b # cs"
proof (induction cs arbitrary: b)
  case Nil then show ?case by (simp add: split_plain)
next
  case (Cons c cs) then show ?case by (simp add: split_join)
qed

section \<open>Searching a directory\<close>

definition dir_entries :: "fat32_fs_t \<Rightarrow> u32 \<Rightarrow> Fat32DirectoryEntry list" where
  "dir_entries fs c = concat (map (\<lambda>s. sector_entries (the (read_sector (disk fs) (dir_sector fs c + word_of_nat s))))
     [0..<unat (sectors_per_cluster fs)])"

definition live_entries :: "Fat32DirectoryEntry list \<Rightarrow> Fat32DirectoryEntry list" where
  "live_entries es = filter (\<lambda>e. de_filename e ! 0 \<noteq> FAT32_ENTRY_DELETED)
     (takeWhile (\<lambda>e. de_filename e ! 0 \<noteq> FAT32_ENTRY_EMPTY) es)"

definition ends_with_marker :: "Fat32DirectoryEntry list \<Rightarrow> bool" where
  "ends_with_marker es \<longleftrightarrow> (\<exists>e \<in> set es. de_filename e ! 0 = FAT32_ENTRY_EMPTY)"

definition dir_lookup :: "fat32_fs_t \<Rightarrow> u32 \<Rightarrow> u8 list \<Rightarrow> Fat32DirectoryEntry option" where
  "dir_lookup fs c name =
     find (\<lambda>e. de_filename e = format_name_to_fat32 name) (live_entries (dir_entries fs c))"

text \<open>A directory cluster that can be read and holds the end-of-directory marker.\<close>

definition dir_closed :: "fat32_fs_t \<Rightarrow> u32 \<Rightarrow> bool" where
  "dir_closed fs c \<longleftrightarrow> c \<noteq> FAT32_EOC_MARKER \<and>
     (\<forall>s < unat (sectors_per_cluster fs). read_sector (disk fs) (dir_sector fs c + word_of_nat s) \<noteq> None) \<and>
     ends_with_marker (dir_entries fs c)"

definition entry_cluster :: "Fat32DirectoryEntry \<Rightarrow> u32" where
  "entry_cluster e = push_bit 16 (u32_of_u16 (firstClusterHigh e)) OR u32_of_u16 (firstClusterLow e)"

lemma scan_entries_eq:
  "scan_entries hit eod es =
     (case find hit (live_entries es) of
        Some e \<Rightarrow> Some (Inr e)
      | None \<Rightarrow> if ends_with_marker es then Some (Inl eod) else None)"
  by (induction es) (auto simp: live_entries_def ends_with_marker_def FAT32_ENTRY_EMPTY_def
      FAT32_ENTRY_DELETED_def split: option.splits)

lemma scan_entries_append:
  "scan_entries hit eod (a @ b) =
     (case scan_entries hit eod a of Some r \<Rightarrow> Some r | None \<Rightarrow> scan_entries hit eod b)"
  by (induction a) auto

lemma scan_sectors_eq:
  assumes "\<forall>s \<in> set ss. read_sector (disk fs) (t + word_of_nat s) \<noteq> None"
  shows "scan_sectors hit eod fs t ss =
    scan_entries hit eod (concat (map (\<lambda>s. sector_entries (the (read_sector (disk fs) (t + word_of_nat s)))) ss))"
  using assms by (induction ss) (auto simp: scan_entries_append split: option.splits)

lemma scan_clusters_closed:
  assumes "dir_closed fs c"
  shows "scan_clusters hit eod eoc fs c =
    Some (case find hit (live_entries (dir_entries fs c)) of Some e \<Rightarrow> Inr e | None \<Rightarrow> Inl eod)"
  using assms
  by (subst scan_clusters.simps)
    (auto simp: dir_closed_def scan_sectors_eq scan_entries_eq simp flip: dir_entries_def split: option.splits)

lemma memcmp_loop_0: "memcmp_loop p q n is = 0 \<longleftrightarrow> (\<forall>i \<in> set is. p ! i = q ! i)"
  by (induction "is") (auto simp: word_uint_eq_iff)

lemma memcmp_eq_0:
  "length p = n \<Longrightarrow> length q = n \<Longrightarrow> memcmp p q n = 0 \<longleftrightarrow> q = p"
  by (auto simp: memcmp_def memcmp_loop_0 intro: nth_equalityI)

lemma length_format_name [simp]: "length (format_name_to_fat32 s) = 11"
  by (simp add: format_name_to_fat32_def Let_def)

lemma dir_entries_name_length: "e \<in> set (dir_entries fs c) \<Longrightarrow> length (de_filename e) = 11"
  by (auto simp: dir_entries_def sector_entries_def dir_entry_at_def)

definition dir_start :: "fat32_fs_t \<Rightarrow> fat32_dir_entry_t \<Rightarrow> u32" where
  "dir_start fs d = (if de_is_initialized d then de_start_cluster d else root_cluster fs)"

definition found_dir :: "Fat32DirectoryEntry \<Rightarrow> fat32_dir_entry_t \<Rightarrow> fat32_dir_entry_t" where
  "found_dir e d = d\<lparr>de_is_initialized := True, de_start_cluster := entry_cluster e,
     de_file_size := fileSize e, de_attributes := de_attr e\<rparr>"

lemma read_dir_entry_closed:
  assumes "dir_closed fs (dir_start fs d)"
  shows "read_dir_entry (Some fs) (Some d) (Some name) =
    Some (case dir_lookup fs (dir_start fs d) name of
            None \<Rightarrow> (-1, Some d) | Some e \<Rightarrow> (0, Some (found_dir e d)))"
proof -
  have "find (\<lambda>e. memcmp (format_name_to_fat32 name) (de_filename e) 11 = 0) (live_entries (dir_entries fs c)) =
      dir_lookup fs c name" for c
    unfolding dir_lookup_def
    by (intro find_cong_set memcmp_eq_0)
      (auto simp: live_entries_def dest!: set_takeWhileD dir_entries_name_length)
  then show ?thesis
    using scan_clusters_closed[OF assms]
    by (auto simp: read_dir_entry_def Let_def found_dir_def entry_cluster_def
        simp flip: dir_start_def split: option.splits)
qed

section \<open>Resolving a path\<close>

fun resolve :: "fat32_fs_t \<Rightarrow> u32 \<Rightarrow> u8 list list \<Rightarrow> int + (u32 \<times> Fat32DirectoryEntry)" where
  "resolve fs c [] = Inl FAT32_ERROR_NO_FILE"
| "resolve fs c (n # ns) =
     (case dir_lookup fs c n of
        None \<Rightarrow> Inl (if ns = [] then FAT32_ERROR_NO_FILE else FAT32_ERROR_NO_PATH)
      | Some e \<Rightarrow>
          if ns \<noteq> [] then resolve fs (entry_cluster e) ns
          else if de_attr e AND FAT32_ATTR_DIRECTORY \<noteq> 0 then Inl FAT32_ERROR_IS_DIR
          else Inr (c, e))"

fun path_closed :: "fat32_fs_t \<Rightarrow> u32 \<Rightarrow> u8 list list \<Rightarrow> bool" where
  "path_closed fs c [] = True"
| "path_closed fs c (n # ns) =
     (dir_closed fs c \<and>
      (case dir_lookup fs c n of None \<Rightarrow> True | Some e \<Rightarrow> ns = [] \<or> path_closed fs (entry_cluster e) ns))"

definition opened_file :: "fat32_fs_t \<Rightarrow> fat32_file_t \<Rightarrow> u8 list \<Rightarrow> u32 \<times> Fat32DirectoryEntry \<Rightarrow> fat32_file_t" where
  "opened_file fs file name pe = (case pe of (parent, e) \<Rightarrow>
     file\<lparr>file_fs := fs, start_cluster := entry_cluster e, current_cluster := entry_cluster e,
       file_size := fileSize e, parent_dir_cluster := parent, file_offset := 0,
       formatted_name := format_name_to_fat32 name\<rparr>)"

lemma dir_start_found [simp]: "dir_start fs (found_dir e d) = entry_cluster e"
  by (simp add: dir_start_def found_dir_def)

lemma attr_directory_iff:
  "(a AND FAT32_ATTR_DIRECTORY = FAT32_ATTR_DIRECTORY) \<longleftrightarrow> (a AND FAT32_ATTR_DIRECTORY \<noteq> (0::u8))"
  using and_exp_word[of a 4] by (simp add: c_consts)

lemma open_from_eq:
  assumes "path_closed fs (dir_start fs d) (dirs @ [name])" "parent = dir_start fs d"
  shows "open_from fs dirs name d parent file =
    Some (case resolve fs (dir_start fs d) (dirs @ [name]) of
            Inl code \<Rightarrow> (code, Some file)
          | Inr pe \<Rightarrow> (FAT32_SUCCESS, Some (opened_file fs file name pe)))"
  using assms
proof (induction dirs arbitrary: d parent)
  case Nil
  then show ?case
    by (auto simp: open_from_def read_dir_entry_closed opened_file_def found_dir_def attr_directory_iff
        split: option.splits)
next
  case (Cons n ns)
  have "open_from fs (n # ns) name d parent file = (case dir_lookup fs (dir_start fs d) n of
      None \<Rightarrow> Some (FAT32_ERROR_NO_PATH, Some file)
    | Some e \<Rightarrow> open_from fs ns name (found_dir e d) (entry_cluster e) file)"
    using Cons.prems by (auto simp: open_from_def read_dir_entry_closed found_dir_def split: option.splits)
  moreover have "open_from fs ns name (found_dir e d) (entry_cluster e) file =
      Some (case resolve fs (entry_cluster e) (ns @ [name]) of
            Inl code \<Rightarrow> (code, Some file)
          | Inr pe \<Rightarrow> (FAT32_SUCCESS, Some (opened_file fs file name pe)))"
    if "dir_lookup fs (dir_start fs d) n = Some e" for e
  proof -
    have "path_closed fs (dir_start fs (found_dir e d)) (ns @ [name])"
      using Cons.prems(1) that by simp
    from Cons.IH[OF this refl] show ?thesis by (simp only: dir_start_found)
  qed
  ultimately show ?case by (cases "dir_lookup fs (dir_start fs d) n") simp_all
qed

section \<open>The example volume\<close>

definition ex_blank_file :: fat32_file_t where
  "ex_blank_file =
     \<lparr>file_fs = ex_blank_fs, formatted_name = [], start_cluster = 0, current_cluster = 0,
      current_cluster_index = 0, file_size = 0, file_offset = 0, parent_dir_cluster = 0\<rparr>"

definition ex_junk_dir :: fat32_dir_entry_t where
  "ex_junk_dir = \<lparr>de_attributes = 0, de_file_size = 0, de_start_cluster = 0, de_is_initialized = True\<rparr>"

definition ex_junk_path :: fat32_path_t where
  "ex_junk_path = \<lparr>components = [], num_components = 0\<rparr>"

lemmas ex_dir_simps = dir_entry_at_def place_def upt_rec read_unaligned_uint16_def read_unaligned_uint32_def

lemma ex_root_entries:
  "dir_entry_at ex_root_dir 0 = \<lparr>de_filename = cstr ''TEAM ALPHA '', de_attr = 8,
     firstClusterHigh = 0, firstClusterLow = 0, fileSize = 0\<rparr>"
  "dir_entry_at ex_root_dir 1 = \<lparr>de_filename = cstr ''HELLO   TXT'', de_attr = 0x20,
     firstClusterHigh = 0, firstClusterLow = 3, fileSize = 600\<rparr>"
  "dir_entry_at ex_root_dir 2 = \<lparr>de_filename = cstr ''BOOT       '', de_attr = 0x10,
     firstClusterHigh = 0, firstClusterLow = 5, fileSize = 0\<rparr>"
  "de_filename (dir_entry_at ex_root_dir 3) ! 0 = 0"
  by (simp_all add: ex_root_dir_def ex_dir_simps)

lemmas ex_root_entries' = ex_root_entries ex_root_entries(2)[unfolded One_nat_def]

lemma ex_boot_entries:
  "dir_entry_at ex_boot_dir 0 = \<lparr>de_filename = cstr ''KERNEL  BIN'', de_attr = 0x20,
     firstClusterHigh = 0, firstClusterLow = 6, fileSize = 28\<rparr>"
  "de_filename (dir_entry_at ex_boot_dir 1) ! 0 = 0"
  by (simp_all add: ex_boot_dir_def ex_dir_simps)

lemma ex_dirs:
  "dir_entries ex_fs 2 = map (dir_entry_at ex_root_dir) [0,1,2,3] @ map (dir_entry_at ex_root_dir) [4..<16]"
  "dir_entries ex_fs 5 = map (dir_entry_at ex_boot_dir) [0,1,2,3] @ map (dir_entry_at ex_boot_dir) [4..<16]"
proof -
  have "dir_entries ex_fs 2 = sector_entries ex_root_dir" "dir_entries ex_fs 5 = sector_entries ex_boot_dir"
    by (simp_all add: dir_entries_def dir_sector_def ex_fs_def ex_read_def)
  moreover have "[0..<FAT32_SECTOR_SIZE div 32] = [0,1,2,3] @ [4..<16]"
    by (simp add: c_consts upt_rec)
  ultimately show "dir_entries ex_fs 2 = map (dir_entry_at ex_root_dir) [0,1,2,3] @ map (dir_entry_at ex_root_dir) [4..<16]"
    and "dir_entries ex_fs 5 = map (dir_entry_at ex_boot_dir) [0,1,2,3] @ map (dir_entry_at ex_boot_dir) [4..<16]"
    unfolding sector_entries_def by (simp_all only: map_append)
qed

lemma live_entries_simps:
  "live_entries (e # es) = (if de_filename e ! 0 = FAT32_ENTRY_EMPTY then []
     else if de_filename e ! 0 = FAT32_ENTRY_DELETED then live_entries es else e # live_entries es)"
  by (simp add: live_entries_def)

lemma ex_live:
  "live_entries (dir_entries ex_fs 2) = map (dir_entry_at ex_root_dir) [0,1,2]"
  "live_entries (dir_entries ex_fs 5) = [dir_entry_at ex_boot_dir 0]"
  using ex_root_entries ex_boot_entries by (simp_all add: ex_dirs live_entries_simps c_consts)

lemma ex_dirs_closed: "dir_closed ex_fs 2" "dir_closed ex_fs 5"
  using ex_root_entries(4) ex_boot_entries(2)
  by (simp_all add: dir_closed_def ends_with_marker_def ex_dirs c_consts dir_sector_def)
    (simp_all add: ex_fs_def ex_read_def)

lemma ex_root_cluster: "root_cluster ex_fs = 2" "fs_magic ex_fs = FAT32_MAGIC"
  by (simp_all add: ex_fs_def c_consts)

lemma ex_names:
  "format_name_to_fat32 (cstr ''boot'') = cstr ''BOOT       ''"
  "format_name_to_fat32 (cstr ''kernel.bin'') = cstr ''KERNEL  BIN''"
  "format_name_to_fat32 (cstr ''hello.txt'') = cstr ''HELLO   TXT''"
  by code_simp+

lemma ex_lookup:
  "dir_lookup ex_fs 2 (cstr ''boot'') = Some (dir_entry_at ex_root_dir 2)"
  "dir_lookup ex_fs 2 (cstr ''hello.txt'') = Some (dir_entry_at ex_root_dir 1)"
  "dir_lookup ex_fs 5 (cstr ''kernel.bin'') = Some (dir_entry_at ex_boot_dir 0)"
  "dir_lookup ex_fs 2 (cstr ''kernel.bin'') = None"
  unfolding dir_lookup_def ex_live ex_names by (simp_all add: ex_root_entries' ex_boot_entries)

lemma ex_path_components:
  "path_components (cstr ''/boot/kernel.bin'') = [cstr ''boot'', cstr ''kernel.bin'']"
  "path_components (cstr ''/hello.txt'') = [cstr ''hello.txt'']"
  by code_simp+

section \<open>Properties of names, paths and opening\<close>

text \<open>
  C33. The 8.3 conversion on every C string: the part before the first dot, in upper case, cut or
  padded with spaces to eight bytes, then the part after it cut or padded to three.
\<close>

theorem format_name_is_8_3:
  assumes "0 \<notin> set s"
  shows "format_name_to_fat32 s = pad 8 (name_part s) @ pad 3 (ext_part s)"
  using assms by (rule format_name_eq)

theorem format_name_is_8_3_witness:
  "format_name_to_fat32 (cstr ''kernel.bin'') = cstr ''KERNEL  BIN''"
  using format_name_is_8_3[of "cstr ''kernel.bin''"] by code_simp

text \<open>
  C27. The path parser, an index loop over the string, computes the reference splitting: the pieces
  between slashes (after one leading dot), without the empty ones and those of 64 bytes or more,
  cut to the first 16.
\<close>

theorem parse_path_is_split:
  assumes "0 \<notin> set s"
  shows "num_components (parse_fat32_path s p) = length (path_components s) \<and>
         take (num_components (parse_fat32_path s p)) (components (parse_fat32_path s p)) = path_components s"
  using parse_path_eq[OF assms] by simp

theorem parse_path_is_split_witness:
  "num_components (parse_fat32_path (cstr ''./boot//kernel.bin'') \<lparr>components = [], num_components = 0\<rparr>) = 2"
  using parse_path_is_split[of "cstr ''./boot//kernel.bin''" "\<lparr>components = [], num_components = 0\<rparr>"]
  by code_simp

text \<open>
  Round trip: at most 16 usable components, written with a slash before each, are parsed back
  into the same components.
\<close>

theorem parse_join_roundtrip:
  assumes "\<forall>c \<in> set cs. usable c \<and> 47 \<notin> set c \<and> 0 \<notin> set c" "length cs \<le> FAT32_MAX_COMPONENTS"
  shows "num_components (parse_fat32_path (join_path cs) p) = length cs \<and>
         take (length cs) (components (parse_fat32_path (join_path cs) p)) = cs"
proof -
  have z: "0 \<notin> set (join_path cs)" using assms(1) by (induction cs) auto
  have "\<not> (join_path cs \<noteq> [] \<and> hd (join_path cs) = 46)" by (cases cs) auto
  moreover have "filter usable ([] # cs) = cs" using assms(1) by (simp add: filter_id_conv usable_def)
  ultimately have "path_components (join_path cs) = cs"
    using split_join_path[of cs "[]"] assms by (auto simp: path_components_def)
  then show ?thesis using parse_path_eq[OF z, of p] by simp
qed

theorem parse_join_roundtrip_witness:
  "num_components (parse_fat32_path (cstr ''/boot/kernel.bin'') \<lparr>components = [], num_components = 0\<rparr>) = 2"
  using parse_join_roundtrip[of "[cstr ''boot'', cstr ''kernel.bin'']" "\<lparr>components = [], num_components = 0\<rparr>"]
  by (simp add: usable_def c_consts)

lemma open_path_eq:
  assumes "fs_magic fs = FAT32_MAGIC" "0 \<notin> set path" "path_components path \<noteq> []"
    and "path_closed fs (root_cluster fs) (path_components path)"
  shows "fat32_open junk junk_path (Some fs) (Some path) (Some file) =
     Some (case resolve fs (root_cluster fs) (path_components path) of
             Inl code \<Rightarrow> (code, Some file)
           | Inr pe \<Rightarrow> (FAT32_SUCCESS, Some (opened_file fs file (last (path_components path)) pe)))"
proof -
  let ?cs = "path_components path" and ?d = "junk\<lparr>de_is_initialized := False\<rparr>"
  have cs: "?cs = butlast ?cs @ [last ?cs]" using assms(3) by simp
  have start: "dir_start fs ?d = root_cluster fs" by (simp add: dir_start_def)
  have "fat32_open junk junk_path (Some fs) (Some path) (Some file) =
      open_from fs (butlast ?cs) (last ?cs) ?d (root_cluster fs) file"
    using assms(1,3) parse_path_eq[OF assms(2), of "fat32_path_init junk_path"]
    by (simp add: fat32_open_def fat32_is_initialized_def fat32_path_init_def Let_def
        butlast_conv_take last_conv_nth nth_append)
  also have "\<dots> = Some (case resolve fs (dir_start fs ?d) (butlast ?cs @ [last ?cs]) of
            Inl code \<Rightarrow> (code, Some file)
          | Inr pe \<Rightarrow> (FAT32_SUCCESS, Some (opened_file fs file (last ?cs) pe)))"
    using assms(4) by (intro open_from_eq) (simp_all add: start flip: cs)
  finally show ?thesis by (simp only: start flip: cs)
qed

text \<open>
  C11. Opening a file by its path: on a mounted file system whose directories along the path can be
  read and end within their first cluster, \<^verbatim>\<open>fat32_open\<close> returns, and its answer is the reference
  resolution of the path: the entry found component by component gives the start cluster, the size
  and the parent directory of the opened file; a missing directory, a missing file and a directory
  in the last place give their three error codes and leave the caller's structure alone.
\<close>

theorem open_resolves_path:
  assumes "fs_magic fs = FAT32_MAGIC" "0 \<notin> set path" "path_components path \<noteq> []"
    and "path_closed fs (root_cluster fs) (path_components path)"
  shows "fat32_open junk junk_path (Some fs) (Some path) (Some file) =
     Some (case resolve fs (root_cluster fs) (path_components path) of
             Inl code \<Rightarrow> (code, Some file)
           | Inr pe \<Rightarrow> (FAT32_SUCCESS, Some (opened_file fs file (last (path_components path)) pe)))"
  using assms by (rule open_path_eq)

theorem open_resolves_path_witness:
  "\<exists>f. fat32_open ex_junk_dir ex_junk_path (Some ex_fs) (Some (cstr ''/boot/kernel.bin'')) (Some ex_blank_file) =
     Some (FAT32_SUCCESS, Some f) \<and> start_cluster f = 6 \<and> file_size f = 28 \<and> parent_dir_cluster f = 5"
proof -
  have "entry_cluster (dir_entry_at ex_root_dir 2) = 5" "entry_cluster (dir_entry_at ex_boot_dir 0) = 6"
    by (simp_all add: entry_cluster_def ex_root_entries ex_boot_entries)
  then show ?thesis
    using open_resolves_path[of ex_fs "cstr ''/boot/kernel.bin''" ex_junk_dir ex_junk_path ex_blank_file]
      ex_lookup ex_dirs_closed
    by (simp add: ex_path_components ex_root_cluster ex_boot_entries opened_file_def c_consts del: list.map(2))
qed

text \<open>
  The volume label: on a root directory that can be read and ends within its first cluster,
  \<^verbatim>\<open>fat32_readlabel\<close> returns the eleven name bytes and a NUL of the first live entry whose attributes
  contain the label bit, or the no-label code and nothing.
\<close>

theorem readlabel_finds_label:
  assumes "dir_closed fs (root_cluster fs)"
  shows "fat32_readlabel fs =
     Some (case find (\<lambda>e. de_attr e AND FAT32_ATTR_VOLLABEL \<noteq> 0) (live_entries (dir_entries fs (root_cluster fs))) of
             Some e \<Rightarrow> (FAT32_SUCCESS, Some (de_filename e @ [0]))
           | None \<Rightarrow> (FAT32_ERROR_NO_LABEL, None))"
proof -
  have "memcpy (de_filename e) 11 = de_filename e" if "e \<in> set (dir_entries fs (root_cluster fs))" for e
    using dir_entries_name_length[OF that] by (metis memcpy_def map_nth)
  moreover have "e \<in> set (dir_entries fs (root_cluster fs))"
    if "find P (live_entries (dir_entries fs (root_cluster fs))) = Some e" for P e
    using that by (auto simp: find_Some_iff live_entries_def dest!: nth_mem set_takeWhileD)
  ultimately show ?thesis
    using scan_clusters_closed[OF assms] by (auto simp: fat32_readlabel_def split: option.splits)
qed

theorem readlabel_finds_label_witness:
  "fat32_readlabel ex_fs = Some (FAT32_SUCCESS, Some (cstr ''TEAM ALPHA '' @ [0]))"
  using readlabel_finds_label[of ex_fs] ex_dirs_closed
  by (simp add: ex_live ex_root_entries ex_root_cluster c_consts)

text \<open>
  The entry \<^verbatim>\<open>read_dir_entry\<close> follows from one directory cluster to the next is only the low byte
  of the 32-bit FAT entry: it lies below 256 or is an error code, and never is the end-of-chain
  marker; on the same entry \<^verbatim>\<open>fat32_get_next_cluster\<close> reads all four bytes.
\<close>

theorem dir_chain_uses_low_byte:
  "fat32_read_fat_entry (Some fs) c \<noteq> sint FAT32_EOC_MARKER \<and>
   fat32_read_fat_entry (Some fs) c =
     (case read_sector (disk fs) (c * 4 div 512 + fat_start_sector fs) of
        None \<Rightarrow> FAT32_ERROR_IO
      | Some buffer \<Rightarrow> uint (buffer ! unat (c * 4 mod 512)))"
proof -
  have mask: "(0x0FFFFFFF::u32) = mask 28" by (simp add: mask_eq_exp_minus_1)
  have low: "u32_of_u8 b AND 0x0FFFFFFF = u32_of_u8 b" for b
  proof -
    have "bit b n \<Longrightarrow> n < 28" for n using not_bit_u8[of n b] by linarith
    then show ?thesis unfolding mask by (auto intro!: bit_word_eqI simp: bit_simps)
  qed
  have b: "uint b < 256" for b :: u8 using uint_lt2p[of b] by simp
  have s: "sint (u32_of_u8 b) = uint b" for b
    using unat_u8_bound[of b] by (simp add: sint_u32_small)
  have "\<not> 0x0FFFFFF8 \<le> u32_of_u8 b" "u32_of_u8 b \<noteq> 0x0FFFFFF7" for b
    using unat_u8_bound[of b] by (auto simp: word_le_nat_alt word_unat_eq_iff)
  moreover have "uint b \<noteq> 0x0FFFFFFF" for b :: u8 using b[of b] by simp
  ultimately show ?thesis
    by (auto simp: fat32_read_fat_entry_def Let_def low s c_consts split: option.splits)
qed

end
