(* ===== verification/Frame_Allocator.thy ===== *)
theory Frame_Allocator
  imports Prelude
begin

text \<open>
  The allocator of 1 MB physical sections at the end of \<^verbatim>\<open>os/mmu/mmu.c\<close> (\<^verbatim>\<open>init_frame_allocator\<close>,
  \<^verbatim>\<open>alloc_frame\<close>, \<^verbatim>\<open>free_frame\<close>), with the memory map of \<^verbatim>\<open>common/mem.h\<close>.

  The free list is linked through the static array \<^verbatim>\<open>frames\<close>; a \<^verbatim>\<open>frame_t*\<close> is an index into that
  array, \<open>None\<close> is NULL. The invariant says that the pointers form a path without repetition whose
  nodes carry their own addresses. The contract of an allocator is the locale
  \<open>section_allocator\<close>; its client lemmas are about any sequence of requests, and the C functions
  are shown to be an instance.
\<close>

section \<open>Memory map\<close>

definition MEM_PHYS_BASE :: u32 where [c_consts]: "MEM_PHYS_BASE = 0x80000000"
definition MEM_PHYS_SIZE :: u32 where [c_consts]: "MEM_PHYS_SIZE = 0x20000000"
definition MEM_BOOT_PAGE_TABLE_BASE :: u32 where [c_consts]: "MEM_BOOT_PAGE_TABLE_BASE = 0x90000000"
definition MEM_SECTION_SIZE :: u32 where [c_consts]: "MEM_SECTION_SIZE = 0x100000"

record bootloader_header_t =
  bl_magic :: u32
  boot_table_entry_addr :: u32
  mapped_sections :: u32

section \<open>The allocator\<close>

record frame_t =
  frame_address :: u32
  next_frame :: "nat option"

record frame_allocator =
  frames :: "frame_t list"
  frame_list :: "nat option"

text \<open>The static variables before the first call: zeroed frames and an empty list.\<close>

definition frames_initial :: frame_allocator where
  "frames_initial = \<lparr>frames = replicate 512 \<lparr>frame_address = 0, next_frame = None\<rparr>, frame_list = None\<rparr>"

definition link_frame :: "nat \<Rightarrow> u32 \<Rightarrow> frame_allocator \<Rightarrow> frame_allocator" where
  "link_frame i paddr st =
     st\<lparr>frames := (frames st)[i := \<lparr>frame_address = paddr, next_frame = frame_list st\<rparr>], frame_list := Some i\<rparr>"

definition init_frame_step :: "frame_allocator \<Rightarrow> nat \<Rightarrow> frame_allocator" where
  "init_frame_step st i =
     (let paddr = MEM_PHYS_BASE + word_of_nat i * MEM_SECTION_SIZE in
      if paddr = MEM_BOOT_PAGE_TABLE_BASE then st else link_frame i paddr st)"

definition init_frame_allocator :: "bootloader_header_t \<Rightarrow> frame_allocator \<Rightarrow> frame_allocator" where
  "init_frame_allocator header st =
     foldl init_frame_step st [unat (mapped_sections header)..<unat (MEM_PHYS_SIZE div MEM_SECTION_SIZE)]"

definition alloc_frame :: "frame_allocator \<Rightarrow> u32 \<times> frame_allocator" where
  "alloc_frame st =
     (case frame_list st of
        Some i \<Rightarrow> (frame_address (frames st ! i), st\<lparr>frame_list := next_frame (frames st ! i)\<rparr>)
      | None \<Rightarrow> (0, st))"

text \<open>The walk that looks for a double free; \<open>None\<close> would be a walk that never ends.\<close>

partial_function (option) already_free :: "frame_t list \<Rightarrow> nat option \<Rightarrow> u32 \<Rightarrow> bool option" where
  "already_free fr current a =
     (case current of
        None \<Rightarrow> Some False
      | Some i \<Rightarrow> if frame_address (fr ! i) = a then Some True else already_free fr (next_frame (fr ! i)) a)"

text \<open>The four messages \<^verbatim>\<open>free_frame\<close> ends with.\<close>

datatype free_report = Free_unaligned | Free_outside | Free_twice | Free_done

definition free_frame :: "u32 \<Rightarrow> frame_allocator \<Rightarrow> (free_report \<times> frame_allocator) option" where
  "free_frame a st =
     (if a mod MEM_SECTION_SIZE \<noteq> 0 then Some (Free_unaligned, st)
      else if a < MEM_PHYS_BASE \<or> a \<ge> MEM_PHYS_BASE + MEM_PHYS_SIZE then Some (Free_outside, st)
      else do {
        twice \<leftarrow> already_free (frames st) (frame_list st) a;
        if twice then Some (Free_twice, st)
        else Some (Free_done, link_frame (unat ((a - MEM_PHYS_BASE) div MEM_SECTION_SIZE)) a st)
      })"

section \<open>The invariant\<close>

fun linked :: "frame_t list \<Rightarrow> nat option \<Rightarrow> nat list \<Rightarrow> bool" where
  "linked fr p [] \<longleftrightarrow> p = None"
| "linked fr p (i # is) \<longleftrightarrow> p = Some i \<and> linked fr (next_frame (fr ! i)) is"

definition frame_addr :: "nat \<Rightarrow> u32" where
  "frame_addr i = MEM_PHYS_BASE + word_of_nat i * MEM_SECTION_SIZE"

definition free_list :: "frame_allocator \<Rightarrow> nat list \<Rightarrow> bool" where
  "free_list st is \<longleftrightarrow> length (frames st) = 512 \<and> linked (frames st) (frame_list st) is \<and> distinct is \<and>
     (\<forall>i \<in> set is. i < 512 \<and> frame_address (frames st ! i) = frame_addr i)"

definition section_address :: "u32 \<Rightarrow> bool" where
  "section_address a \<longleftrightarrow> (\<exists>i < 512. a = frame_addr i)"

lemma linked_unique: "linked fr p xs \<Longrightarrow> linked fr p ys \<Longrightarrow> xs = ys"
proof (induction xs arbitrary: p ys)
  case Nil then show ?case by (cases ys) auto
next
  case (Cons x xs) then show ?case by (cases ys) auto
qed

lemma linked_update [simp]: "i \<notin> set xs \<Longrightarrow> linked (fr[i := f]) p xs = linked fr p xs"
  by (induction xs arbitrary: p) auto

lemma unat_frame_addr: "i < 512 \<Longrightarrow> unat (frame_addr i) = 0x80000000 + i * 0x100000"
  by (simp add: frame_addr_def c_consts unat_word_ariths unat_u32_of_nat)

lemma frame_addr_inj: "i < 512 \<Longrightarrow> j < 512 \<Longrightarrow> frame_addr i = frame_addr j \<longleftrightarrow> i = j"
  using unat_frame_addr[of i] unat_frame_addr[of j] by (auto simp: word_unat_eq_iff)

lemma frame_addr_facts:
  assumes "i < 512"
  shows "frame_addr i mod MEM_SECTION_SIZE = 0" "MEM_PHYS_BASE \<le> frame_addr i"
    "frame_addr i < MEM_PHYS_BASE + MEM_PHYS_SIZE" "frame_addr i \<noteq> 0"
    "unat ((frame_addr i - MEM_PHYS_BASE) div MEM_SECTION_SIZE) = i"
proof -
  note u = unat_frame_addr[OF assms]
  show "frame_addr i mod MEM_SECTION_SIZE = 0"
    by (simp add: word_unat_eq_iff unat_mod u c_consts)
  show ge: "MEM_PHYS_BASE \<le> frame_addr i" and "frame_addr i < MEM_PHYS_BASE + MEM_PHYS_SIZE" "frame_addr i \<noteq> 0"
    using assms by (simp_all add: word_le_nat_alt word_less_nat_alt word_unat_eq_iff u c_consts)
  show "unat ((frame_addr i - MEM_PHYS_BASE) div MEM_SECTION_SIZE) = i"
    using ge by (simp add: unat_div unat_sub u c_consts)
qed

lemma section_address_iff:
  "section_address a \<longleftrightarrow> a mod MEM_SECTION_SIZE = 0 \<and> MEM_PHYS_BASE \<le> a \<and> a < MEM_PHYS_BASE + MEM_PHYS_SIZE"
proof
  assume "a mod MEM_SECTION_SIZE = 0 \<and> MEM_PHYS_BASE \<le> a \<and> a < MEM_PHYS_BASE + MEM_PHYS_SIZE"
  then have m: "unat a mod 0x100000 = 0" "0x80000000 \<le> unat a" "unat a < 0xA0000000"
    by (simp_all add: word_unat_eq_iff unat_mod word_le_nat_alt word_less_nat_alt c_consts)
  define q where "q = unat a div 0x100000"
  have q: "unat a = 0x100000 * q" using m(1) mult_div_mod_eq[where a = "unat a" and b = "0x100000"] by (simp add: q_def)
  define i where "i = q - 2048"
  have "i < 512" using m(2,3) q by (simp add: i_def)
  moreover have "unat a = 0x80000000 + i * 0x100000" using m(2) q by (simp add: i_def algebra_simps)
  ultimately have "a = frame_addr i" by (simp add: word_unat_eq_iff unat_frame_addr)
  then show "section_address a" using \<open>i < 512\<close> by (auto simp: section_address_def)
qed (auto simp: section_address_def frame_addr_facts)

lemma already_free_linked:
  "linked fr p xs \<Longrightarrow> already_free fr p a = Some (\<exists>i \<in> set xs. frame_address (fr ! i) = a)"
proof (induction xs arbitrary: p)
  case Nil then show ?case by (simp add: already_free.simps)
next
  case (Cons i xs) then show ?case by (subst already_free.simps) auto
qed

section \<open>The operations on the invariant\<close>

lemma alloc_frame_step:
  "free_list st (i # is) \<Longrightarrow> alloc_frame st = (frame_addr i, st\<lparr>frame_list := next_frame (frames st ! i)\<rparr>) \<and>
     free_list (snd (alloc_frame st)) is"
  by (auto simp: free_list_def alloc_frame_def)

lemma alloc_frame_empty: "free_list st [] \<Longrightarrow> alloc_frame st = (0, st)"
  by (simp add: free_list_def alloc_frame_def)

lemma link_frame_step:
  "free_list st is \<Longrightarrow> i < 512 \<Longrightarrow> i \<notin> set is \<Longrightarrow> free_list (link_frame i (frame_addr i) st) (i # is)"
  by (auto simp: free_list_def link_frame_def nth_list_update)

lemma free_frame_step:
  assumes "free_list st is" "j < 512"
  shows "free_frame (frame_addr j) st =
    Some (if j \<in> set is then (Free_twice, st) else (Free_done, link_frame j (frame_addr j) st))"
proof -
  have "(\<exists>i \<in> set is. frame_address (frames st ! i) = frame_addr j) \<longleftrightarrow> j \<in> set is"
    using assms by (auto simp: free_list_def frame_addr_inj)
  then show ?thesis
    using assms already_free_linked[of "frames st" "frame_list st" "is" "frame_addr j"] frame_addr_facts[OF assms(2)]
    by (auto simp: free_frame_def free_list_def not_le)
qed

lemma free_frame_invalid:
  "\<not> section_address a \<Longrightarrow> \<exists>r. free_frame a st = Some (r, st) \<and> r \<in> {Free_unaligned, Free_outside}"
  by (auto simp: free_frame_def section_address_iff not_le not_less)

lemma init_frame_steps:
  assumes "free_list st is" "\<forall>i \<in> set is. i < m" "m \<le> n" "n \<le> 512"
  shows "free_list (foldl init_frame_step st [m..<n]) (rev (filter (\<lambda>i. i \<noteq> 256) [m..<n]) @ is)"
  using assms(3,4)
proof (induction n rule: dec_induct)
  case base then show ?case using assms(1) by simp
next
  case (step n)
  have pt: "frame_addr 256 = MEM_BOOT_PAGE_TABLE_BASE" by (simp add: frame_addr_def c_consts)
  have "n \<notin> set (rev (filter (\<lambda>i. i \<noteq> 256) [m..<n]) @ is)" using assms(2) step.hyps by auto
  then show ?case
    using step frame_addr_inj[of n 256] pt
    by (auto simp: init_frame_step_def link_frame_step Let_def simp flip: frame_addr_def)
qed

lemma frames_initial_ok: "free_list frames_initial []"
  by (simp add: free_list_def frames_initial_def)

lemma init_frame_allocator_ok:
  "free_list (init_frame_allocator h frames_initial) (rev (filter (\<lambda>i. i \<noteq> 256) [unat (mapped_sections h)..<512]))"
proof (cases "unat (mapped_sections h) \<le> 512")
  case True
  then show ?thesis
    using init_frame_steps[OF frames_initial_ok, of "unat (mapped_sections h)" 512]
    by (simp add: init_frame_allocator_def c_consts)
next
  case False
  then show ?thesis using frames_initial_ok by (simp add: init_frame_allocator_def c_consts)
qed

section \<open>The contract of an allocator\<close>

datatype request = Req_alloc | Req_free u32

text \<open>A client that keeps what it was given, and gives back only what it holds.\<close>

fun serve :: "('s \<Rightarrow> u32 \<times> 's) \<Rightarrow> (u32 \<Rightarrow> 's \<Rightarrow> 's option) \<Rightarrow> request \<Rightarrow> 's \<times> u32 list \<Rightarrow> ('s \<times> u32 list) option" where
  "serve alloc release Req_alloc (s, held) =
     (let (a, s') = alloc s in Some (s', if a = 0 then held else a # held))"
| "serve alloc release (Req_free a) (s, held) =
     (if a \<in> set held then map_option (\<lambda>s'. (s', remove1 a held)) (release a s) else Some (s, held))"

fun serve_all :: "('s \<Rightarrow> u32 \<times> 's) \<Rightarrow> (u32 \<Rightarrow> 's \<Rightarrow> 's option) \<Rightarrow> request list \<Rightarrow> 's \<times> u32 list \<Rightarrow>
    ('s \<times> u32 list) option" where
  "serve_all alloc release [] c = Some c"
| "serve_all alloc release (r # rs) c = Option.bind (serve alloc release r c) (serve_all alloc release rs)"

text \<open>
  \<open>avail\<close> is the set of free sections. An allocation takes one of them or reports exhaustion; a
  release puts a section back, except for one that is free already or no section at all.
\<close>

locale section_allocator =
  fixes ok :: "'s \<Rightarrow> bool" and avail :: "'s \<Rightarrow> u32 set" and managed :: "u32 \<Rightarrow> bool"
    and alloc :: "'s \<Rightarrow> u32 \<times> 's" and release :: "u32 \<Rightarrow> 's \<Rightarrow> 's option"
  assumes avail_managed: "ok s \<Longrightarrow> a \<in> avail s \<Longrightarrow> managed a"
    and avail_finite: "ok s \<Longrightarrow> finite (avail s)"
    and zero_unmanaged: "\<not> managed 0"
    and alloc_ok: "ok s \<Longrightarrow> avail s \<noteq> {} \<Longrightarrow>
      fst (alloc s) \<in> avail s \<and> ok (snd (alloc s)) \<and> avail (snd (alloc s)) = avail s - {fst (alloc s)}"
    and alloc_exhausted: "ok s \<Longrightarrow> avail s = {} \<Longrightarrow> alloc s = (0, s)"
    and release_ok: "ok s \<Longrightarrow> managed a \<Longrightarrow> \<exists>s'. release a s = Some s' \<and> ok s' \<and> avail s' = insert a (avail s)"
    and release_unmanaged: "ok s \<Longrightarrow> \<not> managed a \<Longrightarrow> release a s = Some s"
begin

definition client_inv :: "u32 set \<Rightarrow> 's \<times> u32 list \<Rightarrow> bool" where
  "client_inv pool c \<longleftrightarrow> ok (fst c) \<and> distinct (snd c) \<and> set (snd c) \<inter> avail (fst c) = {} \<and>
     set (snd c) \<union> avail (fst c) = pool"

lemma serve_inv:
  assumes "client_inv pool c" "\<forall>a \<in> pool. managed a"
  shows "\<exists>c'. serve alloc release r c = Some c' \<and> client_inv pool c'"
proof (cases r)
  case Req_alloc
  show ?thesis
  proof (cases "avail (fst c) = {}")
    case True
    then show ?thesis
      using assms Req_alloc alloc_exhausted by (cases c) (auto simp: client_inv_def)
  next
    case False
    then have "fst (alloc (fst c)) \<noteq> 0"
      using assms(1) alloc_ok avail_managed zero_unmanaged by (metis client_inv_def)
    then show ?thesis
      using assms Req_alloc alloc_ok[of "fst c"] False
      by (cases c) (auto simp: client_inv_def Let_def split_beta)
  qed
next
  case (Req_free a)
  show ?thesis
  proof (cases "a \<in> set (snd c)")
    case True
    then obtain s' where "release a (fst c) = Some s'" "ok s'" "avail s' = insert a (avail (fst c))"
      using assms release_ok by (metis UnI1 client_inv_def)
    then show ?thesis
      using assms Req_free True by (cases c) (auto simp: client_inv_def)
  qed (use assms Req_free in \<open>cases c; auto simp: client_inv_def\<close>)
qed

theorem serve_all_inv:
  assumes "client_inv pool c" "\<forall>a \<in> pool. managed a"
  shows "\<exists>c'. serve_all alloc release rs c = Some c' \<and> client_inv pool c'"
  using assms
proof (induction rs arbitrary: c)
  case (Cons r rs)
  then show ?case using serve_inv[OF Cons.prems, of r] by auto
qed simp

lemma client_inv_card:
  assumes "client_inv pool c"
  shows "length (snd c) + card (avail (fst c)) = card pool"
  using assms avail_finite
  by (auto simp: client_inv_def distinct_card[symmetric] card_Un_disjoint[symmetric])

text \<open>A client that asks often enough comes to hold the whole pool.\<close>

lemma client_takes_all:
  assumes "client_inv pool c" "\<forall>a \<in> pool. managed a" "card (avail (fst c)) = n"
  shows "\<exists>c'. serve_all alloc release (replicate n Req_alloc) c = Some c' \<and> set (snd c') = pool"
  using assms
proof (induction n arbitrary: c)
  case 0
  then have "avail (fst c) = {}" using avail_finite[of "fst c"] by (simp add: client_inv_def)
  then show ?case using "0.prems"(1) by (simp add: client_inv_def)
next
  case (Suc n)
  obtain c1 where c1: "serve alloc release Req_alloc c = Some c1" "client_inv pool c1"
    using serve_inv[OF Suc.prems(1,2)] by blast
  have f: "fst c1 = snd (alloc (fst c))" using c1(1) by (cases c; cases "alloc (fst c)") auto
  have "avail (fst c) \<noteq> {}" "ok (fst c)" using Suc.prems(1,3) by (auto simp: client_inv_def)
  then have "avail (fst c1) = avail (fst c) - {fst (alloc (fst c))}" "fst (alloc (fst c)) \<in> avail (fst c)"
    using alloc_ok[OF \<open>ok (fst c)\<close> \<open>avail (fst c) \<noteq> {}\<close>] f by simp_all
  then have "card (avail (fst c1)) = n" using Suc.prems(3) avail_finite \<open>ok (fst c)\<close> by simp
  then show ?case using Suc.IH[OF c1(2) Suc.prems(2)] c1(1) by simp
qed

end

section \<open>The C allocator meets the contract\<close>

definition frames_ok :: "frame_allocator \<Rightarrow> bool" where
  "frames_ok st \<longleftrightarrow> (\<exists>is. free_list st is)"

definition free_sections :: "frame_allocator \<Rightarrow> u32 set" where
  "free_sections st = {frame_addr i | i is. free_list st is \<and> i \<in> set is}"

definition release_frame :: "u32 \<Rightarrow> frame_allocator \<Rightarrow> frame_allocator option" where
  "release_frame a st = map_option snd (free_frame a st)"

lemma free_sections_eq: "free_list st is \<Longrightarrow> free_sections st = frame_addr ` set is"
proof -
  assume i: "free_list st is"
  then have "js = is" if "free_list st js" for js
    using that linked_unique unfolding free_list_def by blast
  then have "{(j, js). free_list st js \<and> j \<in> set js} = {(j, is) | j. j \<in> set is}" using i by blast
  then show ?thesis using i unfolding free_sections_def by blast
qed

lemma free_frame_managed:
  assumes "frames_ok st" "section_address a"
  shows "\<exists>st'. free_frame a st = Some (if a \<in> free_sections st then Free_twice else Free_done, st') \<and>
    frames_ok st' \<and> free_sections st' = insert a (free_sections st) \<and>
    (if a \<in> free_sections st then st' = st
     else fst (alloc_frame st') = a \<and> free_sections (snd (alloc_frame st')) = free_sections st)"
proof -
  obtain "is" j where i: "free_list st is" and j: "j < 512" "a = frame_addr j"
    using assms by (auto simp: frames_ok_def section_address_def)
  have mem: "a \<in> free_sections st \<longleftrightarrow> j \<in> set is"
    using i j frame_addr_inj by (auto simp: free_sections_eq free_list_def)
  show ?thesis
  proof (cases "j \<in> set is")
    case True
    then show ?thesis using free_frame_step[OF i j(1)] mem assms(1) j(2) by (auto simp: insert_absorb)
  next
    case False
    have l: "free_list (link_frame j a st) (j # is)" using link_frame_step[OF i j(1) False] j(2) by simp
    then show ?thesis
      using free_frame_step[OF i j(1)] mem False j(2) alloc_frame_step[OF l] i
      by (auto simp: frames_ok_def free_sections_eq)
  qed
qed

interpretation sections: section_allocator frames_ok free_sections section_address alloc_frame release_frame
proof
  fix s a assume "frames_ok s" "a \<in> free_sections s"
  then show "section_address a" by (auto simp: free_sections_def section_address_def free_list_def)
next
  fix s assume "frames_ok s" then show "finite (free_sections s)" by (auto simp: frames_ok_def free_sections_eq)
next
  show "\<not> section_address 0" by (auto simp: section_address_def) (metis frame_addr_facts(4))
next
  fix s assume "frames_ok s" "free_sections s \<noteq> {}"
  then obtain i "is" where i: "free_list s (i # is)" by (metis frames_ok_def free_sections_eq image_empty list.exhaust list.set(1))
  have "frame_addr i \<noteq> frame_addr j" if "j \<in> set is" for j
    using i that frame_addr_inj[of i j] by (auto simp: free_list_def)
  then have "frame_addr i \<notin> frame_addr ` set is" by blast
  moreover have a: "fst (alloc_frame s) = frame_addr i" "free_list (snd (alloc_frame s)) is"
    using alloc_frame_step[OF i] by (metis fst_conv)+
  moreover have "frames_ok (snd (alloc_frame s))" using a(2) unfolding frames_ok_def by blast
  ultimately show "fst (alloc_frame s) \<in> free_sections s \<and> frames_ok (snd (alloc_frame s)) \<and>
      free_sections (snd (alloc_frame s)) = free_sections s - {fst (alloc_frame s)}"
    using free_sections_eq[OF i] free_sections_eq[OF a(2)] by simp
next
  fix s assume "frames_ok s" "free_sections s = {}"
  then show "alloc_frame s = (0, s)" using alloc_frame_empty by (auto simp: frames_ok_def free_sections_eq)
next
  fix s a assume "frames_ok s" "section_address a"
  then show "\<exists>s'. release_frame a s = Some s' \<and> frames_ok s' \<and> free_sections s' = insert a (free_sections s)"
    using free_frame_managed[of s a] by (auto simp: release_frame_def)
next
  fix s a assume "\<not> section_address a"
  then show "release_frame a s = Some s" using free_frame_invalid[of a s] by (auto simp: release_frame_def)
qed

section \<open>Properties\<close>

text \<open>The sections the allocator owns after boot: not the kernel's, not the boot page table's.\<close>

definition boot_pool :: "bootloader_header_t \<Rightarrow> u32 set" where
  "boot_pool h = frame_addr ` {i. unat (mapped_sections h) \<le> i \<and> i < 512 \<and> i \<noteq> 256}"

lemma init_frame_pool:
  "frames_ok (init_frame_allocator h frames_initial)"
  "free_sections (init_frame_allocator h frames_initial) = boot_pool h"
  using init_frame_allocator_ok[of h] free_sections_eq[OF init_frame_allocator_ok[of h]]
  by (auto simp: frames_ok_def boot_pool_def)

lemma boot_pool_bounds:
  "MEM_BOOT_PAGE_TABLE_BASE \<notin> boot_pool h"
  "a \<in> boot_pool h \<Longrightarrow> unat MEM_PHYS_BASE + unat (mapped_sections h) * 0x100000 \<le> unat a"
proof -
  have "MEM_BOOT_PAGE_TABLE_BASE = frame_addr 256" by (simp add: frame_addr_def c_consts)
  then show "MEM_BOOT_PAGE_TABLE_BASE \<notin> boot_pool h" using frame_addr_inj[of 256] by (auto simp: boot_pool_def)
  show "a \<in> boot_pool h \<Longrightarrow> unat MEM_PHYS_BASE + unat (mapped_sections h) * 0x100000 \<le> unat a"
    by (auto simp: boot_pool_def unat_frame_addr MEM_PHYS_BASE_def)
qed

lemma serve_after_boot:
  "\<exists>st held. serve_all alloc_frame release_frame rs (init_frame_allocator h frames_initial, []) = Some (st, held) \<and>
     frames_ok st \<and> distinct held \<and> set held \<subseteq> boot_pool h \<and> MEM_BOOT_PAGE_TABLE_BASE \<notin> set held \<and>
     set held \<inter> free_sections st = {} \<and> length held + card (free_sections st) = card (boot_pool h)"
proof -
  have m: "\<forall>a \<in> boot_pool h. section_address a" by (auto simp: boot_pool_def section_address_def)
  have "sections.client_inv (boot_pool h) (init_frame_allocator h frames_initial, [])"
    by (simp add: sections.client_inv_def init_frame_pool)
  from sections.serve_all_inv[OF this m, of rs] obtain c where
    c: "serve_all alloc_frame release_frame rs (init_frame_allocator h frames_initial, []) = Some c"
      "sections.client_inv (boot_pool h) c" by blast
  then show ?thesis
    using sections.client_inv_card[OF c(2)] boot_pool_bounds(1)[of h] by (cases c) (auto simp: sections.client_inv_def)
qed

lemma allocator_drains:
  "\<exists>rs st held. serve_all alloc_frame release_frame rs (init_frame_allocator h frames_initial, []) = Some (st, held) \<and>
     set held = boot_pool h"
proof -
  have m: "\<forall>a \<in> boot_pool h. section_address a" by (auto simp: boot_pool_def section_address_def)
  have "sections.client_inv (boot_pool h) (init_frame_allocator h frames_initial, [])"
    by (simp add: sections.client_inv_def init_frame_pool)
  from sections.client_takes_all[OF this m refl] show ?thesis by fastforce
qed

text \<open>
  C12. No section is handed out twice: after \<^verbatim>\<open>init_frame_allocator\<close>, every sequence of allocations and
  releases (a client returns only sections it holds) runs to its end, the sections held are
  pairwise different, none of them belongs to the kernel image or is the boot page table, and held
  and free sections together always make up the pool, so none is lost.
\<close>

theorem no_section_handed_out_twice:
  "\<exists>st held. serve_all alloc_frame release_frame rs (init_frame_allocator h frames_initial, []) = Some (st, held) \<and>
     frames_ok st \<and> distinct held \<and> set held \<subseteq> boot_pool h \<and> MEM_BOOT_PAGE_TABLE_BASE \<notin> set held \<and>
     set held \<inter> free_sections st = {} \<and> length held + card (free_sections st) = card (boot_pool h)"
  by (rule serve_after_boot)

text \<open>
  \<^verbatim>\<open>free_frame\<close> on every branch: an unaligned address, an address outside memory and a section that
  is free already are reported and change nothing; any other section joins the free list and is
  the one the next allocation returns.
\<close>

theorem free_frame_cases:
  assumes "frames_ok st"
  shows "\<exists>r st'. free_frame a st = Some (r, st') \<and> frames_ok st' \<and>
    r = (if a mod MEM_SECTION_SIZE \<noteq> 0 then Free_unaligned
         else if a < MEM_PHYS_BASE \<or> a \<ge> MEM_PHYS_BASE + MEM_PHYS_SIZE then Free_outside
         else if a \<in> free_sections st then Free_twice else Free_done) \<and>
    (if r = Free_done then free_sections st' = insert a (free_sections st) \<and> fst (alloc_frame st') = a
     else st' = st)"
proof (cases "section_address a")
  case True
  then show ?thesis using free_frame_managed[OF assms True] by (auto simp: section_address_iff not_le not_less)
next
  case False
  then show ?thesis using assms by (auto simp: free_frame_def section_address_iff not_le not_less)
qed

theorem free_frame_cases_witness:
  "frames_ok frames_initial \<and>
   (\<exists>st'. free_frame 0x80300000 frames_initial = Some (Free_done, st') \<and> fst (alloc_frame st') = 0x80300000) \<and>
   free_frame 0x80300001 frames_initial = Some (Free_unaligned, frames_initial)"
  using free_frame_cases[of frames_initial "0x80300000"] free_frame_cases[of frames_initial "0x80300001"]
    frames_initial_ok free_sections_eq[OF frames_initial_ok]
  by (auto simp: frames_ok_def c_consts)

text \<open>
  Nothing protects the sections kept out of the pool at boot: right after initialisation,
  freeing the section of the boot page table is accepted, and the next allocation hands it out.
\<close>

theorem page_table_section_can_be_freed:
  "\<exists>st'. free_frame MEM_BOOT_PAGE_TABLE_BASE (init_frame_allocator h frames_initial) = Some (Free_done, st') \<and>
     fst (alloc_frame st') = MEM_BOOT_PAGE_TABLE_BASE"
proof -
  have pt: "MEM_BOOT_PAGE_TABLE_BASE = frame_addr 256" by (simp add: frame_addr_def c_consts)
  have "section_address (frame_addr 256)" unfolding section_address_def by (intro exI[of _ 256]) simp
  moreover have "frame_addr 256 \<notin> boot_pool h" using frame_addr_inj[of 256] by (auto simp: boot_pool_def)
  ultimately show ?thesis
    using free_frame_managed[OF init_frame_pool(1), of "frame_addr 256" h] by (auto simp: pt init_frame_pool)
qed

end
