(* ===== verification/Mmu.thy ===== *)
theory Mmu
  imports Frame_Allocator
begin

text \<open>
  The memory-management unit code of \<^verbatim>\<open>os/mmu/mmu.c\<close> and \<^verbatim>\<open>os/mmu/mmu.h\<close>: section descriptors, the
  boot level-1 table, and the sequence of coprocessor operations that \<^verbatim>\<open>MMU_init\<close>, \<^verbatim>\<open>MMU_enable\<close> and
  \<^verbatim>\<open>MMU_disable\<close> perform.

  A level-1 table is the list of its 4096 words. The coprocessor registers the code touches (control,
  domain access, translation table base) are fields of the state; the maintenance operations
  (TLB and cache invalidations) have no result, so the state keeps the list of those performed.
  What the hardware does with a descriptor is not modelled; the theorems are about the descriptors
  the code builds and about the decoder \<^verbatim>\<open>log_l1_pte\<close>. Messages to the console are left out, apart
  from the outcome of \<^verbatim>\<open>log_l1_pte\<close>.
\<close>

section \<open>Descriptor flags\<close>

definition L1_SECTION_MASK :: u32 where [c_consts]: "L1_SECTION_MASK = 0xFFF00000"
definition L1_SECTION_DESCRIPTOR :: u32 where [c_consts]: "L1_SECTION_DESCRIPTOR = 0x2"
definition L1_SHAREABLE :: u32 where [c_consts]: "L1_SHAREABLE = push_bit 16 1"
definition L1_CACHEABLE :: u32 where [c_consts]: "L1_CACHEABLE = push_bit 3 1"
definition L1_GLOBAL :: u32 where [c_consts]: "L1_GLOBAL = push_bit 17 0"
definition L1_ACCESS_NX :: u32 where [c_consts]: "L1_ACCESS_NX = push_bit 4 1"
definition TEX_B :: u32 where [c_consts]: "TEX_B = 0x4"
definition L1_ACCESS_RW_NO :: u32 where [c_consts]: "L1_ACCESS_RW_NO = push_bit 10 0x1 OR push_bit 15 0"
definition L1_KERNEL_DEVICE_FLAGS :: u32 where [c_consts]:
  "L1_KERNEL_DEVICE_FLAGS = L1_ACCESS_RW_NO OR L1_ACCESS_NX OR L1_SHAREABLE OR L1_GLOBAL OR TEX_B"

definition GET_L1_INDEX :: "u32 \<Rightarrow> u32" where
  "GET_L1_INDEX x = drop_bit 20 x"

section \<open>State\<close>

datatype cp15_op = TLBIALL | TLBIMVA u32 | TLBIASID u32 | ICIALLU | DCCI

record mmu_state =
  boot_l1 :: "u32 list"
  sctlr :: u32
  dacr :: u32
  ttbr0 :: u32
  cp15_ops :: "cp15_op list"

section \<open>Operations\<close>

definition clear_boot_tables :: "mmu_state \<Rightarrow> mmu_state" where
  "clear_boot_tables m = m\<lparr>boot_l1 := foldl (\<lambda>t i. t[i := 0]) (boot_l1 m) [0..<4096]\<rparr>"

definition MMU_set_domains :: "mmu_state \<Rightarrow> mmu_state" where
  "MMU_set_domains m = m\<lparr>dacr := 0x55555555\<rparr>"

definition MMU_map_section :: "u32 \<Rightarrow> u32 \<Rightarrow> u32 \<Rightarrow> u32 list \<Rightarrow> u32 list" where
  "MMU_map_section vaddr paddr flags l1_base =
     (if vaddr AND NOT L1_SECTION_MASK \<noteq> 0 \<or> paddr AND NOT L1_SECTION_MASK \<noteq> 0 then l1_base
      else l1_base[unat (GET_L1_INDEX vaddr) := (paddr AND L1_SECTION_MASK) OR L1_SECTION_DESCRIPTOR OR flags])"

definition flush_tlb :: "mmu_state \<Rightarrow> mmu_state" where
  "flush_tlb m = m\<lparr>cp15_ops := cp15_ops m @ [TLBIALL]\<rparr>"

definition flush_tlb_entry :: "u32 \<Rightarrow> mmu_state \<Rightarrow> mmu_state" where
  "flush_tlb_entry vaddr m = m\<lparr>cp15_ops := cp15_ops m @ [TLBIMVA vaddr]\<rparr>"

definition flush_tlb_asid :: "u32 \<Rightarrow> mmu_state \<Rightarrow> mmu_state" where
  "flush_tlb_asid asid m = m\<lparr>cp15_ops := cp15_ops m @ [TLBIASID asid]\<rparr>"

definition flush_i_cache :: "mmu_state \<Rightarrow> mmu_state" where
  "flush_i_cache m = m\<lparr>cp15_ops := cp15_ops m @ [ICIALLU]\<rparr>"

definition flush_d_cache :: "mmu_state \<Rightarrow> mmu_state" where
  "flush_d_cache m = m\<lparr>cp15_ops := cp15_ops m @ [DCCI]\<rparr>"

definition i_cache_enable :: "mmu_state \<Rightarrow> mmu_state" where
  "i_cache_enable m = m\<lparr>sctlr := sctlr m OR 0x1000\<rparr>"

definition d_cache_enable :: "mmu_state \<Rightarrow> mmu_state" where
  "d_cache_enable m = m\<lparr>sctlr := sctlr m OR 0x4\<rparr>"

definition i_cache_disable :: "mmu_state \<Rightarrow> mmu_state" where
  "i_cache_disable m = m\<lparr>sctlr := sctlr m AND NOT 0x1000\<rparr>"

definition d_cache_disable :: "mmu_state \<Rightarrow> mmu_state" where
  "d_cache_disable m = m\<lparr>sctlr := sctlr m AND NOT 0x4\<rparr>"

definition mmu_enable_bit :: "mmu_state \<Rightarrow> mmu_state" where
  "mmu_enable_bit m = m\<lparr>sctlr := sctlr m OR 0x1\<rparr>"

definition mmu_disable :: "mmu_state \<Rightarrow> mmu_state" where
  "mmu_disable m = m\<lparr>sctlr := sctlr m AND NOT 0x1\<rparr>"

definition set_ttbr0 :: "u32 \<Rightarrow> mmu_state \<Rightarrow> mmu_state" where
  "set_ttbr0 l1_base m = m\<lparr>ttbr0 := l1_base\<rparr>"

definition read_dacr :: "mmu_state \<Rightarrow> u32" where "read_dacr m = dacr m"

definition read_ttbr0 :: "mmu_state \<Rightarrow> u32" where "read_ttbr0 m = ttbr0 m"

text \<open>The loops \<^verbatim>\<open>for (i = 0; i < n; i++) MMU_map_section(...)\<close> of \<^verbatim>\<open>mmu_map_hardware_pages\<close>.\<close>

definition map_sections :: "u32 \<Rightarrow> nat \<Rightarrow> u32 \<Rightarrow> u32 list \<Rightarrow> u32 list" where
  "map_sections base n flags l1 =
     foldl (\<lambda>t i. MMU_map_section (base + word_of_nat i * MEM_SECTION_SIZE)
                    (base + word_of_nat i * MEM_SECTION_SIZE) flags t) l1 [0..<n]"

definition dram_flags :: u32 where [c_consts]: "dram_flags = 0x00050C0E"

definition mmu_map_hardware_pages :: "u32 list \<Rightarrow> u32 list" where
  "mmu_map_hardware_pages l1 =
     (let ram_flags = L1_ACCESS_RW_NO OR L1_CACHEABLE OR L1_SHAREABLE;
          l1 = MMU_map_section 0x40200000 0x40200000 ram_flags l1;
          l1 = MMU_map_section 0x40300000 0x40300000 ram_flags l1;
          l1 = MMU_map_section 0x44C00000 0x44C00000 L1_KERNEL_DEVICE_FLAGS l1;
          l1 = MMU_map_section 0x44D00000 0x44D00000 L1_KERNEL_DEVICE_FLAGS l1;
          l1 = MMU_map_section 0x44E00000 0x44E00000 L1_KERNEL_DEVICE_FLAGS l1;
          l1 = MMU_map_section 0x44F00000 0x44F00000 L1_KERNEL_DEVICE_FLAGS l1;
          l1 = map_sections 0x48000000 16 L1_KERNEL_DEVICE_FLAGS l1;
          l1 = map_sections 0x4A000000 16 L1_KERNEL_DEVICE_FLAGS l1;
          l1 = map_sections 0x4C000000 16 L1_KERNEL_DEVICE_FLAGS l1;
          l1 = map_sections 0x50000000 16 L1_KERNEL_DEVICE_FLAGS l1
      in map_sections MEM_PHYS_BASE (unat (MEM_PHYS_SIZE div MEM_SECTION_SIZE)) dram_flags l1)"

definition MMU_init :: "mmu_state \<Rightarrow> mmu_state" where
  "MMU_init m =
     (let m = MMU_set_domains (clear_boot_tables m);
          m = m\<lparr>boot_l1 := mmu_map_hardware_pages (boot_l1 m)\<rparr>
      in flush_tlb (set_ttbr0 MEM_BOOT_PAGE_TABLE_BASE m))"

definition MMU_enable :: "mmu_state \<Rightarrow> mmu_state" where
  "MMU_enable m = mmu_enable_bit (i_cache_enable (d_cache_enable (flush_i_cache (flush_tlb m))))"

definition MMU_disable :: "mmu_state \<Rightarrow> mmu_state" where
  "MMU_disable m = i_cache_disable (d_cache_disable (mmu_disable m))"

definition mmu_copy_bootloader_entries :: "mmu_state \<Rightarrow> u32 list \<Rightarrow> u32 list" where
  "mmu_copy_bootloader_entries m l1_base = foldl (\<lambda>t i. t[i := boot_l1 m ! i]) l1_base [0..<4096]"

section \<open>The decoder\<close>

record l1_pte =
  pte_base :: u32
  pte_b :: u32
  pte_c :: u32
  pte_ap2 :: u32
  pte_ap :: u32
  pte_tex :: u32
  pte_domain :: u32
  pte_ng :: u32
  pte_s :: u32
  pte_xn :: u32
  pte_ns :: u32
  pte_type :: string

text \<open>\<open>None\<close> is the message that supersections are not supported, \<open>Some\<close> the fields printed.\<close>

definition log_l1_pte :: "u32 \<Rightarrow> l1_pte option" where
  "log_l1_pte v =
     (let section_type = v AND 0x3;
          type_str = (if section_type = 0 then ''Invalid'' else if section_type = 1 then ''Page''
                      else if section_type = 2 then ''Section'' else ''Reserved'');
          supersection = drop_bit 18 v AND 1
      in if supersection \<noteq> 0 then None
         else Some \<lparr>pte_base = v AND 0xFFF00000, pte_b = drop_bit 2 v AND 1, pte_c = drop_bit 3 v AND 1,
           pte_ap2 = drop_bit 15 v AND 0x1, pte_ap = drop_bit 10 v AND 0x3, pte_tex = drop_bit 12 v AND 0x7,
           pte_domain = drop_bit 5 v AND 0xF, pte_ng = drop_bit 17 v AND 1, pte_s = drop_bit 16 v AND 1,
           pte_xn = drop_bit 4 v AND 1, pte_ns = drop_bit 19 v AND 1, pte_type = type_str\<rparr>)"

definition log_vaddr_mappings :: "mmu_state \<Rightarrow> u32 \<Rightarrow> l1_pte option" where
  "log_vaddr_mappings m vaddr = log_l1_pte (boot_l1 m ! unat (GET_L1_INDEX vaddr))"

section \<open>Tables built by the loops\<close>

lemma length_MMU_map_section [simp]: "length (MMU_map_section v p f t) = length t"
  by (simp add: MMU_map_section_def)

lemma section_mask: "L1_SECTION_MASK = NOT (mask 20)"
  by (simp add: c_consts mask_eq_exp_minus_1)

definition section_base :: "nat \<Rightarrow> u32" where
  "section_base j = word_of_nat (j * 0x100000)"

lemma section_base_push: "section_base j = push_bit 20 (word_of_nat j)"
  by (simp add: section_base_def push_bit_eq_mult)

lemma section_word:
  assumes "j < 4096"
  shows "unat (GET_L1_INDEX (section_base j)) = j" "section_base j AND NOT L1_SECTION_MASK = 0"
    "section_base j AND L1_SECTION_MASK = section_base j"
proof -
  have "unat (section_base j) = j * 0x100000"
    unfolding section_base_def using assms by (intro unat_u32_of_nat) simp
  then show "unat (GET_L1_INDEX (section_base j)) = j"
    by (simp add: GET_L1_INDEX_def drop_bit_eq_div unat_div)
  show "section_base j AND NOT L1_SECTION_MASK = 0" "section_base j AND L1_SECTION_MASK = section_base j"
    unfolding section_mask section_base_push by (auto intro!: bit_word_eqI simp: bit_simps)
qed

text \<open>The identity descriptor of section \<open>j\<close>, and the table a loop leaves.\<close>

definition identity_entry :: "u32 \<Rightarrow> nat \<Rightarrow> u32" where
  "identity_entry flags j = section_base j OR L1_SECTION_DESCRIPTOR OR flags"

lemma map_section_identity:
  "j < 4096 \<Longrightarrow> MMU_map_section (section_base j) (section_base j) flags t =
     t[j := identity_entry flags j]"
  by (simp add: MMU_map_section_def section_word identity_entry_def)

lemma map_sections_nth:
  assumes "base = section_base b" "b + n \<le> 4096" "length t = 4096" "j < 4096"
  shows "length (map_sections base n flags t) = 4096"
    "map_sections base n flags t ! j = (if b \<le> j \<and> j < b + n then identity_entry flags j else t ! j)"
proof -
  have "length (map_sections base k flags t) = 4096 \<and>
    map_sections base k flags t ! j = (if b \<le> j \<and> j < b + k then identity_entry flags j else t ! j)"
    if "k \<le> n" for k
    using that
  proof (induction k)
    case 0 then show ?case using assms(3) by (auto simp: map_sections_def)
  next
    case (Suc k)
    have "base + word_of_nat k * MEM_SECTION_SIZE = section_base (b + k)"
      using assms(1) by (simp add: c_consts section_base_def algebra_simps)
    then have "map_sections base (Suc k) flags t = (map_sections base k flags t)[b + k := identity_entry flags (b + k)]"
      using Suc.prems assms(2) map_section_identity[of "b + k"] by (simp add: map_sections_def)
    then show ?case using Suc assms(2,4) by (cases "j = b + k") auto
  qed
  from this[of n] show "length (map_sections base n flags t) = 4096"
    "map_sections base n flags t ! j = (if b \<le> j \<and> j < b + n then identity_entry flags j else t ! j)"
    by auto
qed

definition hardware_entry :: "nat \<Rightarrow> u32" where
  "hardware_entry j =
     (if 0x800 \<le> j \<and> j < 0xA00 then identity_entry dram_flags j
      else if j = 0x402 \<or> j = 0x403 then identity_entry (L1_ACCESS_RW_NO OR L1_CACHEABLE OR L1_SHAREABLE) j
      else if j = 0x44C \<or> j = 0x44D \<or> j = 0x44E \<or> j = 0x44F \<or>
              (0x480 \<le> j \<and> j < 0x490) \<or> (0x4A0 \<le> j \<and> j < 0x4B0) \<or>
              (0x4C0 \<le> j \<and> j < 0x4D0) \<or> (0x500 \<le> j \<and> j < 0x510)
      then identity_entry L1_KERNEL_DEVICE_FLAGS j
      else 0)"

lemma single_sections:
  "MMU_map_section 0x40200000 0x40200000 f t = t[0x402 := identity_entry f 0x402]"
  "MMU_map_section 0x40300000 0x40300000 f t = t[0x403 := identity_entry f 0x403]"
  "MMU_map_section 0x44C00000 0x44C00000 f t = t[0x44C := identity_entry f 0x44C]"
  "MMU_map_section 0x44D00000 0x44D00000 f t = t[0x44D := identity_entry f 0x44D]"
  "MMU_map_section 0x44E00000 0x44E00000 f t = t[0x44E := identity_entry f 0x44E]"
  "MMU_map_section 0x44F00000 0x44F00000 f t = t[0x44F := identity_entry f 0x44F]"
  using map_section_identity[of "0x402" f t] map_section_identity[of "0x403" f t]
    map_section_identity[of "0x44C" f t] map_section_identity[of "0x44D" f t]
    map_section_identity[of "0x44E" f t] map_section_identity[of "0x44F" f t]
  by (simp_all add: section_base_def)

lemma region_bases:
  "(0x48000000::u32) = section_base 0x480" "(0x4A000000::u32) = section_base 0x4A0"
  "(0x4C000000::u32) = section_base 0x4C0" "(0x50000000::u32) = section_base 0x500"
  "MEM_PHYS_BASE = section_base 0x800"
  by (simp_all add: section_base_def c_consts)

lemma hardware_pages_nth:
  assumes "j < 4096"
  shows "length (mmu_map_hardware_pages (replicate 4096 0)) = 4096"
    "mmu_map_hardware_pages (replicate 4096 0) ! j = hardware_entry j"
proof -
  have n: "unat (MEM_PHYS_SIZE div MEM_SECTION_SIZE) = 512" by (simp add: c_consts)
  note m = map_sections_nth[OF region_bases(1)] map_sections_nth[OF region_bases(2)]
    map_sections_nth[OF region_bases(3)] map_sections_nth[OF region_bases(4)] map_sections_nth[OF region_bases(5)]
  show "length (mmu_map_hardware_pages (replicate 4096 0)) = 4096"
    by (simp add: mmu_map_hardware_pages_def Let_def m[where j = 0] n single_sections)
  show "mmu_map_hardware_pages (replicate 4096 0) ! j = hardware_entry j"
    using assms
    by (simp add: mmu_map_hardware_pages_def Let_def m n single_sections hardware_entry_def nth_list_update)
qed

lemma clear_boot_tables_eq: "length (boot_l1 m) = 4096 \<Longrightarrow> boot_l1 (clear_boot_tables m) = replicate 4096 0"
  using fold_list_update[of "boot_l1 m" 4096 4096 "\<lambda>_. 0"]
  by (simp add: clear_boot_tables_def map_replicate_const)

text \<open>Decoding a descriptor whose low 20 bits are \<open>c\<close>.\<close>

lemma field_of_entry:
  "k + n \<le> 20 \<Longrightarrow> drop_bit k (section_base j OR c) AND mask n = drop_bit k c AND mask n"
  by (rule bit_word_eqI) (auto simp: section_base_push bit_simps)

lemma base_of_entry:
  assumes "c AND L1_SECTION_MASK = 0" "j < 4096"
  shows "(section_base j OR c) AND L1_SECTION_MASK = section_base j"
  using assms by (simp add: bit.conj_disj_distrib2 section_word)

lemma log_l1_pte_entry:
  assumes "c AND L1_SECTION_MASK = 0" "j < 4096"
  shows "log_l1_pte (section_base j OR c) = map_option (\<lambda>p. p\<lparr>pte_base := section_base j\<rparr>) (log_l1_pte c)"
proof -
  have masks: "(1::u32) = mask 1" "(3::u32) = mask 2" "(7::u32) = mask 3" "(0xF::u32) = mask 4"
    by (simp_all add: mask_eq_exp_minus_1)
  have "(section_base j OR c) AND 0xFFF00000 = section_base j"
    using base_of_entry[OF assms] by (simp add: L1_SECTION_MASK_def)
  moreover have "(section_base j OR c) AND 3 = c AND 3" using field_of_entry[of 0 2 j c, folded masks] by simp
  moreover have "drop_bit k (section_base j OR c) AND 1 = drop_bit k c AND 1" if "k < 20" for k
    using field_of_entry[of k 1 j c, folded masks] that by simp
  moreover have "drop_bit 10 (section_base j OR c) AND 3 = drop_bit 10 c AND 3"
    "drop_bit 12 (section_base j OR c) AND 7 = drop_bit 12 c AND 7"
    "drop_bit 5 (section_base j OR c) AND 0xF = drop_bit 5 c AND 0xF"
    using field_of_entry[of 10 2 j c, folded masks] field_of_entry[of 12 3 j c, folded masks]
      field_of_entry[of 5 4 j c, folded masks] by simp_all
  ultimately show ?thesis by (simp add: log_l1_pte_def Let_def)
qed

text \<open>The three kinds of entries of the boot map, and what the decoder makes of each.\<close>

lemma hardware_entry_cases:
  assumes "j < 4096"
  shows "j \<in> {0x44C..0x44F} \<union> {0x480..0x48F} \<union> {0x4A0..0x4AF} \<union> {0x4C0..0x4CF} \<union> {0x500..0x50F} \<Longrightarrow>
      hardware_entry j = identity_entry L1_KERNEL_DEVICE_FLAGS j"
    and "j \<in> {0x402, 0x403} \<Longrightarrow> hardware_entry j = identity_entry (L1_ACCESS_RW_NO OR L1_CACHEABLE OR L1_SHAREABLE) j"
    and "j \<in> {0x800..0x9FF} \<Longrightarrow> hardware_entry j = identity_entry dram_flags j"
    and "j \<notin> {0x402, 0x403} \<union> {0x44C..0x44F} \<union> {0x480..0x48F} \<union> {0x4A0..0x4AF} \<union> {0x4C0..0x4CF} \<union>
           {0x500..0x50F} \<union> {0x800..0x9FF} \<Longrightarrow> hardware_entry j = 0"
proof -
  show "hardware_entry j = identity_entry L1_KERNEL_DEVICE_FLAGS j"
    if "j \<in> {0x44C..0x44F} \<union> {0x480..0x48F} \<union> {0x4A0..0x4AF} \<union> {0x4C0..0x4CF} \<union> {0x500..0x50F}"
    using that by (simp add: hardware_entry_def) arith
  have e: "j < 0xA00 \<longleftrightarrow> j \<le> 0x9FF" "j < 0x490 \<longleftrightarrow> j \<le> 0x48F" "j < 0x4B0 \<longleftrightarrow> j \<le> 0x4AF" "j < 0x4D0 \<longleftrightarrow> j \<le> 0x4CF"
    "j < 0x510 \<longleftrightarrow> j \<le> 0x50F" "j = 0x44C \<or> j = 0x44D \<or> j = 0x44E \<or> j = 0x44F \<or> A \<longleftrightarrow> 0x44C \<le> j \<and> j \<le> 0x44F \<or> A" for A
    by arith+
  show "hardware_entry j = 0"
    if "j \<notin> {0x402, 0x403} \<union> {0x44C..0x44F} \<union> {0x480..0x48F} \<union> {0x4A0..0x4AF} \<union> {0x4C0..0x4CF} \<union>
           {0x500..0x50F} \<union> {0x800..0x9FF}"
    using that unfolding hardware_entry_def e by (simp only: Un_iff insert_iff empty_iff atLeastAtMost_iff split: if_split) blast
qed (auto simp: hardware_entry_def)

lemma decoded_entries:
  assumes "j < 4096"
  shows "\<exists>p. log_l1_pte (identity_entry L1_KERNEL_DEVICE_FLAGS j) = Some p \<and> pte_base p = section_base j \<and>
         pte_type p = ''Section'' \<and> pte_xn p = 1 \<and> pte_c p = 0 \<and> pte_s p = 1 \<and> pte_ap2 p = 0 \<and> pte_ap p = 1"
    and "\<exists>p. log_l1_pte (identity_entry (L1_ACCESS_RW_NO OR L1_CACHEABLE OR L1_SHAREABLE) j) = Some p \<and>
         pte_base p = section_base j \<and> pte_type p = ''Section'' \<and> pte_xn p = 0 \<and> pte_c p = 1 \<and> pte_s p = 1 \<and>
         pte_ap2 p = 0 \<and> pte_ap p = 1"
    and "log_l1_pte (identity_entry dram_flags j) = None" "bit (identity_entry dram_flags j) 18"
    and "identity_entry dram_flags j AND 0xFFF00003 = section_base j OR 2"
proof -
  have e: "log_l1_pte (identity_entry f j) = map_option (\<lambda>p. p\<lparr>pte_base := section_base j\<rparr>) (log_l1_pte (L1_SECTION_DESCRIPTOR OR f))"
    if "(L1_SECTION_DESCRIPTOR OR f) AND L1_SECTION_MASK = 0" for f
    using log_l1_pte_entry[OF that assms] by (simp add: identity_entry_def or.assoc)
  show "\<exists>p. log_l1_pte (identity_entry L1_KERNEL_DEVICE_FLAGS j) = Some p \<and> pte_base p = section_base j \<and>
         pte_type p = ''Section'' \<and> pte_xn p = 1 \<and> pte_c p = 0 \<and> pte_s p = 1 \<and> pte_ap2 p = 0 \<and> pte_ap p = 1"
    by (subst e) (simp_all add: log_l1_pte_def c_consts)
  show "\<exists>p. log_l1_pte (identity_entry (L1_ACCESS_RW_NO OR L1_CACHEABLE OR L1_SHAREABLE) j) = Some p \<and>
         pte_base p = section_base j \<and> pte_type p = ''Section'' \<and> pte_xn p = 0 \<and> pte_c p = 1 \<and> pte_s p = 1 \<and>
         pte_ap2 p = 0 \<and> pte_ap p = 1"
    by (subst e) (simp_all add: log_l1_pte_def c_consts)
  show "log_l1_pte (identity_entry dram_flags j) = None" by (subst e) (simp_all add: log_l1_pte_def c_consts)
  show "bit (identity_entry dram_flags j) 18"
    by (simp add: identity_entry_def dram_flags_def L1_SECTION_DESCRIPTOR_def bit_or_iff)
  have s: "section_base j AND 3 = 0"
    using field_of_entry[of 0 2 j 0] by (simp add: mask_eq_exp_minus_1)
  have m: "(0xFFF00003 :: u32) = L1_SECTION_MASK OR 3" by (simp add: L1_SECTION_MASK_def)
  have "section_base j AND 0xFFF00003 = section_base j"
    unfolding m by (simp only: bit.conj_disj_distrib s section_word(3)[OF assms] or.right_neutral)
  then show "identity_entry dram_flags j AND 0xFFF00003 = section_base j OR 2"
    by (simp add: identity_entry_def c_consts bit.conj_disj_distrib2 or.assoc)
qed

section \<open>Properties\<close>

text \<open>
  \<^verbatim>\<open>MMU_map_section\<close>: with both addresses aligned to 1 MB exactly one entry of the table changes,
  that of the virtual section, to the physical base with the section type and the flags; with an
  unaligned address the table stays as it was.
\<close>

theorem map_section_cases:
  assumes "length t = 4096" "i < 4096"
  shows "MMU_map_section v p f t ! i =
     (if v AND 0xFFFFF = 0 \<and> p AND 0xFFFFF = 0 \<and> i = unat v div 0x100000 then p OR 2 OR f else t ! i)"
proof -
  have "unat (GET_L1_INDEX v) = unat v div 0x100000" by (simp add: GET_L1_INDEX_def drop_bit_eq_div unat_div)
  moreover have "p AND L1_SECTION_MASK = p" if "p AND mask 20 = 0"
  proof (rule bit_word_eqI)
    fix n show "bit (p AND L1_SECTION_MASK) n = bit p n" if "n < LENGTH(32)"
      using arg_cong[OF \<open>p AND mask 20 = 0\<close>, of "\<lambda>w. bit w n"] that by (auto simp: section_mask bit_simps)
  qed
  moreover have "(0xFFFFF::u32) = mask 20" "NOT L1_SECTION_MASK = mask 20"
    by (simp_all add: mask_eq_exp_minus_1 section_mask)
  ultimately show ?thesis using assms
    by (auto simp: MMU_map_section_def L1_SECTION_DESCRIPTOR_def)
qed

theorem map_section_cases_witness:
  "MMU_map_section 0x44E00000 0x44E00000 0x10 (replicate 4096 0) ! 0x44E = 0x44E00012 \<and>
   MMU_map_section 0x44E00001 0x44E00000 0x10 (replicate 4096 0) ! 0x44E = 0"
  using map_section_cases[of "replicate 4096 0" "0x44E" "0x44E00000" "0x44E00000" "0x10"]
    map_section_cases[of "replicate 4096 0" "0x44E" "0x44E00001" "0x44E00000" "0x10"] by simp

text \<open>
  C15. What \<^verbatim>\<open>MMU_init\<close> leaves in the boot table, whatever it held before, entry by entry and in the terms of the
  kernel's own decoder. The device windows and the on-chip RAM are mapped to themselves by sections,
  shareable and for privileged code, the devices not executable and not cacheable, the RAM cacheable
  and executable. The 512 entries of DRAM have the bits of such a section too, but the flags
  0x00050C0E also set bit 18, which makes them supersections: the decoder rejects every one of them
  with its message that the bit should not be set. All other entries are zero. The table is loaded and
  the TLB is invalidated after that, with the MMU and the caches left as they were.
\<close>

theorem boot_table_contents:
  assumes "length (boot_l1 m) = 4096" "j < 4096"
  shows "(j \<in> {0x44C..0x44F} \<union> {0x480..0x48F} \<union> {0x4A0..0x4AF} \<union> {0x4C0..0x4CF} \<union> {0x500..0x50F} \<longrightarrow>
      (\<exists>p. log_vaddr_mappings (MMU_init m) (section_base j) = Some p \<and> pte_base p = section_base j \<and>
         pte_type p = ''Section'' \<and> pte_xn p = 1 \<and> pte_c p = 0 \<and> pte_s p = 1 \<and> pte_ap2 p = 0 \<and> pte_ap p = 1)) \<and>
    (j \<in> {0x402, 0x403} \<longrightarrow>
      (\<exists>p. log_vaddr_mappings (MMU_init m) (section_base j) = Some p \<and> pte_base p = section_base j \<and>
         pte_type p = ''Section'' \<and> pte_xn p = 0 \<and> pte_c p = 1 \<and> pte_s p = 1 \<and> pte_ap2 p = 0 \<and> pte_ap p = 1)) \<and>
    (j \<in> {0x800..0x9FF} \<longrightarrow> log_vaddr_mappings (MMU_init m) (section_base j) = None \<and>
      bit (boot_l1 (MMU_init m) ! j) 18 \<and> boot_l1 (MMU_init m) ! j AND 0xFFF00003 = section_base j OR 2) \<and>
    (j \<notin> {0x402, 0x403} \<union> {0x44C..0x44F} \<union> {0x480..0x48F} \<union> {0x4A0..0x4AF} \<union> {0x4C0..0x4CF} \<union>
           {0x500..0x50F} \<union> {0x800..0x9FF} \<longrightarrow> boot_l1 (MMU_init m) ! j = 0) \<and>
    ttbr0 (MMU_init m) = MEM_BOOT_PAGE_TABLE_BASE \<and> dacr (MMU_init m) = 0x55555555 \<and>
    sctlr (MMU_init m) = sctlr m \<and> cp15_ops (MMU_init m) = cp15_ops m @ [TLBIALL]"
proof -
  have nth: "boot_l1 (MMU_init m) ! j = hardware_entry j"
    using assms hardware_pages_nth(2)[OF assms(2)] clear_boot_tables_eq[OF assms(1)]
    by (simp add: MMU_init_def Let_def flush_tlb_def set_ttbr0_def MMU_set_domains_def)
  then have e: "log_vaddr_mappings (MMU_init m) (section_base j) = log_l1_pte (hardware_entry j)"
    using assms(2) by (simp add: log_vaddr_mappings_def section_word)
  note entries = hardware_entry_cases[OF assms(2)] and decoded = decoded_entries[OF assms(2)]
  have regs: "ttbr0 (MMU_init m) = MEM_BOOT_PAGE_TABLE_BASE \<and> dacr (MMU_init m) = 0x55555555 \<and>
    sctlr (MMU_init m) = sctlr m \<and> cp15_ops (MMU_init m) = cp15_ops m @ [TLBIALL]"
    by (simp add: MMU_init_def Let_def flush_tlb_def set_ttbr0_def MMU_set_domains_def clear_boot_tables_def)
  show ?thesis
    unfolding e nth using entries decoded regs by simp
qed

definition ex_mmu :: mmu_state where
  "ex_mmu = \<lparr>boot_l1 = replicate 4096 7, sctlr = 0, dacr = 0, ttbr0 = 0, cp15_ops = []\<rparr>"

theorem boot_table_contents_witness:
  "(\<exists>p. log_vaddr_mappings (MMU_init ex_mmu) 0x44E00000 = Some p \<and> pte_xn p = 1) \<and>
   log_vaddr_mappings (MMU_init ex_mmu) 0x80000000 = None \<and> boot_l1 (MMU_init ex_mmu) ! 0 = 0"
proof -
  have "length (boot_l1 ex_mmu) = 4096" by (simp add: ex_mmu_def)
  note b = boot_table_contents[OF this]
  show ?thesis using b[of "0x44E"] b[of "0x800"] b[of 0] by (auto simp: section_base_def)
qed

text \<open>
  \<^verbatim>\<open>mmu_copy_bootloader_entries\<close> makes the target an exact copy of the boot table, and switching
  the MMU on invalidates the TLB and the instruction cache first, then sets exactly the bits of the
  MMU and the two caches in the control register; switching it off clears exactly these bits.
\<close>

theorem copy_and_enable:
  assumes "length (boot_l1 m) = 4096" "length t = 4096"
  shows "mmu_copy_bootloader_entries m t = boot_l1 m \<and>
    MMU_enable m = m\<lparr>sctlr := sctlr m OR 0x1005, cp15_ops := cp15_ops m @ [TLBIALL, ICIALLU]\<rparr> \<and>
    sctlr (MMU_disable (MMU_enable m)) = sctlr m AND NOT 0x1005"
proof -
  have en: "((sctlr m OR 4) OR 0x1000) OR 1 = sctlr m OR 0x1005" by (simp add: or.assoc)
  have "((w AND NOT 1) AND NOT 4) AND NOT 0x1000 = w AND (NOT 1 AND NOT 4 AND NOT 0x1000)" for w :: u32
    by (simp only: and.assoc)
  then have dis: "((w AND NOT 1) AND NOT 4) AND NOT 0x1000 = w AND NOT 0x1005" for w :: u32
    by simp
  have "(w OR 0x1005) AND NOT 0x1005 = w AND NOT 0x1005" for w :: u32
    by (rule bit_word_eqI) (auto simp: bit_simps)
  then show ?thesis
    using fold_list_update[OF assms(2), of 4096 "\<lambda>i. boot_l1 m ! i"] assms map_nth[of "boot_l1 m"] en dis
    by (simp add: mmu_copy_bootloader_entries_def MMU_enable_def MMU_disable_def mmu_enable_bit_def
        i_cache_enable_def d_cache_enable_def flush_i_cache_def flush_tlb_def i_cache_disable_def
        d_cache_disable_def mmu_disable_def)
qed

theorem copy_and_enable_witness:
  "mmu_copy_bootloader_entries ex_mmu (replicate 4096 0) = replicate 4096 7 \<and>
   sctlr (MMU_enable ex_mmu) = 0x1005"
  using copy_and_enable[of ex_mmu "replicate 4096 0"] by (simp add: ex_mmu_def)

end
