(* ===== verification/Scheduler.thy ===== *)
theory Scheduler
  imports Circular_Buffer
begin

text \<open>
  Processes and scheduling: \<^verbatim>\<open>os/scheduler/scheduler.c\<close>, \<^verbatim>\<open>os/scheduler/scheduler.h\<close> and the context
  switch of \<^verbatim>\<open>os/scheduler/scheduler_asm.S\<close>.

  A \<^verbatim>\<open>process_t*\<close> is an index into \<^verbatim>\<open>scheduler.processes\<close>; the three static ring buffers hold such
  pointers and come from \<^verbatim>\<open>Circular_Buffer\<close>. Addresses fixed by the linker (the process table, the
  task functions) are the fields of \<open>links\<close>. Console messages, the 64 KB stacks and the timer that
  \<^verbatim>\<open>scheduler_init\<close> programs (see the timer driver) are not part of this state. \<open>None\<close> is the endless
  loop of \<^verbatim>\<open>scheduler_init\<close> when no process slot is left, or a NULL idle process.

  The abstract scheduler is a rotation of a list; the C functions refine it through the ring-buffer
  contract, and fairness is proved on the refinement.
\<close>

section \<open>Data\<close>

definition MAX_PROCESSES :: nat where [c_consts]: "MAX_PROCESSES = 32"
definition USER_STACK_SIZE :: u32 where [c_consts]: "USER_STACK_SIZE = 64 * 1024"
definition MODE_System :: u32 where [c_consts]: "MODE_System = 0x1F"
definition I_F_BIT :: u32 where [c_consts]: "I_F_BIT = 0xC0"

datatype process_state_t = UNDEFINED | NEW | READY | RUNNING | BLOCKED | TERMINATED

record process_t =
  registers :: "u32 list"
  stack_pointer :: u32
  link_register :: u32
  cpsr :: u32
  program_counter :: u32
  segment_base :: u32
  current_mode :: u32
  shared_page :: u32
  stack_top :: u32
  proc_name :: "u8 list"
  pid :: u32
  priority :: u32
  proc_state :: process_state_t

record scheduler_t =
  processes :: "process_t list"
  idle_process :: "nat option"
  current_index :: int
  num_processes :: int
  process_ring :: "nat generic_circular_buffer_t"
  free_processes :: "nat generic_circular_buffer_t"
  ready_queue :: "nat generic_circular_buffer_t"
  current_process :: "nat option"
  timer_tick :: u32

record links =
  table_address :: u32
  idle_task :: u32
  P1_task :: u32
  P2_task :: u32
  motor_task_entry :: u32

text \<open>
  \<^verbatim>\<open>&scheduler.processes[i]\<close>: the structure has 65648 bytes, with the stack at offset 80.
\<close>

definition process_address :: "links \<Rightarrow> nat \<Rightarrow> u32" where
  "process_address l i = table_address l + word_of_nat i * 65648"

text \<open>
  Word \<open>i\<close> of the structure. The assembler addresses the saved context this way, and the loop
  \<^verbatim>\<open>for (i = 0; i < 16; i++) proc->registers[i] = i\<close> runs over the end of the 13-word array into the
  three words behind it.
\<close>

definition set_word :: "nat \<Rightarrow> u32 \<Rightarrow> process_t \<Rightarrow> process_t" where
  "set_word i v p =
     (if i < 13 then p\<lparr>registers := (registers p)[i := v]\<rparr>
      else if i = 13 then p\<lparr>stack_pointer := v\<rparr>
      else if i = 14 then p\<lparr>link_register := v\<rparr>
      else if i = 15 then p\<lparr>cpsr := v\<rparr>
      else p\<lparr>program_counter := v\<rparr>)"

definition get_word :: "nat \<Rightarrow> process_t \<Rightarrow> u32" where
  "get_word i p =
     (if i < 13 then registers p ! i else if i = 13 then stack_pointer p
      else if i = 14 then link_register p else if i = 15 then cpsr p else program_counter p)"

definition update_process :: "nat \<Rightarrow> (process_t \<Rightarrow> process_t) \<Rightarrow> scheduler_t \<Rightarrow> scheduler_t" where
  "update_process i f s = s\<lparr>processes := (processes s)[i := f (processes s ! i)]\<rparr>"

section \<open>Operations\<close>

definition scheduler_tick :: "scheduler_t \<Rightarrow> scheduler_t" where
  "scheduler_tick s = s\<lparr>timer_tick := timer_tick s + 1\<rparr>"

text \<open>The copy loop of the kernel's own \<^verbatim>\<open>snprintf\<close>; \<open>None\<close> is a terminator written past the array.\<close>

definition snprintf :: "u8 list \<Rightarrow> u8 list \<Rightarrow> nat \<Rightarrow> u8 list option" where
  "snprintf dest src n =
     (let i = length (takeWhile (\<lambda>c. c \<noteq> 0) (take n src)) in
      if i < length dest then Some (take i src @ [0] @ drop (i + 1) dest) else None)"

definition new_process :: "links \<Rightarrow> u32 \<Rightarrow> nat \<Rightarrow> process_t \<Rightarrow> process_t" where
  "new_process l entry_point i p =
     (let p = p\<lparr>proc_state := NEW, priority := 1, program_counter := entry_point,
                segment_base := process_address l i, current_mode := MODE_System OR I_F_BIT,
                cpsr := MODE_System OR I_F_BIT, shared_page := 0\<rparr>;
          p = foldl (\<lambda>p k. set_word k (word_of_nat k) p) p [0..<16];
          p = p\<lparr>link_register := 0\<rparr>;
          top = process_address l i + 80 + USER_STACK_SIZE
      in p\<lparr>stack_top := top, stack_pointer := top\<rparr>)"

definition process_create :: "links \<Rightarrow> u32 \<Rightarrow> scheduler_t \<Rightarrow> nat option \<times> scheduler_t" where
  "process_create l entry_point s =
     (case generic_circular_buffer_pop (free_processes s) of
        None \<Rightarrow> (None, s)
      | Some (i, q) \<Rightarrow>
          let s = s\<lparr>free_processes := q\<rparr>;
              s = update_process i (new_process l entry_point i) s
          in (Some i, s\<lparr>num_processes := num_processes s + 1\<rparr>))"

definition fresh_slot :: "scheduler_t \<Rightarrow> nat \<Rightarrow> scheduler_t" where
  "fresh_slot s i =
     (let s = update_process i (\<lambda>p. p\<lparr>pid := word_of_nat i, proc_state := UNDEFINED, priority := 0,
                program_counter := 0, stack_pointer := 0, link_register := 0, cpsr := 0\<rparr>) s
      in s\<lparr>free_processes := snd (generic_circular_buffer_push (free_processes s) i)\<rparr>)"

text \<open>The four creations of \<^verbatim>\<open>scheduler_init\<close> differ in what they do with the new process.\<close>

definition create_named :: "links \<Rightarrow> u32 \<Rightarrow> string \<Rightarrow> scheduler_t \<Rightarrow> (nat \<times> scheduler_t) option" where
  "create_named l entry_point name s =
     (case process_create l entry_point s of
        (None, _) \<Rightarrow> None
      | (Some i, s) \<Rightarrow> do {
          name' \<leftarrow> snprintf (proc_name (processes s ! i)) (cstr name) 16;
          let s = update_process i (\<lambda>p. p\<lparr>proc_name := name'\<rparr>) s in
          Some (i, s\<lparr>process_ring := snd (generic_circular_buffer_push (process_ring s) i)\<rparr>) })"

definition create_ready :: "links \<Rightarrow> u32 \<Rightarrow> string \<Rightarrow> scheduler_t \<Rightarrow> scheduler_t option" where
  "create_ready l entry_point name s = do {
     (i, s) \<leftarrow> create_named l entry_point name s;
     Some (s\<lparr>ready_queue := snd (generic_circular_buffer_push (ready_queue s) i),
             num_processes := num_processes s + 1\<rparr>) }"

definition scheduler_init :: "links \<Rightarrow> scheduler_t \<Rightarrow> scheduler_t option" where
  "scheduler_init l s =
     (let s = s\<lparr>current_index := 0, num_processes := 0,
                process_ring := generic_circular_buffer_init (process_ring s),
                free_processes := generic_circular_buffer_init (free_processes s),
                ready_queue := generic_circular_buffer_init (ready_queue s)\<rparr>;
          s = foldl fresh_slot s [0..<MAX_PROCESSES]
      in do {
        (idle, s) \<leftarrow> create_named l (idle_task l) ''Idle Process'' s;
        s \<leftarrow> create_ready l (P1_task l) ''P1'' (s\<lparr>idle_process := Some idle\<rparr>);
        s \<leftarrow> create_ready l (P2_task l) ''P2'' s;
        create_ready l (motor_task_entry l) ''Motor Process'' s
      })"

text \<open>
  \<^verbatim>\<open>scheduler_run\<close> up to the jump into the process it selects: first the interrupted process goes
  back to the queue, then the head of the queue, or the idle process, becomes the running one.
\<close>

definition requeue_current :: "scheduler_t \<Rightarrow> scheduler_t" where
  "requeue_current s =
     (case current_process s of
        Some c \<Rightarrow>
          if Some c \<noteq> idle_process s
          then (let s = update_process c (\<lambda>p. p\<lparr>proc_state := READY\<rparr>) s
                in s\<lparr>ready_queue := snd (generic_circular_buffer_push (ready_queue s) c)\<rparr>)
          else s
      | None \<Rightarrow> s)"

definition scheduler_run :: "scheduler_t \<Rightarrow> scheduler_t option" where
  "scheduler_run s =
     (let s = requeue_current s;
          (next_proc, q) = (case generic_circular_buffer_pop (ready_queue s) of
                              Some (i, q) \<Rightarrow> (Some i, q)
                            | None \<Rightarrow> (idle_process s, ready_queue s))
      in case next_proc of
           None \<Rightarrow> None
         | Some i \<Rightarrow> Some (update_process i (\<lambda>p. p\<lparr>proc_state := RUNNING\<rparr>)
                            (s\<lparr>ready_queue := q, current_process := Some i\<rparr>)))"

section \<open>The context switch\<close>

text \<open>
  The instructions of \<^verbatim>\<open>scheduler_asm.S\<close> that matter, on a processor with sixteen registers and a
  stack of words. The process structure is reached through r0 with word offsets. Processor and
  process are both in System mode, as \<^verbatim>\<open>process_create\<close> intends, so one stack is in use on both
  sides of the write to the status register. \<^verbatim>\<open>Context_Switch\<close> has the same routines as machine code.
\<close>

record cpu =
  regs :: "u32 list"
  status :: u32
  saved_status :: u32
  stack :: "u32 list"
  pc_cache :: u32
  usr_sp_cache :: u32
  irq_lr_cache :: u32
  current_pointer :: u32

datatype instr =
    LDR_current nat
  | LDR_pcb nat nat
  | STR_pcb nat nat
  | PUSH nat
  | POP nat
  | MOV nat nat
  | STR_pc_cache nat
  | LDR_pc_cache nat
  | LDR_usr_sp nat
  | LDR_irq_lr nat
  | MRS_spsr nat
  | BIC_irq nat
  | MSR_cpsr nat

fun exec :: "instr \<Rightarrow> cpu \<times> process_t \<Rightarrow> cpu \<times> process_t" where
  "exec (LDR_current d) (c, p) = (c\<lparr>regs := (regs c)[d := current_pointer c]\<rparr>, p)"
| "exec (LDR_pcb d k) (c, p) = (c\<lparr>regs := (regs c)[d := get_word k p]\<rparr>, p)"
| "exec (STR_pcb d k) (c, p) = (c, set_word k (regs c ! d) p)"
| "exec (PUSH d) (c, p) = (c\<lparr>stack := regs c ! d # stack c\<rparr>, p)"
| "exec (POP d) (c, p) = (c\<lparr>regs := (regs c)[d := hd (stack c)], stack := tl (stack c)\<rparr>, p)"
| "exec (MOV d e) (c, p) = (c\<lparr>regs := (regs c)[d := regs c ! e]\<rparr>, p)"
| "exec (STR_pc_cache d) (c, p) = (c\<lparr>pc_cache := regs c ! d\<rparr>, p)"
| "exec (LDR_pc_cache d) (c, p) = (c\<lparr>regs := (regs c)[d := pc_cache c]\<rparr>, p)"
| "exec (LDR_usr_sp d) (c, p) = (c\<lparr>regs := (regs c)[d := usr_sp_cache c]\<rparr>, p)"
| "exec (LDR_irq_lr d) (c, p) = (c\<lparr>regs := (regs c)[d := irq_lr_cache c]\<rparr>, p)"
| "exec (MRS_spsr d) (c, p) = (c\<lparr>regs := (regs c)[d := saved_status c]\<rparr>, p)"
| "exec (BIC_irq d) (c, p) = (c\<lparr>regs := (regs c)[d := (regs c ! d) AND NOT 0x80]\<rparr>, p)"
| "exec (MSR_cpsr d) (c, p) = (c\<lparr>status := regs c ! d\<rparr>, p)"

definition execute :: "instr list \<Rightarrow> cpu \<times> process_t \<Rightarrow> cpu \<times> process_t" where
  "execute code st = foldl (\<lambda>st i. exec i st) st code"

definition restore_context_asm :: "instr list" where
  "restore_context_asm =
     [LDR_current 0, LDR_pcb 1 16, STR_pc_cache 1, LDR_pcb 1 13, PUSH 1, LDR_pcb 1 14, PUSH 1] @
     concat (map (\<lambda>k. [LDR_pcb 1 k, PUSH 1]) [12, 11, 10, 9, 8, 7, 6, 5, 4, 3, 2, 1, 0]) @
     [LDR_pcb 1 15, BIC_irq 1, MSR_cpsr 1] @
     map POP [0, 1, 2, 3, 4, 5, 6, 7, 8, 9, 10, 11, 12, 14] @ [POP 13, LDR_pc_cache 15]"

definition save_context_asm :: "instr list" where
  "save_context_asm =
     [PUSH 0, PUSH 1, LDR_current 0] @
     concat (map (\<lambda>k. [MOV 1 k, STR_pcb 1 k]) [2, 3, 4, 5, 6, 7, 8, 9, 10, 11, 12]) @
     [LDR_usr_sp 1, STR_pcb 1 13, LDR_irq_lr 1, STR_pcb 1 14, STR_pcb 1 16, MRS_spsr 1, STR_pcb 1 15,
      POP 1, STR_pcb 1 0, POP 1, STR_pcb 1 1]"

section \<open>The abstract scheduler\<close>

text \<open>The running process and the list of those waiting; the idle process never waits.\<close>

fun rr_next :: "nat \<Rightarrow> nat option \<times> nat list \<Rightarrow> nat option \<times> nat list" where
  "rr_next idle (cur, ready) =
     (let ready' = (case cur of Some c \<Rightarrow> if c = idle then ready else ready @ [c] | None \<Rightarrow> ready) in
      case ready' of [] \<Rightarrow> (Some idle, []) | i # rest \<Rightarrow> (Some i, rest))"

definition sched_abs :: "scheduler_t \<Rightarrow> nat option \<times> nat list" where
  "sched_abs s = (current_process s, gcb_list (ready_queue s))"

definition busy :: "nat \<Rightarrow> nat option \<times> nat list \<Rightarrow> nat list" where
  "busy idle a = (case fst a of Some c \<Rightarrow> if c = idle then [] else [c] | None \<Rightarrow> []) @ snd a"

text \<open>
  Well-formedness: the table has 32 slots, the ready queue is a good ring, and the processes waiting
  or running are pairwise different slots other than the idle one.
\<close>

definition sched_ok :: "nat \<Rightarrow> scheduler_t \<Rightarrow> bool" where
  "sched_ok idle s \<longleftrightarrow>
     length (processes s) = 32 \<and> gcb_inv (ready_queue s) \<and> idle_process s = Some idle \<and> idle < 32 \<and>
     distinct (busy idle (sched_abs s)) \<and> set (busy idle (sched_abs s)) \<subseteq> {..<32} - {idle}"

lemma sched_ok_ready_bound:
  assumes "sched_ok idle s"
  shows "length (gcb_list (ready_queue s)) < 512"
proof -
  have d: "distinct (gcb_list (ready_queue s))" "set (gcb_list (ready_queue s)) \<subseteq> {..<32}"
    using assms by (auto simp: sched_ok_def busy_def sched_abs_def)
  have "length (gcb_list (ready_queue s)) \<le> card {..<32::nat}"
    unfolding distinct_card[OF d(1), symmetric] by (intro card_mono d(2)) simp
  then show ?thesis by simp
qed

lemma update_process_simps [simp]:
  "ready_queue (update_process i f s) = ready_queue s" "idle_process (update_process i f s) = idle_process s"
  "current_process (update_process i f s) = current_process s"
  "length (processes (update_process i f s)) = length (processes s)"
  "free_processes (update_process i f s) = free_processes s" "process_ring (update_process i f s) = process_ring s"
  "num_processes (update_process i f s) = num_processes s"
  by (simp_all add: update_process_def)

text \<open>One call of \<^verbatim>\<open>scheduler_run\<close> is one rotation.\<close>

definition requeued :: "nat \<Rightarrow> nat option \<times> nat list \<Rightarrow> nat list" where
  "requeued idle a = (case fst a of Some c \<Rightarrow> if c = idle then snd a else snd a @ [c] | None \<Rightarrow> snd a)"

lemma rr_next_requeued:
  "rr_next idle a = (case requeued idle a of [] \<Rightarrow> (Some idle, []) | i # rest \<Rightarrow> (Some i, rest))"
  by (cases a) (simp add: requeued_def split: option.split)

lemma requeue_current_refines:
  assumes "sched_ok idle s"
  shows "gcb_inv (ready_queue (requeue_current s)) \<and> idle_process (requeue_current s) = Some idle \<and>
    length (processes (requeue_current s)) = 32 \<and>
    gcb_list (ready_queue (requeue_current s)) = requeued idle (sched_abs s)"
proof -
  have inv: "gcb_inv (ready_queue s)" "idle_process s = Some idle" "length (processes s) = 32"
    using assms by (auto simp: sched_ok_def)
  then show ?thesis
    using ptr_fifo.push_room[OF inv(1) sched_ok_ready_bound[OF assms], of "the (current_process s)"]
    by (auto simp: requeue_current_def requeued_def sched_abs_def Let_def split: option.splits)
qed

lemma scheduler_run_refines:
  assumes "sched_ok idle s"
  shows "\<exists>s'. scheduler_run s = Some s' \<and> sched_ok idle s' \<and> sched_abs s' = rr_next idle (sched_abs s)"
proof -
  note r = requeue_current_refines[OF assms]
  have busy: "set (requeued idle (sched_abs s)) = set (busy idle (sched_abs s))"
    "distinct (requeued idle (sched_abs s))"
    using assms by (auto simp: requeued_def busy_def sched_ok_def split: option.splits)
  note nxt = rr_next_requeued[of idle "sched_abs s"]
  show ?thesis
  proof (cases "requeued idle (sched_abs s)")
    case Nil
    then have "generic_circular_buffer_pop (ready_queue (requeue_current s)) = None"
      using r ptr_fifo.pop_empty by auto
    then show ?thesis
      using r Nil nxt assms by (auto simp: scheduler_run_def sched_ok_def sched_abs_def busy_def)
  next
    case (Cons i rest)
    then obtain q where q: "generic_circular_buffer_pop (ready_queue (requeue_current s)) = Some (i, q)"
        "gcb_inv q" "gcb_list q = rest"
      using r ptr_fifo.pop_cons by metis
    have b: "i \<notin> set rest" "distinct rest" "set (i # rest) \<subseteq> {..<32} - {idle}" "idle < 32"
      using busy Cons assms by (auto simp: sched_ok_def)
    define s' where "s' = update_process i (\<lambda>p. p\<lparr>proc_state := RUNNING\<rparr>)
      ((requeue_current s)\<lparr>ready_queue := q, current_process := Some i\<rparr>)"
    have "scheduler_run s = Some s'" using q(1) by (simp add: scheduler_run_def s'_def)
    moreover have "sched_abs s' = (Some i, rest)" using q(3) by (simp add: s'_def sched_abs_def)
    moreover have "sched_ok idle s'"
      using r q(2,3) b by (simp add: s'_def sched_ok_def sched_abs_def busy_def)
    ultimately show ?thesis using nxt Cons by simp
  qed
qed

section \<open>Rotation\<close>

fun run_times :: "nat \<Rightarrow> scheduler_t \<Rightarrow> scheduler_t option" where
  "run_times 0 s = Some s"
| "run_times (Suc n) s = Option.bind (run_times n s) scheduler_run"

lemma run_times_refines:
  assumes "sched_ok idle s"
  shows "\<exists>s'. run_times n s = Some s' \<and> sched_ok idle s' \<and> sched_abs s' = (rr_next idle ^^ n) (sched_abs s)"
  using assms
proof (induction n)
  case (Suc n)
  then obtain s1 where "run_times n s = Some s1" "sched_ok idle s1" "sched_abs s1 = (rr_next idle ^^ n) (sched_abs s)"
    by blast
  then show ?case using scheduler_run_refines[of idle s1] by auto
qed simp

lemma rr_rotation:
  assumes "idle \<notin> set (c # xs)"
  shows "(rr_next idle ^^ n) (Some c, xs) = (Some (hd (rotate n (c # xs))), tl (rotate n (c # xs)))"
proof (induction n)
  case (Suc n)
  obtain d ys where r: "rotate n (c # xs) = d # ys" by (cases "rotate n (c # xs)") auto
  then have "d \<noteq> idle" using assms by (metis list.set_intros(1) set_rotate)
  then show ?case using Suc r by (cases ys) (simp_all add: rotate_def)
qed simp

section \<open>The state after initialisation\<close>

definition names_ok :: "process_t list \<Rightarrow> bool" where
  "names_ok ps \<longleftrightarrow> length ps = 32 \<and> (\<forall>p \<in> set ps. length (proc_name p) = 16 \<and> length (registers p) = 13)"

definition boot_ok :: "scheduler_t \<Rightarrow> bool" where
  "boot_ok s \<longleftrightarrow> names_ok (processes s) \<and> gcb_array_ok (process_ring s) \<and> gcb_array_ok (free_processes s) \<and>
     gcb_array_ok (ready_queue s)"

lemma names_ok_update:
  assumes "names_ok ps" "length (proc_name p) = 16" "length (registers p) = 13"
  shows "names_ok (ps[i := p])"
  using assms set_update_subset_insert[of ps i p] by (auto simp: names_ok_def)

lemma names_ok_nth: "names_ok ps \<Longrightarrow> i < 32 \<Longrightarrow> length (proc_name (ps ! i)) = 16 \<and> length (registers (ps ! i)) = 13"
  by (simp add: names_ok_def)

lemma fresh_slots:
  assumes "names_ok (processes s)" "gcb_inv (free_processes s)" "gcb_list (free_processes s) = []" "k \<le> 32"
  shows "\<exists>ps q. foldl fresh_slot s [0..<k] = s\<lparr>processes := ps, free_processes := q\<rparr> \<and> names_ok ps \<and>
    gcb_inv q \<and> gcb_list q = [0..<k] \<and> (\<forall>i < k. proc_state (ps ! i) = UNDEFINED \<and> pid (ps ! i) = word_of_nat i)"
  using assms(4)
proof (induction k)
  case 0
  then show ?case using assms by (intro exI[of _ "processes s"] exI[of _ "free_processes s"]) simp
next
  case (Suc k)
  then obtain ps q where IH: "foldl fresh_slot s [0..<k] = s\<lparr>processes := ps, free_processes := q\<rparr>" "names_ok ps"
      "gcb_inv q" "gcb_list q = [0..<k]" "\<forall>i < k. proc_state (ps ! i) = UNDEFINED \<and> pid (ps ! i) = word_of_nat i"
    by auto
  obtain q' where q': "generic_circular_buffer_push q k = (True, q')" "gcb_inv q'" "gcb_list q' = [0..<k] @ [k]"
    using ptr_fifo.push_room[OF IH(3), of k] IH(4) Suc.prems by auto
  define p where "p = (ps ! k)\<lparr>pid := word_of_nat k, proc_state := UNDEFINED, priority := 0,
     program_counter := 0, stack_pointer := 0, link_register := 0, cpsr := 0\<rparr>"
  have "names_ok (ps[k := p])"
    using names_ok_nth[OF IH(2), of k] Suc.prems by (intro names_ok_update[OF IH(2)]) (simp_all add: p_def)
  moreover have "foldl fresh_slot s [0..<Suc k] = s\<lparr>processes := ps[k := p], free_processes := q'\<rparr>"
    by (simp add: IH(1) fresh_slot_def update_process_def Let_def q'(1) p_def)
  moreover have "\<forall>i < Suc k. proc_state (ps[k := p] ! i) = UNDEFINED \<and> pid (ps[k := p] ! i) = word_of_nat i"
    using IH(2,5) Suc.prems by (auto simp: less_Suc_eq nth_list_update p_def names_ok_def)
  ultimately show ?case using q' by (intro exI[of _ "ps[k := p]"] exI[of _ q']) simp
qed

lemma new_process_fields:
  assumes "length (registers p) = 13"
  shows "registers (new_process l e i p) = map word_of_nat [0..<13]" "cpsr (new_process l e i p) = 15"
    "program_counter (new_process l e i p) = e" "link_register (new_process l e i p) = 0"
    "stack_pointer (new_process l e i p) = process_address l i + 80 + USER_STACK_SIZE"
    "proc_state (new_process l e i p) = NEW" "pid (new_process l e i p) = pid p"
    "proc_name (new_process l e i p) = proc_name p"
proof -
  have "foldl (\<lambda>p k. set_word k (word_of_nat k) p) q [0..<16] =
      q\<lparr>registers := map word_of_nat [0..<13], stack_pointer := 13, link_register := 14, cpsr := 15\<rparr>"
    if "length (registers q) = 13" for q
  proof -
    have r: "foldl (\<lambda>p k. set_word k (word_of_nat k) p) q [0..<n] =
        q\<lparr>registers := foldl (\<lambda>t k. t[k := word_of_nat k]) (registers q) [0..<n]\<rparr>" if "n \<le> 13" for n
      using that by (induction n) (simp_all add: set_word_def)
    have "[0..<16] = [0..<13] @ [13, 14, 15]" by (simp add: upt_rec)
    then show ?thesis
      using r[of 13] fold_list_update[OF that, of 13 word_of_nat] that by (simp add: set_word_def)
  qed
  then show "registers (new_process l e i p) = map word_of_nat [0..<13]" "cpsr (new_process l e i p) = 15"
    "program_counter (new_process l e i p) = e" "link_register (new_process l e i p) = 0"
    "stack_pointer (new_process l e i p) = process_address l i + 80 + USER_STACK_SIZE"
    "proc_state (new_process l e i p) = NEW" "pid (new_process l e i p) = pid p"
    "proc_name (new_process l e i p) = proc_name p"
    using assms by (simp_all add: new_process_def Let_def)
qed

definition created :: "links \<Rightarrow> u32 \<Rightarrow> string \<Rightarrow> nat \<Rightarrow> process_t \<Rightarrow> process_t" where
  "created l e name i p =
     (new_process l e i p)\<lparr>proc_name := cstr name @ [0] @ drop (length name + 1) (proc_name p)\<rparr>"

lemma created_fields:
  assumes "length (registers p) = 13" "length (proc_name p) = 16" "length name < 16"
  shows "length (registers (created l e name i p)) = 13" "length (proc_name (created l e name i p)) = 16"
    "program_counter (created l e name i p) = e" "proc_state (created l e name i p) = NEW"
    "cpsr (created l e name i p) = 15" "pid (created l e name i p) = pid p"
  using assms new_process_fields[OF assms(1)] by (simp_all add: created_def)

text \<open>A creation takes the first free slot and leaves every other slot and queue alone.\<close>

lemma create_named_step:
  assumes "names_ok (processes s)" "gcb_inv (free_processes s)" "gcb_list (free_processes s) = i # rest" "i < 32"
    and "gcb_inv (process_ring s)" "length (gcb_list (process_ring s)) < 512"
    and "length name < 16" "0 \<notin> set (cstr name)"
  shows "\<exists>q r. create_named l e name s = Some (i, s\<lparr>processes := (processes s)[i := created l e name i (processes s ! i)],
        free_processes := q, num_processes := num_processes s + 1, process_ring := r\<rparr>) \<and>
      gcb_inv q \<and> gcb_list q = rest \<and> gcb_inv r \<and> gcb_list r = gcb_list (process_ring s) @ [i] \<and>
      names_ok ((processes s)[i := created l e name i (processes s ! i)])"
proof -
  obtain q where q: "generic_circular_buffer_pop (free_processes s) = Some (i, q)" "gcb_inv q" "gcb_list q = rest"
    using ptr_fifo.pop_cons[OF assms(2,3)] by blast
  obtain r where r: "generic_circular_buffer_push (process_ring s) i = (True, r)" "gcb_inv r"
      "gcb_list r = gcb_list (process_ring s) @ [i]"
    using ptr_fifo.push_room[OF assms(5,6)] by blast
  have p: "length (proc_name (processes s ! i)) = 16" "length (registers (processes s ! i)) = 13"
    using names_ok_nth[OF assms(1,4)] by auto
  have tw: "takeWhile (\<lambda>c. c \<noteq> 0) (cstr name) = cstr name" using assms(8) by (auto simp: takeWhile_eq_all_conv)
  have "snprintf (proc_name (new_process l e i (processes s ! i))) (cstr name) 16 =
      Some (cstr name @ [0] @ drop (length name + 1) (proc_name (processes s ! i)))"
    using assms(7) p new_process_fields(8)[OF p(2)] by (simp add: snprintf_def Let_def tw)
  moreover have "i < length (processes s)" using assms(1,4) by (simp add: names_ok_def)
  moreover have "names_ok ((processes s)[i := created l e name i (processes s ! i)])"
    using assms(7) p created_fields by (intro names_ok_update[OF assms(1)]) auto
  ultimately show ?thesis
    using q r by (intro exI[of _ q] exI[of _ r])
      (simp add: create_named_def process_create_def update_process_def Let_def created_def)
qed

definition after_init :: "links \<Rightarrow> scheduler_t \<Rightarrow> bool" where
  "after_init l s \<longleftrightarrow> idle_process s = Some 0 \<and> length (processes s) = 32 \<and>
     gcb_inv (ready_queue s) \<and> gcb_list (ready_queue s) = [1, 2, 3] \<and>
     gcb_inv (free_processes s) \<and> gcb_list (free_processes s) = [4..<32] \<and>
     gcb_inv (process_ring s) \<and> gcb_list (process_ring s) = [0, 1, 2, 3] \<and>
     map (\<lambda>i. program_counter (processes s ! i)) [0, 1, 2, 3] = [idle_task l, P1_task l, P2_task l, motor_task_entry l] \<and>
     (\<forall>i < 32. proc_state (processes s ! i) = (if i < 4 then NEW else UNDEFINED) \<and> pid (processes s ! i) = word_of_nat i) \<and>
     (\<forall>i < 4. cpsr (processes s ! i) = 15)"

lemma create_ready_step:
  assumes "names_ok (processes s)" "gcb_inv (free_processes s)" "gcb_list (free_processes s) = i # rest" "i < 32"
    and "gcb_inv (process_ring s)" "length (gcb_list (process_ring s)) < 512"
    and "gcb_inv (ready_queue s)" "length (gcb_list (ready_queue s)) < 512"
    and "length name < 16" "0 \<notin> set (cstr name)"
  shows "\<exists>q r y. create_ready l e name s = Some (s\<lparr>processes := (processes s)[i := created l e name i (processes s ! i)],
        free_processes := q, num_processes := num_processes s + 2, process_ring := r, ready_queue := y\<rparr>) \<and>
      gcb_inv q \<and> gcb_list q = rest \<and> gcb_inv r \<and> gcb_list r = gcb_list (process_ring s) @ [i] \<and>
      gcb_inv y \<and> gcb_list y = gcb_list (ready_queue s) @ [i] \<and>
      names_ok ((processes s)[i := created l e name i (processes s ! i)])"
proof -
  obtain y where y: "generic_circular_buffer_push (ready_queue s) i = (True, y)" "gcb_inv y"
      "gcb_list y = gcb_list (ready_queue s) @ [i]"
    using ptr_fifo.push_room[OF assms(7,8)] by blast
  obtain q r where c: "create_named l e name s = Some (i, s\<lparr>processes := (processes s)[i := created l e name i (processes s ! i)],
        free_processes := q, num_processes := num_processes s + 1, process_ring := r\<rparr>)"
      "gcb_inv q" "gcb_list q = rest" "gcb_inv r" "gcb_list r = gcb_list (process_ring s) @ [i]"
      "names_ok ((processes s)[i := created l e name i (processes s ! i)])"
    using create_named_step[OF assms(1-6,9,10)] by blast
  then show ?thesis using y by (intro exI[of _ q] exI[of _ r] exI[of _ y]) (simp add: create_ready_def)
qed

lemma scheduler_init_ok:
  assumes "boot_ok s"
  shows "\<exists>s'. scheduler_init l s = Some s' \<and> after_init l s' \<and> num_processes s' = 7 \<and>
    current_process s' = current_process s \<and> timer_tick s' = timer_tick s"
proof -
  define s0 where "s0 = s\<lparr>current_index := 0, num_processes := 0,
     process_ring := generic_circular_buffer_init (process_ring s),
     free_processes := generic_circular_buffer_init (free_processes s),
     ready_queue := generic_circular_buffer_init (ready_queue s)\<rparr>"
  have b: "names_ok (processes s0)" "gcb_inv (process_ring s0)" "gcb_list (process_ring s0) = []"
      "gcb_inv (free_processes s0)" "gcb_list (free_processes s0) = []"
      "gcb_inv (ready_queue s0)" "gcb_list (ready_queue s0) = []"
    using assms ptr_fifo.inv_init ptr_fifo.contents_init by (auto simp: boot_ok_def s0_def)
  obtain ps q where f: "foldl fresh_slot s0 [0..<32] = s0\<lparr>processes := ps, free_processes := q\<rparr>" "names_ok ps"
      "gcb_inv q" "gcb_list q = [0..<32]" "\<forall>i < 32. proc_state (ps ! i) = UNDEFINED \<and> pid (ps ! i) = word_of_nat i"
    using fresh_slots[OF b(1,4,5), of 32] by auto
  have u: "[0..<32] = 0 # [1..<32]" "[1..<32] = 1 # [2..<32]" "[2..<32] = 2 # [3..<32]" "[3..<32] = 3 # [4..<32::nat]"
    by (simp_all add: upt_rec)
  let ?c = "\<lambda>e name i. created l e name i (ps ! i)"
  define s1 where "s1 = s0\<lparr>processes := ps, free_processes := q\<rparr>"
  define ps1 where "ps1 = ps[0 := ?c (idle_task l) ''Idle Process'' 0]"
  obtain q1 r1 where c1: "create_named l (idle_task l) ''Idle Process'' s1 =
        Some (0, s1\<lparr>processes := ps1, free_processes := q1, num_processes := 1, process_ring := r1\<rparr>)"
      "gcb_inv q1" "gcb_list q1 = [1..<32]" "gcb_inv r1" "gcb_list r1 = [0]" "names_ok ps1"
    using create_named_step[of s1 0 "[1..<32]" "''Idle Process''" l "idle_task l"] f b u(1)
    by (auto simp: s1_def ps1_def s0_def)
  define s2 where "s2 = s1\<lparr>processes := ps1, free_processes := q1, num_processes := 1, process_ring := r1, idle_process := Some 0\<rparr>"
  define ps2 where "ps2 = ps1[1 := ?c (P1_task l) ''P1'' 1]"
  obtain q2 r2 y2 where c2: "create_ready l (P1_task l) ''P1'' s2 =
        Some (s2\<lparr>processes := ps2, free_processes := q2, num_processes := 3, process_ring := r2, ready_queue := y2\<rparr>)"
      "gcb_inv q2" "gcb_list q2 = [2..<32]" "gcb_inv r2" "gcb_list r2 = [0, 1]" "gcb_inv y2" "gcb_list y2 = [1]" "names_ok ps2"
    using create_ready_step[of s2 1 "[2..<32]" "''P1''" l "P1_task l"] c1 b u(2)
    by (auto simp: s2_def s1_def ps2_def ps1_def s0_def)
  define s3 where "s3 = s2\<lparr>processes := ps2, free_processes := q2, num_processes := 3, process_ring := r2, ready_queue := y2\<rparr>"
  define ps3 where "ps3 = ps2[2 := ?c (P2_task l) ''P2'' 2]"
  obtain q3 r3 y3 where c3: "create_ready l (P2_task l) ''P2'' s3 =
        Some (s3\<lparr>processes := ps3, free_processes := q3, num_processes := 5, process_ring := r3, ready_queue := y3\<rparr>)"
      "gcb_inv q3" "gcb_list q3 = [3..<32]" "gcb_inv r3" "gcb_list r3 = [0, 1, 2]" "gcb_inv y3" "gcb_list y3 = [1, 2]" "names_ok ps3"
    using create_ready_step[of s3 2 "[3..<32]" "''P2''" l "P2_task l"] c2 b u(3)
    by (auto simp: s3_def ps3_def ps2_def ps1_def)
  define s4 where "s4 = s3\<lparr>processes := ps3, free_processes := q3, num_processes := 5, process_ring := r3, ready_queue := y3\<rparr>"
  define ps4 where "ps4 = ps3[3 := ?c (motor_task_entry l) ''Motor Process'' 3]"
  obtain q4 r4 y4 where c4: "create_ready l (motor_task_entry l) ''Motor Process'' s4 =
        Some (s4\<lparr>processes := ps4, free_processes := q4, num_processes := 7, process_ring := r4, ready_queue := y4\<rparr>)"
      "gcb_inv q4" "gcb_list q4 = [4..<32]" "gcb_inv r4" "gcb_list r4 = [0, 1, 2, 3]" "gcb_inv y4" "gcb_list y4 = [1, 2, 3]" "names_ok ps4"
    using create_ready_step[of s4 3 "[4..<32]" "''Motor Process''" l "motor_task_entry l"] c3 b u(4)
    by (auto simp: s4_def ps4_def ps3_def ps2_def ps1_def)
  let ?s = "s4\<lparr>processes := ps4, free_processes := q4, num_processes := 7, process_ring := r4, ready_queue := y4\<rparr>"
  have run: "scheduler_init l s = Some ?s"
    using f(1) c1(1) c2(1) c3(1) c4(1)
    by (simp add: scheduler_init_def Let_def c_consts s4_def s3_def s2_def s1_def flip: s0_def)
  have len: "length ps = 32" using f(2) by (simp add: names_ok_def)
  have cf: "program_counter (created l e nm i (ps ! i)) = e \<and> proc_state (created l e nm i (ps ! i)) = NEW \<and>
      pid (created l e nm i (ps ! i)) = word_of_nat i \<and> cpsr (created l e nm i (ps ! i)) = 15"
    if "i < 32" "length nm < 16" for e nm i
    using created_fields[of "ps ! i" nm l e i] names_ok_nth[OF f(2) that(1)] f(5) that by simp
  have st: "proc_state (ps4 ! i) = (if i < 4 then NEW else UNDEFINED) \<and> pid (ps4 ! i) = word_of_nat i" if "i < 32" for i
  proof -
    consider "i = 0" | "i = 1" | "i = 2" | "i = 3" | "4 \<le> i" by linarith
    then show ?thesis
      using cf f(5) len that by cases (simp_all add: ps4_def ps3_def ps2_def ps1_def nth_list_update)
  qed
  have "cpsr (ps4 ! i) = 15" if i4: "i < 4" for i
  proof -
    consider "i = 0" | "i = 1" | "i = 2" | "i = 3" using i4 by linarith
    then show ?thesis using cf len by cases (simp_all add: ps4_def ps3_def ps2_def ps1_def nth_list_update)
  qed
  moreover have "map (\<lambda>i. program_counter (ps4 ! i)) [0, 1, 2, 3] = [idle_task l, P1_task l, P2_task l, motor_task_entry l]"
    using cf len by (simp add: ps4_def ps3_def ps2_def ps1_def nth_list_update)
  ultimately have "after_init l ?s"
    using c4(2-8) st by (simp add: after_init_def s4_def s3_def s2_def names_ok_def)
  moreover have "current_process ?s = current_process s" "timer_tick ?s = timer_tick s"
    by (simp_all add: s4_def s3_def s2_def s1_def s0_def)
  ultimately show ?thesis using run by auto
qed

section \<open>Reachable states\<close>

text \<open>
  From boot on: the timer tick, a context saved into the running process's structure, and a call of
  \<^verbatim>\<open>scheduler_run\<close> from the yield or interrupt path, in any order.
\<close>

inductive sched_reachable :: "links \<Rightarrow> scheduler_t \<Rightarrow> bool" for l where
  boot: "boot_ok s0 \<Longrightarrow> current_process s0 = None \<Longrightarrow> scheduler_init l s0 = Some s \<Longrightarrow> sched_reachable l s"
| tick: "sched_reachable l s \<Longrightarrow> sched_reachable l (scheduler_tick s)"
| save: "sched_reachable l s \<Longrightarrow> current_process s = Some c \<Longrightarrow>
    sched_reachable l (update_process c (\<lambda>p. snd (execute save_context_asm (cpu0, p))) s)"
| run: "sched_reachable l s \<Longrightarrow> scheduler_run s = Some s' \<Longrightarrow> sched_reachable l s'"

definition sched_inv :: "scheduler_t \<Rightarrow> bool" where
  "sched_inv s \<longleftrightarrow> sched_ok 0 s \<and> current_process s \<noteq> Some 0 \<and> set (busy 0 (sched_abs s)) = {1, 2, 3} \<and>
     (\<forall>i < 32. proc_state (processes s ! i) = RUNNING \<longleftrightarrow> current_process s = Some i)"

lemma exec_proc_state: "proc_state (snd (exec i st)) = proc_state (snd st)"
  by (cases "(i, st)" rule: exec.cases) (auto simp: set_word_def)

lemma execute_proc_state: "proc_state (snd (execute code st)) = proc_state (snd st)"
  unfolding execute_def by (induction code arbitrary: st) (simp_all add: exec_proc_state)

lemma sched_inv_init: "after_init l s \<Longrightarrow> current_process s = None \<Longrightarrow> sched_inv s"
  by (auto simp: after_init_def sched_inv_def sched_ok_def sched_abs_def busy_def)

lemma scheduler_run_form:
  assumes "scheduler_run s = Some s'"
  shows "\<exists>j q. update_process j (\<lambda>p. p\<lparr>proc_state := RUNNING\<rparr>)
    ((requeue_current s)\<lparr>ready_queue := q, current_process := Some j\<rparr>) = s'"
proof (cases "generic_circular_buffer_pop (ready_queue (requeue_current s))")
  case None
  with assms obtain j where "idle_process (requeue_current s) = Some j"
    by (cases "idle_process (requeue_current s)") (simp_all add: scheduler_run_def)
  with None assms show ?thesis
    by (intro exI[of _ j] exI[of _ "ready_queue (requeue_current s)"]) (simp add: scheduler_run_def)
next
  case (Some iq)
  with assms show ?thesis by (intro exI[of _ "fst iq"] exI[of _ "snd iq"]) (cases iq; auto simp: scheduler_run_def)
qed

text \<open>The scheduler leaves saved contexts alone.\<close>

lemma nth_update_same:
  assumes "\<And>p. g (f p) = g p" "j < length xs"
  shows "g (xs[i := f (xs ! i)] ! j) = g (xs ! j)"
  using assms by (cases "i = j") simp_all

lemma update_process_word:
  assumes "\<And>p. g (f p) = g p" "j < length (processes sc)"
  shows "g (processes (update_process i f sc) ! j) = g (processes sc ! j)"
  using nth_update_same[of g f, OF assms] by (simp add: update_process_def)

lemma get_word_state: "get_word k (p\<lparr>proc_state := v\<rparr>) = get_word k p"
  by (simp add: get_word_def)

lemma requeue_current_word:
  assumes "\<And>p v. g (p\<lparr>proc_state := v\<rparr>) = g p" "j < length (processes sc)"
  shows "g (processes (requeue_current sc) ! j) = g (processes sc ! j)"
    "length (processes (requeue_current sc)) = length (processes sc)"
  using update_process_word[of g "\<lambda>p. p\<lparr>proc_state := READY\<rparr>" j sc, OF assms]
  by (simp_all add: requeue_current_def Let_def split: option.split)

lemma scheduler_run_word:
  assumes "scheduler_run sc = Some sc'" "j < length (processes sc)"
  shows "get_word k (processes sc' ! j) = get_word k (processes sc ! j)"
    "length (registers (processes sc' ! j)) = length (registers (processes sc ! j))"
proof -
  obtain i q where f: "update_process i (\<lambda>p. p\<lparr>proc_state := RUNNING\<rparr>)
      ((requeue_current sc)\<lparr>ready_queue := q, current_process := Some i\<rparr>) = sc'" using scheduler_run_form[OF assms(1)] by blast
  have "g (processes sc' ! j) = g (processes sc ! j)" if g: "\<And>p v. g (p\<lparr>proc_state := v\<rparr>) = g p" for g :: "process_t \<Rightarrow> 'a"
    unfolding f[symmetric] using requeue_current_word[of g, OF g assms(2)] assms(2) g
    by (subst update_process_word[of g]) simp_all
  from this[of "get_word k"] this[of "\<lambda>p. length (registers p)"]
  show "get_word k (processes sc' ! j) = get_word k (processes sc ! j)"
    "length (registers (processes sc' ! j)) = length (registers (processes sc ! j))" by (simp_all add: get_word_state)
qed

lemma sched_inv_run:
  assumes "sched_inv s" "scheduler_run s = Some s'"
  shows "sched_inv s'"
proof -
  have ok: "sched_ok 0 s" and b: "set (busy 0 (sched_abs s)) = {1, 2, 3}" using assms(1) by (auto simp: sched_inv_def)
  obtain ok': "sched_ok 0 s'" and abs': "sched_abs s' = rr_next 0 (sched_abs s)"
    using scheduler_run_refines[OF ok] assms(2) by auto
  have "set (requeued 0 a) = set (busy 0 a)" for a by (auto simp: requeued_def busy_def split: option.split)
  then have rset: "set (requeued 0 (sched_abs s)) = {1, 2, 3}" using b by simp
  then obtain i rest where r: "requeued 0 (sched_abs s) = i # rest" by (cases "requeued 0 (sched_abs s)") auto
  then have i: "i \<in> {1, 2, 3}" "set (i # rest) = {1, 2, 3}" using rset by auto
  have "rr_next 0 (sched_abs s) = (Some i, rest)"
    using r by (simp add: rr_next_requeued)
  then have a: "sched_abs s' = (Some i, rest)" using abs' by simp
  then have cur: "current_process s' = Some i" by (simp add: sched_abs_def)
  have "i \<noteq> 0" using i(1) by auto
  then have bset: "set (busy 0 (sched_abs s')) = {1, 2, 3}" unfolding a busy_def using i(2) by simp
  have "\<exists>j. current_process s' = Some j \<and> processes s' =
      (processes (requeue_current s))[j := (processes (requeue_current s) ! j)\<lparr>proc_state := RUNNING\<rparr>]"
    using scheduler_run_form[OF assms(2)] by (auto simp: update_process_def)
  then have ps: "processes s' = (processes (requeue_current s))[i := (processes (requeue_current s) ! i)\<lparr>proc_state := RUNNING\<rparr>]"
    using cur by auto
  have len: "length (processes s) = 32" "length (processes (requeue_current s)) = 32"
    using ok requeue_current_refines[OF ok] by (auto simp: sched_ok_def)
  have "proc_state (processes (requeue_current s) ! k) \<noteq> RUNNING" if "k < 32" for k
    using assms(1) that len(1)
    by (auto simp: requeue_current_def sched_inv_def sched_ok_def update_process_def nth_list_update Let_def split: option.splits)
  then have "proc_state (processes s' ! k) = RUNNING \<longleftrightarrow> current_process s' = Some k" if "k < 32" for k
    using that cur len(2) by (cases "k = i") (auto simp: ps)
  then show ?thesis using ok' bset cur i(1) by (auto simp: sched_inv_def)
qed

lemma reachable_inv: "sched_reachable l s \<Longrightarrow> sched_inv s"
proof (induction rule: sched_reachable.induct)
  case (boot s0 s)
  then show ?case using scheduler_init_ok[OF boot(1), of l] sched_inv_init by auto
next
  case (tick s)
  then show ?case by (simp add: sched_inv_def sched_ok_def sched_abs_def scheduler_tick_def)
next
  case (save s c cpu0)
  then show ?case
    by (auto simp: sched_inv_def sched_ok_def sched_abs_def update_process_def nth_list_update execute_proc_state)
next
  case (run s s')
  then show ?case using sched_inv_run by blast
qed

section \<open>What the context switch does\<close>

lemma execute_append: "execute (a @ b) st = execute b (execute a st)"
  by (simp add: execute_def)

lemma execute_Cons: "execute (i # is) st = execute is (exec i st)"
  by (simp add: execute_def)

lemma execute_Nil: "execute [] st = st"
  by (simp add: execute_def)

text \<open>Sixteen registers, by name.\<close>

lemma regs16:
  assumes "length xs = 16"
  shows "\<exists>a0 a1 a2 a3 a4 a5 a6 a7 a8 a9 a10 a11 a12 a13 a14 a15.
    xs = [a0, a1, a2, a3, a4, a5, a6, a7, a8, a9, a10, a11, a12, a13, a14, a15]"
  using assms by (auto simp: eval_nat_numeral length_Suc_conv)

lemma regs13:
  assumes "length xs = 13"
  shows "\<exists>a0 a1 a2 a3 a4 a5 a6 a7 a8 a9 a10 a11 a12. xs = [a0, a1, a2, a3, a4, a5, a6, a7, a8, a9, a10, a11, a12]"
  using assms by (auto simp: eval_nat_numeral length_Suc_conv)

lemma restore_effect:
  assumes "length (regs c) = 16" "length (registers p) = 13"
  shows "\<exists>k. execute restore_context_asm (c, p) =
    (c\<lparr>regs := registers p @ [stack_pointer p, link_register p, program_counter p],
       status := cpsr p AND NOT 0x80, pc_cache := k\<rparr>, p)"
proof -
  obtain a0 a1 a2 a3 a4 a5 a6 a7 a8 a9 a10 a11 a12 a13 a14 a15 where
    r: "regs c = [a0, a1, a2, a3, a4, a5, a6, a7, a8, a9, a10, a11, a12, a13, a14, a15]" using regs16[OF assms(1)] by auto
  obtain b0 b1 b2 b3 b4 b5 b6 b7 b8 b9 b10 b11 b12 where
    q: "registers p = [b0, b1, b2, b3, b4, b5, b6, b7, b8, b9, b10, b11, b12]" using regs13[OF assms(2)] by auto
  show ?thesis
    by (intro exI[of _ "program_counter p"])
     (simp add: restore_context_asm_def execute_Cons execute_Nil r q get_word_def)
qed

lemma save_effect:
  assumes "length (regs c) = 16" "length (registers p) = 13"
  shows "snd (execute save_context_asm (c, p)) =
    p\<lparr>registers := [regs c ! 1, regs c ! 0] @ drop 2 (take 13 (regs c)), stack_pointer := usr_sp_cache c,
      link_register := irq_lr_cache c, cpsr := saved_status c, program_counter := irq_lr_cache c\<rparr>"
proof -
  obtain a0 a1 a2 a3 a4 a5 a6 a7 a8 a9 a10 a11 a12 a13 a14 a15 where
    r: "regs c = [a0, a1, a2, a3, a4, a5, a6, a7, a8, a9, a10, a11, a12, a13, a14, a15]" using regs16[OF assms(1)] by auto
  obtain b0 b1 b2 b3 b4 b5 b6 b7 b8 b9 b10 b11 b12 where
    q: "registers p = [b0, b1, b2, b3, b4, b5, b6, b7, b8, b9, b10, b11, b12]" using regs13[OF assms(2)] by auto
  show ?thesis
    by (simp add: save_context_asm_def execute_Cons execute_Nil r q set_word_def)
qed

section \<open>Properties\<close>

definition ex_links :: links where
  "ex_links = \<lparr>table_address = 0x82000000, idle_task = 0x1000, P1_task = 0x2000, P2_task = 0x3000, motor_task_entry = 0x4000\<rparr>"

definition ex_process :: process_t where
  "ex_process = \<lparr>registers = replicate 13 0, stack_pointer = 0, link_register = 0, cpsr = 0, program_counter = 0,
     segment_base = 0, current_mode = 0, shared_page = 0, stack_top = 0, proc_name = replicate 16 0, pid = 0,
     priority = 0, proc_state = UNDEFINED\<rparr>"

definition ex_sched :: scheduler_t where
  "ex_sched = \<lparr>processes = replicate 32 ex_process, idle_process = None, current_index = 0, num_processes = 0,
     process_ring = gcb_example, free_processes = gcb_example, ready_queue = gcb_example,
     current_process = None, timer_tick = 0\<rparr>"

lemma ex_sched_boot: "boot_ok ex_sched" "current_process ex_sched = None"
  by (auto simp: boot_ok_def ex_sched_def names_ok_def ex_process_def gcb_array_ok_def gcb_example_def
      generic_circular_buffer_init_def)

lemma ex_sched_init: "\<exists>s. scheduler_init ex_links ex_sched = Some s \<and> after_init ex_links s \<and> current_process s = None"
  using scheduler_init_ok[OF ex_sched_boot(1), of ex_links] ex_sched_boot(2) by auto

text \<open>
  \<^verbatim>\<open>scheduler_init\<close> always completes: slot 0 becomes the idle process, slots 1, 2 and 3 run P1, P2 and
  the motor task and wait in the ready queue in that order, the other 28 slots stay free, and every
  process keeps its slot number as pid. The count \<^verbatim>\<open>num_processes\<close> is 7, not 4: \<^verbatim>\<open>process_create\<close> and
  \<^verbatim>\<open>scheduler_init\<close> both add the three ready processes.
\<close>

theorem scheduler_init_result:
  assumes "boot_ok s"
  shows "\<exists>s'. scheduler_init l s = Some s' \<and> idle_process s' = Some 0 \<and>
    gcb_list (ready_queue s') = [1, 2, 3] \<and> gcb_list (free_processes s') = [4..<32] \<and> num_processes s' = 7 \<and>
    map (\<lambda>i. program_counter (processes s' ! i)) [0, 1, 2, 3] = [idle_task l, P1_task l, P2_task l, motor_task_entry l] \<and>
    (\<forall>i < 32. proc_state (processes s' ! i) = (if i < 4 then NEW else UNDEFINED) \<and> pid (processes s' ! i) = word_of_nat i)"
  using scheduler_init_ok[OF assms, of l] by (auto simp: after_init_def)

theorem scheduler_init_result_witness:
  "\<exists>s'. scheduler_init ex_links ex_sched = Some s' \<and> gcb_list (ready_queue s') = [1, 2, 3] \<and> num_processes s' = 7"
  using scheduler_init_result[OF ex_sched_boot(1), of ex_links] by auto

text \<open>
  \<^verbatim>\<open>scheduler_run\<close> refines the rotation of a list: in every well-formed state it selects a process,
  keeps the state well formed, and the running process and the ready queue become what the abstract
  scheduler says: the interrupted process goes to the end, the head runs, and the idle process runs
  exactly when nothing else can.
\<close>

theorem scheduler_run_is_rotation:
  assumes "sched_ok idle s"
  shows "\<exists>s'. scheduler_run s = Some s' \<and> sched_ok idle s' \<and> sched_abs s' = rr_next idle (sched_abs s)"
  using assms by (rule scheduler_run_refines)

theorem scheduler_run_is_rotation_witness:
  "\<exists>s s'. scheduler_init ex_links ex_sched = Some s \<and> scheduler_run s = Some s' \<and> sched_abs s' = (Some 1, [2, 3])"
proof -
  obtain s where s: "scheduler_init ex_links ex_sched = Some s" "after_init ex_links s" "current_process s = None"
    using ex_sched_init by blast
  have "sched_ok 0 s" "sched_abs s = (None, [1, 2, 3])"
    using sched_inv_init[OF s(2,3)] s(2,3) by (auto simp: sched_inv_def after_init_def sched_abs_def)
  then show ?thesis using scheduler_run_is_rotation[of 0 s] s(1) by auto
qed

text \<open>
  C13. Fairness: after initialisation, the n-th call of \<^verbatim>\<open>scheduler_run\<close> starts P1, P2 and the motor task
  in turn, for ever; each of them runs once in every three calls and the idle process never does.
\<close>

theorem round_robin_is_fair:
  assumes "boot_ok s0" "current_process s0 = None"
  shows "\<exists>s s'. scheduler_init l s0 = Some s \<and> run_times (Suc n) s = Some s' \<and>
    current_process s' = Some (Suc (n mod 3)) \<and> proc_state (processes s' ! Suc (n mod 3)) = RUNNING"
proof -
  obtain s where s: "scheduler_init l s0 = Some s" "after_init l s" "current_process s = None"
    using scheduler_init_ok[OF assms(1), of l] assms(2) by auto
  note inv = sched_inv_init[OF s(2,3)]
  have ok: "sched_ok 0 s" and a: "sched_abs s = (None, [1, 2, 3])"
    using inv s(2,3) by (auto simp: sched_inv_def after_init_def sched_abs_def)
  obtain s' where s': "run_times (Suc n) s = Some s'" "sched_abs s' = (rr_next 0 ^^ Suc n) (None, [1, 2, 3])"
    using run_times_refines[OF ok, of "Suc n"] a by auto
  have "(rr_next 0 ^^ Suc n) (None, [1, 2, 3]) = (rr_next 0 ^^ n) (Some 1, [2, 3])" by (simp add: funpow_swap1)
  also have "\<dots> = (Some (hd (rotate n [1, 2, 3])), tl (rotate n [1, 2, 3]))" by (rule rr_rotation) simp
  also have "hd (rotate n [1, 2, 3 :: nat]) = [1, 2, 3] ! (n mod 3)" by (subst hd_rotate_conv_nth) simp_all
  also have "[1, 2, 3] ! (n mod 3) = Suc (n mod 3)"
  proof -
    have "n mod 3 = 0 \<or> n mod 3 = 1 \<or> n mod 3 = 2" by linarith
    then show ?thesis by auto
  qed
  finally have cur: "current_process s' = Some (Suc (n mod 3))" using s'(2) by (simp add: sched_abs_def)
  have "sched_inv t" if "run_times k s = Some t" for k t
    using that inv sched_inv_run by (induction k arbitrary: t) (auto simp: bind_eq_Some_conv')
  then have "sched_inv s'" using s'(1) by blast
  moreover have "Suc (n mod 3) < 32" using mod_less_divisor[of 3 n] by linarith
  ultimately show ?thesis using s(1) s'(1) cur by (auto simp: sched_inv_def)
qed

theorem round_robin_is_fair_witness:
  "\<exists>s s'. scheduler_init ex_links ex_sched = Some s \<and> run_times 5 s = Some s' \<and> current_process s' = Some 2"
proof -
  have "Suc 4 = 5" "Suc (4 mod 3) = 2" by simp_all
  then show ?thesis using round_robin_is_fair[OF ex_sched_boot, of ex_links 4] by metis
qed

text \<open>
  At most one process runs: in every state reachable from boot by ticks, context saves and
  scheduler runs, exactly the current process is in the RUNNING state, and the running and the
  ready processes are always P1, P2 and the motor task, each once.
\<close>

theorem exactly_one_running:
  assumes "sched_reachable l s"
  shows "{i. i < 32 \<and> proc_state (processes s ! i) = RUNNING} = set_option (current_process s) \<and>
    distinct (busy 0 (sched_abs s)) \<and> set (busy 0 (sched_abs s)) = {1, 2, 3}"
  using reachable_inv[OF assms] by (auto simp: sched_inv_def sched_ok_def busy_def sched_abs_def)

theorem exactly_one_running_witness:
  "\<exists>s. sched_reachable ex_links s \<and> current_process s = Some 1 \<and>
    {i. i < 32 \<and> proc_state (processes s ! i) = RUNNING} = {1}"
proof -
  obtain s where s: "scheduler_init ex_links ex_sched = Some s" "after_init ex_links s" "current_process s = None"
    using ex_sched_init by blast
  have "sched_ok 0 s" "sched_abs s = (None, [1, 2, 3])"
    using sched_inv_init[OF s(2,3)] s(2,3) by (auto simp: sched_inv_def after_init_def sched_abs_def)
  then obtain s' where s': "scheduler_run s = Some s'" "current_process s' = Some 1"
    using scheduler_run_refines[of 0 s] by (auto simp: sched_abs_def)
  have "sched_reachable ex_links s'" using sched_reachable.boot[OF ex_sched_boot s(1)] s'(1) by (rule sched_reachable.run)
  then show ?thesis using exactly_one_running[of ex_links s'] s'(2) by auto
qed

text \<open>
  A context saved on a switch and restored later: every register from r2 to r12, the stack
  pointer, the resume address and the status word (with interrupts enabled) come back, but r0 and r1
  come back exchanged, because \<^verbatim>\<open>save_context_asm\<close> stores the two in each other's slots.
\<close>

theorem save_restore_exchanges_r0_r1:
  assumes "length (regs c) = 16" "length (regs d) = 16" "length (registers p) = 13"
    and "q = snd (execute save_context_asm (c, p))" "e = fst (execute restore_context_asm (d, q))"
  shows "regs e ! 0 = regs c ! 1 \<and> regs e ! 1 = regs c ! 0 \<and>
    (\<forall>i \<in> {2..12}. regs e ! i = regs c ! i) \<and> regs e ! 13 = usr_sp_cache c \<and>
    regs e ! 15 = irq_lr_cache c \<and> status e = saved_status c AND NOT 0x80"
proof -
  have q: "q = p\<lparr>registers := [regs c ! 1, regs c ! 0] @ drop 2 (take 13 (regs c)), stack_pointer := usr_sp_cache c,
      link_register := irq_lr_cache c, cpsr := saved_status c, program_counter := irq_lr_cache c\<rparr>"
    using save_effect[OF assms(1,3)] assms(4) by simp
  then have "length (registers q) = 13" using assms(1) by simp
  from restore_effect[OF assms(2) this] assms(5)
  have e: "regs e = registers q @ [stack_pointer q, link_register q, program_counter q]" "status e = cpsr q AND NOT 0x80"
    by auto
  have "regs e ! i = regs c ! i" if "i \<in> {2..12}" for i
  proof -
    define k where "k = i - 2"
    have "i = Suc (Suc k)" "k < 11" using that by (auto simp: k_def)
    then show ?thesis using assms(1) by (simp add: e q nth_append)
  qed
  then show ?thesis using assms(1) by (simp add: e q nth_append)
qed

definition ex_cpu :: cpu where
  "ex_cpu = \<lparr>regs = [100, 101, 102, 103, 104, 105, 106, 107, 108, 109, 110, 111, 112, 113, 114, 115], status = 0,
     saved_status = 0x1F, stack = [], pc_cache = 0, usr_sp_cache = 7, irq_lr_cache = 9, current_pointer = 0\<rparr>"

lemma ex_cpu_facts: "length (regs ex_cpu) = 16" "length (registers ex_process) = 13"
  "regs ex_cpu ! 0 = 100" "regs ex_cpu ! 1 = 101" "irq_lr_cache ex_cpu = 9"
  by (simp_all add: ex_cpu_def ex_process_def)

theorem save_restore_exchanges_r0_r1_witness:
  "let e = fst (execute restore_context_asm (ex_cpu, snd (execute save_context_asm (ex_cpu, ex_process))))
   in regs e ! 0 = 101 \<and> regs e ! 1 = 100 \<and> regs e ! 15 = 9"
  using save_restore_exchanges_r0_r1[OF ex_cpu_facts(1,1,2) refl refl] ex_cpu_facts(3-5) by metis

text \<open>
  The first dispatch of a new process jumps to its entry point on its own stack, but with the
  status word 15 instead of the System-mode value 0xDF that \<^verbatim>\<open>process_create\<close> stored: the loop that
  clears the registers runs to 16 over an array of 13 words and overwrites it.
\<close>

theorem first_dispatch:
  assumes "length (regs c) = 16" "length (registers p) = 13"
    and "e = fst (execute restore_context_asm (c, new_process l entry i p))"
  shows "regs e ! 15 = entry \<and> regs e ! 13 = process_address l i + 80 + USER_STACK_SIZE \<and>
    status e = 15 \<and> status e \<noteq> (MODE_System OR I_F_BIT) AND NOT 0x80"
proof -
  note f = new_process_fields[OF assms(2), of l entry i]
  have "length (registers (new_process l entry i p)) = 13" by (simp add: f)
  from restore_effect[OF assms(1) this] assms(3) show ?thesis
    by (auto simp: f nth_append c_consts)
qed

theorem first_dispatch_witness:
  "let e = fst (execute restore_context_asm (ex_cpu, new_process ex_links 0x2000 1 ex_process))
   in regs e ! 15 = 0x2000 \<and> status e = 15"
  using first_dispatch[OF ex_cpu_facts(1,2) refl, of ex_links "0x2000" 1] by metis

end
