(* ===== verification/Levenshtein.thy ===== *)
theory Levenshtein
  imports Prelude
begin

text \<open>
  The edit distance of \<^verbatim>\<open>boot/bootloader.c\<close> (\<^verbatim>\<open>min\<close>, \<^verbatim>\<open>levenshtein\<close>), with the prefix lengths as the
  recursion has them. The reference is the set of edit scripts: sequences of keep, insert, delete
  and replace that turn one string into the other. The function is proved to return the least
  number of changes, although it takes the match greedily whenever the last characters agree.
\<close>

definition min3 :: "nat \<Rightarrow> nat \<Rightarrow> nat \<Rightarrow> nat" where
  "min3 a b c = (if a \<le> b \<and> a \<le> c then a else if b \<le> a \<and> b \<le> c then b else c)"

fun levenshtein :: "u8 list \<Rightarrow> u8 list \<Rightarrow> nat \<Rightarrow> nat \<Rightarrow> nat" where
  "levenshtein s t 0 n = n"
| "levenshtein s t (Suc m) 0 = Suc m"
| "levenshtein s t (Suc m) (Suc n) =
     (if s ! m = t ! n then levenshtein s t m n
      else 1 + min3 (levenshtein s t (Suc m) n) (levenshtein s t m (Suc n)) (levenshtein s t m n))"

text \<open>\<open>script s t m n k\<close>: the first \<open>m\<close> characters become the first \<open>n\<close> with \<open>k\<close> changes.\<close>

inductive script :: "u8 list \<Rightarrow> u8 list \<Rightarrow> nat \<Rightarrow> nat \<Rightarrow> nat \<Rightarrow> bool" for s t where
  empty: "script s t 0 0 0"
| keep: "script s t m n k \<Longrightarrow> s ! m = t ! n \<Longrightarrow> script s t (Suc m) (Suc n) k"
| insert: "script s t m n k \<Longrightarrow> script s t m (Suc n) (Suc k)"
| delete: "script s t m n k \<Longrightarrow> script s t (Suc m) n (Suc k)"
| replace: "script s t m n k \<Longrightarrow> script s t (Suc m) (Suc n) (Suc k)"

lemma min3_le: "min3 a b c \<le> a" "min3 a b c \<le> b" "min3 a b c \<le> c"
  by (auto simp: min3_def)

lemma min3_in: "min3 a b c = a \<or> min3 a b c = b \<or> min3 a b c = c"
  by (auto simp: min3_def)

lemma script_insert_all: "script s t 0 n n"
  by (induction n) (auto intro: script.intros)

lemma script_delete_all: "script s t m 0 m"
  by (induction m) (auto intro: script.intros)

lemma levenshtein_script: "script s t m n (levenshtein s t m n)"
proof (induction s t m n rule: levenshtein.induct)
  case (3 s t m n)
  show ?case
  proof (cases "s ! m = t ! n")
    case True
    then show ?thesis using 3(1) by (auto intro: script.keep)
  next
    case False
    then show ?thesis
      using 3(2-4) min3_in[of "levenshtein s t (Suc m) n" "levenshtein s t m (Suc n)" "levenshtein s t m n"]
      by (auto intro: script.intros)
  qed
qed (auto intro: script_insert_all script.delete[OF script_delete_all])

text \<open>Changing one prefix by one character changes the distance by at most one.\<close>

lemma levenshtein_steps:
  "levenshtein s t (Suc m) n \<le> Suc (levenshtein s t m n) \<and> levenshtein s t m (Suc n) \<le> Suc (levenshtein s t m n) \<and>
   levenshtein s t m n \<le> Suc (levenshtein s t (Suc m) n) \<and> levenshtein s t m n \<le> Suc (levenshtein s t m (Suc n))"
proof (induction "m + n" arbitrary: m n rule: less_induct)
  case less
  have row: "levenshtein s t (Suc m) n \<le> Suc (levenshtein s t m n) \<and> levenshtein s t m n \<le> Suc (levenshtein s t (Suc m) n)"
  proof (cases n)
    case 0
    then show ?thesis by (cases m) auto
  next
    case (Suc n')
    then show ?thesis
      using less[of m n'] min3_in[of "levenshtein s t (Suc m) n'" "levenshtein s t m n" "levenshtein s t m n'"]
        min3_le(2)[of "levenshtein s t (Suc m) n'" "levenshtein s t m n" "levenshtein s t m n'"] by auto
  qed
  have col: "levenshtein s t m (Suc n) \<le> Suc (levenshtein s t m n) \<and> levenshtein s t m n \<le> Suc (levenshtein s t m (Suc n))"
  proof (cases m)
    case (Suc m')
    then show ?thesis
      using less[of m' n] min3_in[of "levenshtein s t m n" "levenshtein s t m' (Suc n)" "levenshtein s t m' n"]
        min3_le(1)[of "levenshtein s t m n" "levenshtein s t m' (Suc n)" "levenshtein s t m' n"] by auto
  qed auto
  show ?case using row col by blast
qed

lemma levenshtein_least:
  "script s t m n k \<Longrightarrow> levenshtein s t m n \<le> k"
proof (induction rule: script.induct)
  case (insert m n k)
  then show ?case using levenshtein_steps[of s t m n] by linarith
next
  case (delete m n k)
  then show ?case using levenshtein_steps[of s t m n] by linarith
next
  case (replace m n k)
  then show ?case
    using min3_le(3)[of "levenshtein s t (Suc m) n" "levenshtein s t m (Suc n)" "levenshtein s t m n"] by auto
qed auto

text \<open>
  C29. \<^verbatim>\<open>levenshtein\<close> computes the edit distance: there is a script of keeps, insertions, deletions and
  replacements with that many changes, and no script has fewer.
\<close>

theorem levenshtein_is_edit_distance:
  "script s t (length s) (length t) (levenshtein s t (length s) (length t)) \<and>
   (\<forall>k. script s t (length s) (length t) k \<longrightarrow> levenshtein s t (length s) (length t) \<le> k)"
  using levenshtein_script levenshtein_least by blast

theorem levenshtein_is_edit_distance_witness:
  "levenshtein (cstr ''kitten'') (cstr ''sitting'') 6 7 = 3 \<and> script (cstr ''kitten'') (cstr ''sitting'') 6 7 3"
proof -
  have "levenshtein (cstr ''kitten'') (cstr ''sitting'') 6 7 = 3" by code_simp
  moreover have "length (cstr ''kitten'') = 6" "length (cstr ''sitting'') = 7" by simp_all
  ultimately show ?thesis
    using levenshtein_is_edit_distance[of "cstr ''kitten''" "cstr ''sitting''"] by metis
qed

end
