(* ===== verification/Bootloader.thy ===== *)
theory Bootloader
  imports Fat32_Dir Mmu Levenshtein
begin

text \<open>
  The loading part of \<^verbatim>\<open>boot/bootloader.c\<close>: mount the card, open and read \<^verbatim>\<open>/boot/kernel.bin\<close> to the start of
  DRAM, check the kernel header (laid out by \<^verbatim>\<open>os/linker.ld\<close>), build the page table and clear the bss. The
  whole boot loader, with its devices and messages, is in \<^verbatim>\<open>Boot\<close>.

  Memory is a function from addresses to bytes. The block device is the parameter \<open>rd\<close>. The boot page
  table is part of the MMU state, not of the memory function.
\<close>

definition KERNEL_MAGIC :: u32 where [c_consts]: "KERNEL_MAGIC = 0x1B1B1B1B"
definition BOOTLOADER_MAGIC :: u32 where [c_consts]: "BOOTLOADER_MAGIC = 0x2B2B2B2B"
definition MEM_KERNEL_BASE :: u32 where [c_consts]: "MEM_KERNEL_BASE = 0xA0000000"
definition L1_KERNEL_DATA_EXEC_FLAGS :: u32 where [c_consts]:
  "L1_KERNEL_DATA_EXEC_FLAGS = L1_ACCESS_RW_NO OR L1_SHAREABLE OR L1_CACHEABLE OR L1_GLOBAL"

record kernel_header_t =
  kh_magic :: u32
  text_start :: u32
  data_start :: u32
  bss_start :: u32
  kernel_size :: u32
  kernel_entry :: u32
  kernel_end :: u32

record boot_state =
  phys_mem :: "u32 \<Rightarrow> u8"
  boot_mmu :: mmu_state
  boot_header :: bootloader_header_t

datatype boot_result = Panic_mount int | Panic_open int | Panic_read int | Panic_magic u32 | Jump u32

section \<open>Memory\<close>

definition store_bytes :: "u32 \<Rightarrow> u8 list \<Rightarrow> (u32 \<Rightarrow> u8) \<Rightarrow> u32 \<Rightarrow> u8" where
  "store_bytes a bs mem x = (if unat (x - a) < length bs then bs ! unat (x - a) else mem x)"

definition load32 :: "(u32 \<Rightarrow> u8) \<Rightarrow> u32 \<Rightarrow> u32" where
  "load32 mem a = u32_of_u8 (mem a) OR push_bit 8 (u32_of_u8 (mem (a + 1))) OR
     push_bit 16 (u32_of_u8 (mem (a + 2))) OR push_bit 24 (u32_of_u8 (mem (a + 3)))"

definition header_at :: "(u32 \<Rightarrow> u8) \<Rightarrow> u32 \<Rightarrow> kernel_header_t" where
  "header_at mem a =
     \<lparr>kh_magic = load32 mem a, text_start = load32 mem (a + 4), data_start = load32 mem (a + 8),
      bss_start = load32 mem (a + 12), kernel_size = load32 mem (a + 16), kernel_entry = load32 mem (a + 20),
      kernel_end = load32 mem (a + 24)\<rparr>"

section \<open>Values computed from the header\<close>

definition kernel_sections :: "kernel_header_t \<Rightarrow> u32" where
  "kernel_sections h = (kernel_size h + MEM_SECTION_SIZE - 1) div MEM_SECTION_SIZE"

definition data_section_size :: "kernel_header_t \<Rightarrow> u32" where
  "data_section_size h = bss_start h - data_start h"

definition bss_section_size :: "kernel_header_t \<Rightarrow> u32" where
  "bss_section_size h = kernel_size h - data_section_size h"

definition bss_section_paddr :: "kernel_header_t \<Rightarrow> u32" where
  "bss_section_paddr h = MEM_PHYS_BASE + (bss_start h - MEM_KERNEL_BASE)"

text \<open>The first \<open>n\<close> rounds of the mapping loop, the loop, and the clearing loop; the latter compares as \<^verbatim>\<open>int32_t\<close>.\<close>

definition map_kernel_sections :: "nat \<Rightarrow> u32 list \<Rightarrow> u32 list" where
  "map_kernel_sections n l1 =
     foldl (\<lambda>t k. MMU_map_section (MEM_KERNEL_BASE + word_of_nat k * MEM_SECTION_SIZE)
                    (MEM_PHYS_BASE + word_of_nat k * MEM_SECTION_SIZE) L1_KERNEL_DATA_EXEC_FLAGS t)
       l1 [0..<n]"

definition map_kernel :: "kernel_header_t \<Rightarrow> u32 list \<Rightarrow> u32 list" where
  "map_kernel h l1 = map_kernel_sections (unat (kernel_sections h)) l1"

definition clear_words :: "nat \<Rightarrow> u32 \<Rightarrow> (u32 \<Rightarrow> u8) \<Rightarrow> u32 \<Rightarrow> u8" where
  "clear_words n a mem = foldl (\<lambda>m k. store_bytes (a + word_of_nat (4 * k)) [0, 0, 0, 0] m) mem [0..<n]"

definition clear_bss :: "kernel_header_t \<Rightarrow> (u32 \<Rightarrow> u8) \<Rightarrow> u32 \<Rightarrow> u8" where
  "clear_bss h mem = clear_words (nat ((sint (bss_section_size h) + 3) div 4)) (bss_section_paddr h) mem"

definition enter_kernel :: "kernel_header_t \<Rightarrow> boot_state \<Rightarrow> boot_state" where
  "enter_kernel h st =
     (let m = MMU_init (boot_mmu st);
          m = m\<lparr>boot_l1 := map_kernel h (boot_l1 m)\<rparr>;
          m = MMU_enable m
      in st\<lparr>boot_mmu := m, phys_mem := clear_bss h (phys_mem st),
            boot_header := \<lparr>bl_magic = BOOTLOADER_MAGIC, boot_table_entry_addr = MEM_BOOT_PAGE_TABLE_BASE,
                            mapped_sections = kernel_sections h\<rparr>\<rparr>)"

text \<open>Loading: a panic, or the header of the kernel that is then in memory.\<close>

definition load_kernel :: "u8 list \<Rightarrow> fat32_dir_entry_t \<Rightarrow> fat32_path_t \<Rightarrow> fat32_fs_t \<Rightarrow> fat32_file_t \<Rightarrow>
    (u32 \<Rightarrow> u8 list option) \<Rightarrow> boot_state \<Rightarrow> ((boot_result + kernel_header_t) \<times> boot_state) option" where
  "load_kernel behind junk junk_path fs file rd st = do {
     (res, fsp) \<leftarrow> fat32_mount behind (Some fs) (Some (Some rd));
     if res \<noteq> 0 then Some (Inl (Panic_mount res), st) else do {
     (res, filep) \<leftarrow> fat32_open junk junk_path fsp (Some (cstr ''/boot/kernel.bin'')) (Some file);
     if res \<noteq> 0 then Some (Inl (Panic_open res), st) else do {
     let size = fat32_size filep;
     (res, filep, out) \<leftarrow> fat32_read filep True (word_of_int size);
     let st = st\<lparr>phys_mem := store_bytes MEM_PHYS_BASE out (phys_mem st)\<rparr>;
     let h = header_at (phys_mem st) MEM_PHYS_BASE;
     if res \<noteq> size then Some (Inl (Panic_read res), st)
     else if kh_magic h \<noteq> KERNEL_MAGIC then Some (Inl (Panic_magic (kh_magic h)), st)
     else Some (Inr h, st) } } }"

section \<open>Lemmas\<close>

lemma clear_words_eq:
  assumes "4 * n < 4294967296"
  shows "clear_words n a mem x = (if unat (x - a) < 4 * n then 0 else mem x)"
  using assms
proof (induction n)
  case 0 then show ?case by (simp add: clear_words_def)
next
  case (Suc n)
  let ?d = "unat (x - a)"
  have w: "unat (word_of_nat (4 * n) :: u32) = 4 * n" using Suc.prems by (intro unat_u32_of_nat) simp
  have e: "unat (x - (a + word_of_nat (4 * n))) = (if 4 * n \<le> ?d then ?d - 4 * n else ?d + 4294967296 - 4 * n)"
    using unat_sub_if'[of "x - a" "word_of_nat (4 * n)"] unfolding w by (simp add: diff_diff_add word_size)
  have "store_bytes (a + word_of_nat (4 * n)) [0, 0, 0, 0] m x =
      (if 4 * n \<le> ?d \<and> ?d < 4 * n + 4 then 0 else m x)" for m
  proof (cases "unat (x - (a + word_of_nat (4 * n))) < 4")
    case True
    then have "[0, 0, 0, 0 :: u8] ! unat (x - (a + word_of_nat (4 * n))) = 0"
      by (auto simp: less_Suc_eq numeral_eq_Suc)
    then show ?thesis using True Suc.prems unfolding store_bytes_def e by (auto split: if_splits)
  next
    case False
    then show ?thesis unfolding store_bytes_def e by (auto split: if_splits)
  qed
  then show ?case using Suc by (auto simp: clear_words_def)
qed

lemma kernel_section_bases:
  "MEM_KERNEL_BASE + word_of_nat k * MEM_SECTION_SIZE = section_base (0xA00 + k)"
  "MEM_PHYS_BASE + word_of_nat k * MEM_SECTION_SIZE = section_base (0x800 + k)"
  by (simp_all add: section_base_def c_consts algebra_simps)

definition kernel_descriptor :: "nat \<Rightarrow> u32" where
  "kernel_descriptor k = section_base (0x800 + k) OR L1_SECTION_DESCRIPTOR OR L1_KERNEL_DATA_EXEC_FLAGS"

lemma map_kernel_nth:
  assumes "unat (kernel_sections h) \<le> 0x600" "length t = 4096" "j < 4096"
  shows "map_kernel h t ! j = (if 0xA00 \<le> j \<and> j < 0xA00 + unat (kernel_sections h)
      then kernel_descriptor (j - 0xA00) else t ! j)"
proof -
  define g where "g = (\<lambda>t k. MMU_map_section (section_base (0xA00 + k)) (section_base (0x800 + k)) L1_KERNEL_DATA_EXEC_FLAGS t)"
  have step: "g t k = t[0xA00 + k := kernel_descriptor k]" if "k < 0x600" for t k
    using that by (simp add: g_def MMU_map_section_def section_word kernel_descriptor_def)
  have "length (foldl g t [0..<n]) = 4096 \<and>
      foldl g t [0..<n] ! j = (if 0xA00 \<le> j \<and> j < 0xA00 + n then kernel_descriptor (j - 0xA00) else t ! j)"
    if "n \<le> 0x600" for n
    using that
  proof (induction n)
    case 0 then show ?case using assms(2) by auto
  next
    case (Suc n)
    then have IH: "length (foldl g t [0..<n]) = 4096"
      "foldl g t [0..<n] ! j = (if 0xA00 \<le> j \<and> j < 0xA00 + n then kernel_descriptor (j - 0xA00) else t ! j)" by auto
    have "foldl g t [0..<Suc n] = (foldl g t [0..<n])[0xA00 + n := kernel_descriptor n]"
      using step Suc.prems by simp
    then show ?case using IH assms(3) by (cases "j = 0xA00 + n") auto
  qed
  from this[OF assms(1)] show ?thesis
    unfolding map_kernel_def map_kernel_sections_def kernel_section_bases g_def by blast
qed

section \<open>Properties\<close>

abbreviation kernel_path :: "u8 list list" where
  "kernel_path \<equiv> [cstr ''boot'', cstr ''kernel.bin'']"

text \<open>
  Loading: when the card mounts, \<^verbatim>\<open>/boot/kernel.bin\<close> resolves to an entry whose cluster chain covers its
  size, and the size is below 2 GB, exactly the bytes of that file are copied to the start of DRAM, and
  the result is the header found there, or a panic with the magic value if that is wrong.
\<close>

lemma boot_loads_file:
  assumes mount: "fat32_mount behind (Some fs0) (Some (Some rd)) = Some (FAT32_SUCCESS, Some fs)"
    and closed: "path_closed fs (root_cluster fs) kernel_path"
    and found: "resolve fs (root_cluster fs) kernel_path = Inr (parent, e)"
    and chain: "2 < entry_cluster e" "\<forall>k. k * cluster_bytes fs < unat (fileSize e) \<longrightarrow>
           cluster_ok fs (cluster_nth fs (entry_cluster e) k)"
    and small: "unat (fileSize e) < 2 ^ 31"
    and image: "bs = map (file_byte fs (entry_cluster e)) [0..<unat (fileSize e)]"
    and loaded: "st' = st\<lparr>phys_mem := store_bytes MEM_PHYS_BASE bs (phys_mem st)\<rparr>"
    and header: "h = header_at (phys_mem st') MEM_PHYS_BASE"
  shows "load_kernel behind junk junk_path fs0 file rd st =
     Some (if kh_magic h = KERNEL_MAGIC then Inr h else Inl (Panic_magic (kh_magic h)), st')"
proof -
  obtain s b where ini: "initialize_fat32_fs fs0 \<lparr>read_sector = rd\<rparr> b s = Some fs"
    using mount_success_fields[OF mount] by blast
  note g = initialize_geometry[OF ini]
  let ?path = "cstr ''/boot/kernel.bin''"
  define f where "f = opened_file fs file (cstr ''kernel.bin'') (parent, e)"
  have op: "fat32_open junk junk_path (Some fs) (Some ?path) (Some file) = Some (FAT32_SUCCESS, Some f)"
  proof -
    have "fat32_open junk junk_path (Some fs) (Some ?path) (Some file) =
        Some (case resolve fs (root_cluster fs) kernel_path of Inl code \<Rightarrow> (code, Some file)
          | Inr pe \<Rightarrow> (FAT32_SUCCESS, Some (opened_file fs file (last kernel_path) pe)))"
      by (rule open_path_eq[of fs ?path, unfolded ex_path_components(1), OF g(4) _ _ closed]) simp_all
    also have "last kernel_path = cstr ''kernel.bin''" by simp
    finally show ?thesis unfolding found f_def by (simp only: sum.case)
  qed
  have ff: "file_ok f" "file_fs f = fs" "start_cluster f = entry_cluster e" "file_size f = fileSize e" "file_offset f = 0"
    using chain g(2,3) by (auto simp: file_ok_def fs_ok_def opened_file_def f_def)
  have cnt: "read_count f (fileSize e) = unat (fileSize e)" by (simp add: read_count_def ff)
  have rd: "\<exists>f'. fat32_read (Some f) True (fileSize e) = Some (sint (fileSize e), Some f', bs)"
    using read_correct[OF ff(1), of "fileSize e"] unfolding cnt by (simp add: Let_def ff image)
  have "word_of_int (fat32_size (Some f)) = fileSize e" "fat32_size (Some f) = sint (fileSize e)"
    by (simp_all add: fat32_size_def ff)
  then show ?thesis
    using mount op rd by (auto simp: load_kernel_def FAT32_SUCCESS_def loaded header Let_def)
qed

text \<open>Clearing the bss of an image laid out by the linker script leaves the header in front of it alone.\<close>

lemma header_kept:
  assumes "bss_section_paddr h = MEM_PHYS_BASE + word_of_nat n" "28 \<le> n" "n < 2 ^ 31"
    and "sint (bss_section_size h) < 2 ^ 31 - 4"
  shows "header_at (phys_mem (enter_kernel h st)) MEM_PHYS_BASE = header_at (phys_mem st) MEM_PHYS_BASE"
proof -
  let ?k = "nat ((sint (bss_section_size h) + 3) div 4)"
  have k: "4 * ?k < 2 ^ 31" using assms(4) by (cases "0 \<le> sint (bss_section_size h)") auto
  have "phys_mem (enter_kernel h st) (MEM_PHYS_BASE + word_of_nat i) = phys_mem st (MEM_PHYS_BASE + word_of_nat i)"
    if "i < 28" for i
  proof -
    have "unat (MEM_PHYS_BASE + word_of_nat i - bss_section_paddr h) = 2 ^ 32 - (n - i)"
    proof -
      have e: "MEM_PHYS_BASE + word_of_nat i - bss_section_paddr h = word_of_nat i - (word_of_nat n :: u32)"
        by (simp add: assms(1))
      have "unat (word_of_nat i :: u32) = i" "unat (word_of_nat n :: u32) = n"
        using that assms(3) by (auto intro!: unat_u32_of_nat)
      then show ?thesis
        unfolding e using that assms(2,3) unat_sub_if'[of "word_of_nat i :: u32" "word_of_nat n"] by simp
    qed
    then have "\<not> unat (MEM_PHYS_BASE + word_of_nat i - bss_section_paddr h) < 4 * ?k" using k assms(2,3) by simp
    then show ?thesis using k by (simp add: enter_kernel_def Let_def clear_bss_def clear_words_eq)
  qed
  from this[of 0] this[of 1] this[of 2] this[of 3] this[of 4] this[of 5] this[of 6] this[of 7] this[of 8] this[of 9]
    this[of 10] this[of 11] this[of 12] this[of 13] this[of 14] this[of 15] this[of 16] this[of 17] this[of 18] this[of 19]
    this[of 20] this[of 21] this[of 22] this[of 23] this[of 24] this[of 25] this[of 26] this[of 27]
  show ?thesis by (simp add: header_at_def load32_def add.assoc)
qed

text \<open>
  The layout of \<^verbatim>\<open>os/linker.ld\<close>: 64 bytes of header, then text with read-only data, data and bss of the
  given lengths, in the 512 MB of DRAM.
\<close>

definition linker_layout :: "kernel_header_t \<Rightarrow> nat \<Rightarrow> nat \<Rightarrow> nat \<Rightarrow> bool" where
  "linker_layout h n_text n_data n_bss \<longleftrightarrow> text_start h = MEM_KERNEL_BASE + 64 \<and>
     data_start h = text_start h + word_of_nat n_text \<and> bss_start h = data_start h + word_of_nat n_data \<and>
     kernel_size h = word_of_nat (n_text + n_data + n_bss) \<and> n_text + n_data + n_bss < 0x20000000"

lemma layout_header_kept:
  assumes "linker_layout h n_text n_data n_bss"
  shows "header_at (phys_mem (enter_kernel h st)) MEM_PHYS_BASE = header_at (phys_mem st) MEM_PHYS_BASE"
proof (rule header_kept)
  show "bss_section_paddr h = MEM_PHYS_BASE + word_of_nat (64 + n_text + n_data)"
    using assms by (simp add: linker_layout_def bss_section_paddr_def algebra_simps)
  have "bss_section_size h = word_of_nat (n_text + n_bss)"
    using assms by (simp add: linker_layout_def bss_section_size_def data_section_size_def)
  moreover have "unat (word_of_nat (n_text + n_bss) :: u32) = n_text + n_bss"
    using assms by (intro unat_u32_of_nat) (simp add: linker_layout_def)
  ultimately show "sint (bss_section_size h) < 2 ^ 31 - 4"
    using assms sint_u32_small[of "word_of_nat (n_text + n_bss)"] by (simp add: linker_layout_def)
qed (use assms in \<open>simp_all add: linker_layout_def\<close>)

lemma kernel_sections_bound: "unat (kernel_sections h) \<le> 0xFFF"
proof -
  have "unat (w div 0x100000) \<le> 0xFFF" for w :: u32
    using unat_u32_bound[of w] by (simp add: unat_div)
  then show ?thesis by (simp add: kernel_sections_def MEM_SECTION_SIZE_def)
qed

definition ex_boot_state :: boot_state where
  "ex_boot_state = \<lparr>phys_mem = (\<lambda>_. 0), boot_mmu = ex_mmu,
     boot_header = \<lparr>bl_magic = 0, boot_table_entry_addr = 0, mapped_sections = 0\<rparr>\<rparr>"

lemma ex_kernel_found:
  "path_closed ex_fs (root_cluster ex_fs) kernel_path"
  "resolve ex_fs (root_cluster ex_fs) kernel_path = Inr (5, dir_entry_at ex_boot_dir 0)"
  "entry_cluster (dir_entry_at ex_boot_dir 0) = 6" "fileSize (dir_entry_at ex_boot_dir 0) = 28"
proof -
  have c: "entry_cluster (dir_entry_at ex_root_dir 2) = 5" "de_attr (dir_entry_at ex_boot_dir 0) AND FAT32_ATTR_DIRECTORY = 0"
    by (simp_all add: entry_cluster_def ex_root_entries ex_boot_entries c_consts)
  show "path_closed ex_fs (root_cluster ex_fs) kernel_path"
    "resolve ex_fs (root_cluster ex_fs) kernel_path = Inr (5, dir_entry_at ex_boot_dir 0)"
    by (simp_all add: ex_lookup[simplified] ex_root_cluster ex_dirs_closed c)
  show "entry_cluster (dir_entry_at ex_boot_dir 0) = 6" "fileSize (dir_entry_at ex_boot_dir 0) = 28"
    by (simp_all add: entry_cluster_def ex_boot_entries)
qed

lemma ex_kernel_chain: "k * cluster_bytes ex_fs < unat (fileSize (dir_entry_at ex_boot_dir 0)) \<Longrightarrow>
    cluster_ok ex_fs (cluster_nth ex_fs (entry_cluster (dir_entry_at ex_boot_dir 0)) k)"
proof -
  assume "k * cluster_bytes ex_fs < unat (fileSize (dir_entry_at ex_boot_dir 0))"
  then have "k = 0" by (simp add: ex_kernel_found(4))
  moreover have "cluster_to_sector ex_fs 6 = 15" by (simp add: cluster_to_sector_def ex_fs_def)
  then have "cluster_ok ex_fs 6" by (simp add: cluster_ok_def c_consts) (simp add: ex_fs_def ex_read_def)
  ultimately show ?thesis by (simp add: ex_kernel_found(3))
qed

lemma ex_kernel_bytes: "map (file_byte ex_fs 6) [0..<28] = ex_kernel_image"
proof -
  have "cluster_to_sector ex_fs 6 = 15" by (simp add: cluster_to_sector_def ex_fs_def)
  then show ?thesis by (simp add: file_byte_def Let_def ex_read_def upt_rec place_def ex_kernel_image_def)
qed

definition ex_kernel_header :: kernel_header_t where
  "ex_kernel_header = \<lparr>kh_magic = KERNEL_MAGIC, text_start = 0xA0000040, data_start = 0xA0001040, bss_start = 0xA0001240,
     kernel_size = 0x1600, kernel_entry = 0xA0000040, kernel_end = 0xA0001640\<rparr>"

lemma ex_loaded_header: "header_at (store_bytes MEM_PHYS_BASE ex_kernel_image mem) MEM_PHYS_BASE = ex_kernel_header"
  by (simp add: header_at_def load32_def store_bytes_def ex_kernel_image_def ex_kernel_header_def c_consts)

lemma ex_kernel_layout: "linker_layout ex_kernel_header 0x1000 0x200 0x400"
  by (simp add: linker_layout_def ex_kernel_header_def c_consts)

lemma ex_kernel_kept: "header_at (phys_mem (enter_kernel ex_kernel_header st)) MEM_PHYS_BASE = header_at (phys_mem st) MEM_PHYS_BASE"
  by (rule layout_header_kept[OF ex_kernel_layout])

text \<open>
  C31. The page table the kernel starts with: the kernel's virtual sections from 0xA0000000 on map to
  the physical sections from the start of DRAM on, one for each section counted from the header, and
  every other entry is that of the hardware map; the MMU and the caches are on, and the number of
  sections is what the kernel is told.
\<close>

theorem kernel_page_table:
  assumes "length (boot_l1 (boot_mmu st)) = 4096" "unat (kernel_sections h) \<le> 0x600" "j < 4096"
    and "m = boot_mmu (enter_kernel h st)"
  shows "boot_l1 m ! j = (if 0xA00 \<le> j \<and> j < 0xA00 + unat (kernel_sections h)
           then kernel_descriptor (j - 0xA00) else hardware_entry j) \<and>
    kernel_descriptor (j - 0xA00) AND 3 = 2 \<and> ttbr0 m = MEM_BOOT_PAGE_TABLE_BASE \<and>
    sctlr m = sctlr (boot_mmu st) OR 0x1005 \<and>
    mapped_sections (boot_header (enter_kernel h st)) = kernel_sections h"
proof -
  have t: "boot_l1 (MMU_init (boot_mmu st)) = mmu_map_hardware_pages (replicate 4096 0)"
    using clear_boot_tables_eq[OF assms(1)]
    by (simp add: MMU_init_def Let_def flush_tlb_def set_ttbr0_def MMU_set_domains_def)
  have "((s OR 4) OR 0x1000) OR 1 = s OR 0x1005" for s :: u32 by (simp add: or.assoc)
  then have e: "boot_l1 m = map_kernel h (mmu_map_hardware_pages (replicate 4096 0))"
      "ttbr0 m = MEM_BOOT_PAGE_TABLE_BASE" "sctlr m = sctlr (boot_mmu st) OR 0x1005"
    using t by (simp_all add: assms(4) enter_kernel_def Let_def MMU_enable_def mmu_enable_bit_def i_cache_enable_def
        d_cache_enable_def flush_i_cache_def flush_tlb_def MMU_init_def set_ttbr0_def MMU_set_domains_def
        clear_boot_tables_def)
  have "drop_bit 0 (kernel_descriptor (j - 0xA00)) AND mask 2 = 2"
    unfolding kernel_descriptor_def by (subst field_of_entry) (simp_all add: c_consts mask_eq_exp_minus_1)
  then have "kernel_descriptor (j - 0xA00) AND 3 = 2" by (simp add: mask_eq_exp_minus_1)
  then show ?thesis
    using map_kernel_nth[OF assms(2) hardware_pages_nth(1)[OF assms(3)] assms(3)] hardware_pages_nth(2)[OF assms(3)]
    by (simp add: e enter_kernel_def Let_def)
qed

theorem kernel_page_table_witness:
  "boot_l1 (boot_mmu (enter_kernel \<lparr>kh_magic = 0, text_start = 0, data_start = 0, bss_start = 0,
     kernel_size = 0x180000, kernel_entry = 0, kernel_end = 0\<rparr> ex_boot_state)) ! 0xA01 = kernel_descriptor 1"
  using kernel_page_table[of ex_boot_state "\<lparr>kh_magic = 0, text_start = 0, data_start = 0, bss_start = 0,
     kernel_size = 0x180000, kernel_entry = 0, kernel_end = 0\<rparr>" "0xA01", OF _ _ _ refl]
  by (simp add: ex_boot_state_def ex_mmu_def kernel_sections_def c_consts)

text \<open>
  How many sections are mapped: the size in the header, rounded up to whole megabytes. Because
  that size leaves out the 64-byte header in front of the text, the sections cover the loaded image
  exactly when the last megabyte has those 64 bytes to spare.
\<close>

theorem kernel_sections_cover:
  assumes "0 < unat (kernel_size h)" "unat (kernel_size h) \<le> 0xFFF00000"
    and "r = unat (kernel_size h) mod 0x100000"
  shows "unat (kernel_size h) \<le> unat (kernel_sections h) * 0x100000 \<and>
    unat (kernel_sections h) * 0x100000 < unat (kernel_size h) + 0x100000 \<and>
    (64 + unat (kernel_size h) \<le> unat (kernel_sections h) * 0x100000 \<longleftrightarrow> 0 < r \<and> r \<le> 0xFFFC0)"
proof -
  let ?s = "unat (kernel_size h)"
  have n: "unat (kernel_sections h) = (?s + 0xFFFFF) div 0x100000"
  proof -
    have "unat (kernel_size h + 0xFFFFF) = ?s + 0xFFFFF" using assms(2) by (simp add: unat_word_ariths)
    moreover have "kernel_sections h = (kernel_size h + 0xFFFFF) div 0x100000"
      by (simp add: kernel_sections_def c_consts add.commute)
    ultimately show ?thesis by (simp add: unat_div)
  qed
  define q where "q = ?s div 0x100000"
  have s: "?s = 0x100000 * q + r" "r < 0x100000" by (simp_all add: q_def assms(3))
  have "(?s + 0xFFFFF) div 0x100000 = (if r = 0 then q else q + 1)"
  proof (cases "r = 0")
    case True
    then show ?thesis using s by simp
  next
    case False
    then have "?s + 0xFFFFF = 0x100000 * (q + 1) + (r - 1)" "r - 1 < 0x100000" using s by simp_all
    then show ?thesis using False by (metis div_mult_self4 div_less add.right_neutral add.commute zero_neq_numeral)
  qed
  then show ?thesis using n s by auto
qed

theorem kernel_sections_cover_witness:
  "unat (kernel_sections \<lparr>kh_magic = 0, text_start = 0, data_start = 0, bss_start = 0,
     kernel_size = 0x100000, kernel_entry = 0, kernel_end = 0\<rparr>) = 1 \<and>
   \<not> 64 + (0x100000::nat) \<le> 1 * 0x100000"
  using kernel_sections_cover[of "\<lparr>kh_magic = 0, text_start = 0, data_start = 0, bss_start = 0,
     kernel_size = 0x100000, kernel_entry = 0, kernel_end = 0\<rparr>", OF _ _ refl] by simp

text \<open>
  C40. The bss loop: with a header laid out as the linker script does (text and read-only data, data,
  bss, in this order and without gaps, and the size their sum), entering the kernel zeroes memory
  from the start of the bss on for the size of the bss plus that of text and read-only data: the
  whole bss is cleared, and as many bytes behind the kernel's end as the text is long, rounded up to
  a word. Nothing else changes.
\<close>

theorem bss_clearing_runs_past_the_kernel:
  assumes "data_start h = text_start h + word_of_nat tx" "bss_start h = data_start h + word_of_nat d"
    and "kernel_size h = word_of_nat (tx + d + b)" "tx + d + b < 2 ^ 31"
  shows "phys_mem (enter_kernel h st) x =
    (if unat (x - bss_section_paddr h) < 4 * ((tx + b + 3) div 4) then 0 else phys_mem st x)"
proof -
  have "bss_section_size h = word_of_nat (tx + b)"
    using assms by (simp add: bss_section_size_def data_section_size_def)
  moreover have u: "unat (word_of_nat (tx + b) :: u32) = tx + b" using assms(4) by (intro unat_u32_of_nat) simp
  ultimately have "sint (bss_section_size h) = int (tx + b)"
    using assms(4) sint_u32_small[of "word_of_nat (tx + b)"] by simp
  then have "nat ((sint (bss_section_size h) + 3) div 4) = (tx + b + 3) div 4" by linarith
  moreover have "4 * ((tx + b + 3) div 4) < 4294967296" using assms(4) by simp
  ultimately show ?thesis by (simp add: enter_kernel_def Let_def clear_bss_def clear_words_eq)
qed

theorem bss_clearing_runs_past_the_kernel_witness:
  "let h = \<lparr>kh_magic = 0, text_start = 0xA0000040, data_start = 0xA0001040, bss_start = 0xA0001240,
             kernel_size = 0x1600, kernel_entry = 0, kernel_end = 0xA0001640\<rparr>;
       st = ex_boot_state\<lparr>phys_mem := (\<lambda>_. 1)\<rparr>
   in phys_mem (enter_kernel h st) 0x80001240 = 0 \<and> phys_mem (enter_kernel h st) 0x80001640 = 0 \<and>
      phys_mem (enter_kernel h st) 0x80002640 = 1"
  unfolding Let_def
  by (subst (1 2 3) bss_clearing_runs_past_the_kernel[of _ "0x1000" "0x200" "0x400"])
    (simp_all add: bss_section_paddr_def c_consts)

end
