(* ===== verification/Mmio.thy ===== *)
theory Mmio
  imports Prelude
begin

text \<open>
  Memory-mapped registers, the accessors of \<^verbatim>\<open>common/utils.h\<close>.

  The peripherals behind the registers are not part of the program, so a \<open>bus\<close> is a parameter of
  every driver model: a function for a 32-bit read and one for a 32-bit write, both acting on an
  opaque device state \<open>'d\<close>. A read may change the device (a receive register is emptied, a
  status bit gets its next value), and this is also how time passes while a driver polls.

  A driver routine takes the bus and the device state and returns the new device state. A polling loop
  without a timeout is \<open>spin_while\<close>, a \<^theory_text>\<open>partial_function\<close> that is \<open>None\<close> when the device
  never answers; \<open>responds\<close> says that it does answer, and \<open>spin_while_total\<close> that the loop then ends.
  The facts a property needs about a device are hypotheses of that property.
\<close>

section \<open>Registers\<close>

record 'd bus =
  bus_read :: "u32 \<Rightarrow> 'd \<Rightarrow> u32 \<times> 'd"
  bus_write :: "u32 \<Rightarrow> u32 \<Rightarrow> 'd \<Rightarrow> 'd"

definition REG32_write :: "'d bus \<Rightarrow> u32 \<Rightarrow> u32 \<Rightarrow> u32 \<Rightarrow> 'd \<Rightarrow> 'd" where
  "REG32_write B base offset v d = bus_write B (base + offset) v d"

definition REG32_write_masked :: "'d bus \<Rightarrow> u32 \<Rightarrow> u32 \<Rightarrow> u32 \<Rightarrow> u32 \<Rightarrow> 'd \<Rightarrow> 'd" where
  "REG32_write_masked B base offset msk v d =
     (let (r, d1) = bus_read B (base + offset) d
      in bus_write B (base + offset) ((r AND NOT msk) OR (v AND msk)) d1)"

definition REG32_read :: "'d bus \<Rightarrow> u32 \<Rightarrow> u32 \<Rightarrow> 'd \<Rightarrow> u32 \<times> 'd" where
  "REG32_read B base offset d = bus_read B (base + offset) d"

definition REG32_read_masked :: "'d bus \<Rightarrow> u32 \<Rightarrow> u32 \<Rightarrow> u32 \<Rightarrow> 'd \<Rightarrow> u32 \<times> 'd" where
  "REG32_read_masked B base offset msk d =
     (let (r, d1) = bus_read B (base + offset) d in (r AND msk, d1))"

lemma u8_u32_u8: "(ucast (u32_of_u8 c) :: u8) = c"
  by (rule bit_word_eqI) (simp add: bit_simps)

lemmas reg_defs = REG32_write_def REG32_write_masked_def REG32_read_def REG32_read_masked_def

section \<open>Polling\<close>

text \<open>The loop \<^verbatim>\<open>while (P(REG32_read(base, offset)));\<close>.\<close>

partial_function (option) spin_while :: "'d bus \<Rightarrow> (u32 \<Rightarrow> bool) \<Rightarrow> u32 \<Rightarrow> u32 \<Rightarrow> 'd \<Rightarrow> 'd option" where
  [code]: "spin_while B busy base offset d =
     (case REG32_read B base offset d of
        (v, d1) \<Rightarrow> if busy v then spin_while B busy base offset d1 else Some d1)"

text \<open>
  A loop with a countdown, \<^verbatim>\<open>while (P(read)) { if (--timeout == 0) return -1; }\<close>: the flag says
  whether the device answered before the counter ran out. A counter that starts at zero wraps and runs
  2^32 rounds, so the recursion is on the number of rounds that are left.
\<close>

fun poll_rounds :: "'d bus \<Rightarrow> (u32 \<Rightarrow> bool) \<Rightarrow> u32 \<Rightarrow> u32 \<Rightarrow> nat \<Rightarrow> 'd \<Rightarrow> bool \<times> 'd" where
  "poll_rounds B P base offset 0 d = (False, d)"
| "poll_rounds B P base offset (Suc n) d =
     (case REG32_read B base offset d of
        (v, d1) \<Rightarrow> if P v then (if n = 0 then (False, d1) else poll_rounds B P base offset n d1)
                   else (True, d1))"

definition poll_timeout :: "'d bus \<Rightarrow> (u32 \<Rightarrow> bool) \<Rightarrow> u32 \<Rightarrow> u32 \<Rightarrow> u32 \<Rightarrow> 'd \<Rightarrow> bool \<times> 'd" where
  "poll_timeout B P base offset timeout d =
     poll_rounds B P base offset (if timeout = 0 then 2 ^ 32 else unat timeout) d"

text \<open>The device state after \<open>n\<close> reads of one register.\<close>

fun after_reads :: "'d bus \<Rightarrow> u32 \<Rightarrow> nat \<Rightarrow> 'd \<Rightarrow> 'd" where
  "after_reads B a 0 d = d"
| "after_reads B a (Suc n) d = after_reads B a n (snd (bus_read B a d))"

definition answers_at :: "'d bus \<Rightarrow> (u32 \<Rightarrow> bool) \<Rightarrow> u32 \<Rightarrow> 'd \<Rightarrow> nat \<Rightarrow> bool" where
  "answers_at B P a d n \<longleftrightarrow> \<not> P (fst (bus_read B a (after_reads B a n d)))"

definition responds :: "'d bus \<Rightarrow> (u32 \<Rightarrow> bool) \<Rightarrow> u32 \<Rightarrow> 'd \<Rightarrow> bool" where
  "responds B P a d \<longleftrightarrow> (\<exists>n. answers_at B P a d n)"

lemma after_reads_inv:
  assumes "\<And>d. I d \<Longrightarrow> I (snd (bus_read B a d))" "I d"
  shows "I (after_reads B a n d)"
  using assms(2) by (induction n arbitrary: d) (auto intro: assms(1))

lemma responds_0: "\<not> P (fst (bus_read B a d)) \<Longrightarrow> responds B P a d"
  by (auto simp: responds_def answers_at_def intro: exI[of _ 0])

lemma responds_step: "responds B P a (snd (bus_read B a d)) \<Longrightarrow> responds B P a d"
  by (auto simp: responds_def answers_at_def intro: exI[of _ "Suc n" for n])

lemma responds_cases:
  assumes "responds B P a d" "P (fst (bus_read B a d))"
  shows "responds B P a (snd (bus_read B a d))"
proof -
  obtain n where n: "answers_at B P a d n" using assms(1) by (auto simp: responds_def)
  then obtain m where "n = Suc m" using assms(2) by (cases n) (auto simp: answers_at_def)
  then show ?thesis using n by (auto simp: responds_def answers_at_def)
qed

text \<open>A polling loop ends exactly when the device answers, and all it does is read the register.\<close>

lemma spin_while_at:
  assumes "answers_at B P (base + offset) d n"
  shows "\<exists>m. spin_while B P base offset d = Some (after_reads B (base + offset) (Suc m) d) \<and>
             answers_at B P (base + offset) d m"
  using assms
proof (induction n arbitrary: d)
  case 0
  then show ?case
    by (subst spin_while.simps)
      (auto simp: answers_at_def REG32_read_def split_beta intro!: exI[of _ 0])
next
  case (Suc n)
  let ?d = "snd (bus_read B (base + offset) d)"
  show ?case
  proof (cases "P (fst (bus_read B (base + offset) d))")
    case True
    have "answers_at B P (base + offset) ?d n" using Suc.prems by (simp add: answers_at_def)
    then obtain m where "spin_while B P base offset ?d = Some (after_reads B (base + offset) (Suc m) ?d)"
      "answers_at B P (base + offset) ?d m"
      using Suc.IH by blast
    then show ?thesis
      using True by (subst spin_while.simps)
        (auto simp: answers_at_def REG32_read_def split_beta intro!: exI[of _ "Suc m"])
  next
    case False
    then show ?thesis
      by (subst spin_while.simps)
        (auto simp: answers_at_def REG32_read_def split_beta intro!: exI[of _ 0])
  qed
qed

lemma spin_while_responds:
  assumes "spin_while B P base offset d = Some d'"
  shows "responds B P (base + offset) d"
  by (rule spin_while.raw_induct[where P = "\<lambda>B P base offset d _. responds B P (base + offset) d", OF _ assms])
    (auto simp: REG32_read_def split: prod.splits if_splits intro: responds_step responds_0)

lemma spin_while_total:
  assumes "responds B P (base + offset) d"
    and "\<And>d. I d \<Longrightarrow> I (snd (bus_read B (base + offset) d))" "I d"
  shows "\<exists>d'. spin_while B P base offset d = Some d' \<and> I d'"
proof -
  obtain n where "answers_at B P (base + offset) d n" using assms(1) by (auto simp: responds_def)
  then obtain m where "spin_while B P base offset d = Some (after_reads B (base + offset) (Suc m) d)"
    using spin_while_at[of B P base offset d n] by blast
  moreover have "I (after_reads B (base + offset) (Suc m) d)"
    using assms(2,3) by (rule after_reads_inv)
  ultimately show ?thesis by blast
qed

end
