(* ===== verification/Printf.thy ===== *)
theory Printf
  imports Mmio Circular_Buffer
begin

text \<open>
  Formatted printing over a character output. The kernel and the emulator build have the same
  \<^verbatim>\<open>uart_puts\<close>, \<^verbatim>\<open>print_number\<close> and \<^verbatim>\<open>uart_vprintf\<close> (\<^verbatim>\<open>os/drivers/uart.c\<close>, \<^verbatim>\<open>qemu/os/drivers/uart.c\<close>), which differ in
  the \<^verbatim>\<open>uart_putc\<close> they call: the kernel's sends a carriage return before a newline, the emulator's does
  not. The routines are therefore written over the parameter \<open>putc\<close>.

  Strings are lists of bytes; a zero byte, or the end of the list, is the terminator. The variable
  arguments of a call are a list of values tagged with their kind, and taking an argument that is
  missing or of the other kind has no defined result.

  The locale \<open>char_output\<close> is the contract of a character output: on a device that is \<open>ready\<close>, a character
  \<open>c\<close> appends \<open>enc [c]\<close> to what has been sent. In it every routine is shown to \<open>emit\<close> a known text, and
  number printing is compared with a reference that writes the most significant digit first.
\<close>

section \<open>Strings\<close>

fun puts :: "(u8 \<Rightarrow> 'd \<Rightarrow> 'd option) \<Rightarrow> u8 list \<Rightarrow> 'd \<Rightarrow> 'd option" where
  "puts putc [] d = Some d"
| "puts putc (c # str) d =
     (if c = 0 then Some d else do { d \<leftarrow> putc c d; puts putc str d })"

section \<open>Numbers\<close>

text \<open>The bytes stored so far in \<^verbatim>\<open>char buffer[32]\<close>; a store past the array is undefined.\<close>

definition put_char :: "u8 list \<Rightarrow> u8 \<Rightarrow> u8 list option" where
  "put_char buf c = (if length buf < 32 then Some (buf @ [c]) else None)"

definition digit_literal :: "u8 list" where
  "digit_literal = cstr ''0123456789abcdef'' @ [0]"

lemma length_digit_literal: "length digit_literal = 17"
  by (simp add: digit_literal_def)

definition digit_char :: "nat \<Rightarrow> u8 option" where
  "digit_char i = (if i < length digit_literal then Some (digit_literal ! i) else None)"

lemma word_div_less:
  assumes "(t::u32) \<noteq> 0" "\<not> base < 2"
  shows "unat (t div base) < unat t"
proof -
  have "2 \<le> unat base" using assms(2) by (simp add: word_less_nat_alt)
  moreover have "0 < unat t" using assms(1) by (simp add: unat_gt_0)
  ultimately show ?thesis by (simp add: unat_div_distrib)
qed

text \<open>The conversion loop; a base below two divides by zero or never ends.\<close>

function digits_loop :: "u32 \<Rightarrow> u32 \<Rightarrow> u8 list \<Rightarrow> u8 list option" where
  "digits_loop temp_num base buf =
     (if temp_num = 0 then Some buf
      else if base < 2 then None
      else do {
        c \<leftarrow> digit_char (unat (temp_num mod base));
        buf \<leftarrow> put_char buf c;
        digits_loop (temp_num div base) base buf
      })"
  by pat_completeness auto
termination
  by (relation "measure (\<lambda>(t, _, _). unat t)") (auto intro: word_div_less)

function reverse_loop :: "nat \<Rightarrow> nat \<Rightarrow> u8 list \<Rightarrow> u8 list" where
  "reverse_loop i j buf =
     (if i < j then reverse_loop (i + 1) (j - 1) (buf[j := buf ! i, i := buf ! j]) else buf)"
  by pat_completeness auto
termination
  by (relation "measure (\<lambda>(i, j, _). j - i)") auto

declare digits_loop.simps [simp del] reverse_loop.simps [simp del]

text \<open>Negating the smallest 32-bit integer overflows.\<close>

definition number_out :: "(u8 \<Rightarrow> 'd \<Rightarrow> 'd option) \<Rightarrow> u32 \<Rightarrow> u8 \<Rightarrow> bool \<Rightarrow> 'd \<Rightarrow> 'd option" where
  "number_out putc num base is_signed d =
     (if num = 0 then putc 0x30 d
      else
        let is_negative = (num <s 0 \<and> base = 10 \<and> is_signed) in do {
          temp_num \<leftarrow> (if is_negative then (if num = 0x80000000 then None else Some (- num)) else Some num);
          buf \<leftarrow> digits_loop temp_num (u32_of_u8 base) [];
          buf \<leftarrow> (if is_negative then put_char buf 0x2D else Some buf);
          buf \<leftarrow> put_char buf 0;
          puts putc (reverse_loop 0 (length buf - 2) buf) d
        })"

section \<open>Formatted output\<close>

datatype va = VInt u32 | VStr "u8 list"

fun va_int :: "va list \<Rightarrow> (u32 \<times> va list) option" where
  "va_int (VInt n # ap) = Some (n, ap)"
| "va_int _ = None"

fun va_str :: "va list \<Rightarrow> (u8 list \<times> va list) option" where
  "va_str (VStr s # ap) = Some (s, ap)"
| "va_str _ = None"

abbreviation chr :: "char \<Rightarrow> u8" where "chr c \<equiv> of_char c"

definition directive_out :: "(u8 \<Rightarrow> 'd \<Rightarrow> 'd option) \<Rightarrow> u8 \<Rightarrow> va list \<Rightarrow> 'd \<Rightarrow> (va list \<times> 'd) option" where
  "directive_out putc k ap d =
     (if k = chr CHR ''d'' then do { (n, ap) \<leftarrow> va_int ap; d \<leftarrow> number_out putc n 10 True d; Some (ap, d) }
      else if k = chr CHR ''u'' then do { (n, ap) \<leftarrow> va_int ap; d \<leftarrow> number_out putc n 10 False d; Some (ap, d) }
      else if k = chr CHR ''x'' then do { (n, ap) \<leftarrow> va_int ap; d \<leftarrow> number_out putc n 16 True d; Some (ap, d) }
      else if k = chr CHR ''s'' then do { (s, ap) \<leftarrow> va_str ap; d \<leftarrow> puts putc s d; Some (ap, d) }
      else if k = chr CHR ''c'' then do { (n, ap) \<leftarrow> va_int ap; d \<leftarrow> putc (ucast n) d; Some (ap, d) }
      else do { d \<leftarrow> putc k d; Some (ap, d) })"

text \<open>
  A percent sign before the terminator makes the loop step over the terminator; what it reads from
  there on is not part of the string.
\<close>

fun format_out :: "(u8 \<Rightarrow> 'd \<Rightarrow> 'd option) \<Rightarrow> u8 list \<Rightarrow> va list \<Rightarrow> 'd \<Rightarrow> 'd option" where
  "format_out putc [] ap d = Some d"
| "format_out putc (c # fmt) ap d =
     (if c = 0 then Some d
      else if c = chr CHR ''%'' then
        (case fmt of
           [] \<Rightarrow> None
         | k # rest \<Rightarrow>
             if k = 0 then None
             else do { (ap, d) \<leftarrow> directive_out putc k ap d; format_out putc rest ap d })
      else do { d \<leftarrow> putc c d; format_out putc fmt ap d })"

section \<open>What is sent\<close>

definition emits :: "'d set \<Rightarrow> ('d \<Rightarrow> u8 list) \<Rightarrow> ('d \<Rightarrow> 'd option) \<Rightarrow> u8 list \<Rightarrow> bool" where
  "emits S tx f out \<longleftrightarrow> (\<forall>d \<in> S. \<exists>d'. f d = Some d' \<and> d' \<in> S \<and> tx d' = tx d @ out)"

lemma emitsE:
  assumes "emits S tx f out" "d \<in> S"
  obtains d' where "f d = Some d'" "d' \<in> S" "tx d' = tx d @ out"
  using assms by (auto simp: emits_def)

lemma emits_Some [intro, simp]: "emits S tx Some []"
  by (simp add: emits_def)

lemma emits_bind [intro]:
  assumes "emits S tx f x" "emits S tx g y"
  shows "emits S tx (\<lambda>d. Option.bind (f d) g) (x @ y)"
  unfolding emits_def
proof
  fix d assume "d \<in> S"
  then obtain d1 where d1: "f d = Some d1" "d1 \<in> S" "tx d1 = tx d @ x" by (rule emitsE[OF assms(1)])
  obtain d2 where "g d1 = Some d2" "d2 \<in> S" "tx d2 = tx d1 @ y" by (rule emitsE[OF assms(2) d1(2)])
  then show "\<exists>d'. Option.bind (f d) g = Some d' \<and> d' \<in> S \<and> tx d' = tx d @ x @ y" using d1 by simp
qed

text \<open>The bytes of a string before its terminator.\<close>

definition until_nul :: "u8 list \<Rightarrow> u8 list" where
  "until_nul s = takeWhile (\<lambda>c. c \<noteq> 0) s"

text \<open>
  A transmitter behind a line status register: its fifth bit is polled until the holding register is
  free, then the character is stored. On a device whose transmitter becomes free and appends what is
  stored to the output, one character is sent.
\<close>

definition transmit_on :: "'d bus \<Rightarrow> u32 \<Rightarrow> u32 \<Rightarrow> u32 \<Rightarrow> u8 \<Rightarrow> 'd \<Rightarrow> 'd option" where
  "transmit_on B base lsr thr c d = do {
     d \<leftarrow> spin_while B (\<lambda>v. v AND 0x20 = 0) base lsr d;
     Some (REG32_write B base thr (u32_of_u8 c) d)
   }"

definition transmitter :: "'d bus \<Rightarrow> u32 \<Rightarrow> u32 \<Rightarrow> u32 \<Rightarrow> 'd set \<Rightarrow> ('d \<Rightarrow> u8 list) \<Rightarrow> bool" where
  "transmitter B base lsr thr S tx \<longleftrightarrow>
     (\<forall>d \<in> S. responds B (\<lambda>v. v AND 0x20 = 0) (base + lsr) d \<and>
        snd (bus_read B (base + lsr) d) \<in> S \<and> tx (snd (bus_read B (base + lsr) d)) = tx d \<and>
        (\<forall>v. bus_write B (base + thr) v d \<in> S \<and> tx (bus_write B (base + thr) v d) = tx d @ [ucast v]))"

lemma transmit_on_emits:
  assumes "transmitter B base lsr thr S tx"
  shows "emits S tx (transmit_on B base lsr thr c) [c]"
  unfolding emits_def
proof
  fix d assume d: "d \<in> S"
  have "\<exists>d'. spin_while B (\<lambda>v. v AND 0x20 = 0) base lsr d = Some d' \<and> (d' \<in> S \<and> tx d' = tx d)"
  proof (rule spin_while_total)
    show "responds B (\<lambda>v. v AND 0x20 = 0) (base + lsr) d" using assms d by (simp add: transmitter_def)
  qed (use assms d in \<open>auto simp: transmitter_def\<close>)
  then obtain d' where "spin_while B (\<lambda>v. v AND 0x20 = 0) base lsr d = Some d'" "d' \<in> S" "tx d' = tx d" by blast
  then show "\<exists>d'. transmit_on B base lsr thr c d = Some d' \<and> d' \<in> S \<and> tx d' = tx d @ [c]"
    using assms by (simp add: transmit_on_def transmitter_def reg_defs u8_u32_u8)
qed

section \<open>Numbers as text\<close>

text \<open>The reference: most significant digit first.\<close>

fun nat_digits :: "nat \<Rightarrow> nat \<Rightarrow> u8 list" where
  "nat_digits b n =
     (if b < 2 \<or> n < b then [digit_literal ! n]
      else nat_digits b (n div b) @ [digit_literal ! (n mod b)])"

declare nat_digits.simps [simp del]

definition number_text :: "u32 \<Rightarrow> u8 \<Rightarrow> bool \<Rightarrow> u8 list" where
  "number_text num base is_signed =
     (if is_signed \<and> base = 10 \<and> num <s 0 then 0x2D # nat_digits 10 (unat (- num))
      else nat_digits (unat base) (unat num))"

lemma nth_reverse_loop:
  "j < length buf \<Longrightarrow> k < length buf \<Longrightarrow>
   reverse_loop i j buf ! k = (if i \<le> k \<and> k \<le> j then buf ! (i + j - k) else buf ! k)"
proof (induction i j buf rule: reverse_loop.induct)
  case (1 i j buf)
  show ?case
  proof (cases "i < j")
    case True
    let ?b = "buf[j := buf ! i, i := buf ! j]"
    have IH: "reverse_loop (i + 1) (j - 1) ?b ! k =
        (if i + 1 \<le> k \<and> k \<le> j - 1 then ?b ! (i + 1 + (j - 1) - k) else ?b ! k)"
      using 1 True by simp
    have "reverse_loop i j buf = reverse_loop (i + 1) (j - 1) ?b"
      using True by (simp add: reverse_loop.simps[of i j buf])
    then show ?thesis
      using IH True 1(2,3) by (auto simp: nth_list_update)
  next
    case False
    then have "i \<le> k \<and> k \<le> j \<Longrightarrow> k = i + j - k" by linarith
    then show ?thesis using False by (simp add: reverse_loop.simps[of i j buf])
  qed
qed

lemma length_reverse_loop [simp]: "length (reverse_loop i j buf) = length buf"
  by (induction i j buf rule: reverse_loop.induct) (subst reverse_loop.simps, simp)

lemma reverse_loop_rev:
  assumes "buf \<noteq> []"
  shows "reverse_loop 0 (length buf - 1) (buf @ [c]) = rev buf @ [c]"
proof (rule nth_equalityI)
  fix k assume "k < length (reverse_loop 0 (length buf - 1) (buf @ [c]))"
  then show "reverse_loop 0 (length buf - 1) (buf @ [c]) ! k = (rev buf @ [c]) ! k"
    using assms by (cases "k < length buf"; cases buf) (auto simp: nth_reverse_loop nth_append rev_nth)
qed simp

lemma digits_loop_eq:
  assumes "2 \<le> unat base" "unat base \<le> 16" "t \<noteq> 0"
    and "length buf + length (nat_digits (unat base) (unat t)) \<le> 32"
  shows "digits_loop t base buf = Some (buf @ rev (nat_digits (unat base) (unat t)))"
  using assms
proof (induction t base buf rule: digits_loop.induct)
  case (1 t base buf)
  have b2: "\<not> base < 2" using 1(2) by (simp add: word_less_nat_alt)
  have mod: "unat (t mod base) = unat t mod unat base" and dv: "unat (t div base) = unat t div unat base"
    by (simp_all add: unat_mod_distrib unat_div_distrib)
  have dig: "digit_char (unat (t mod base)) = Some (digit_literal ! (unat t mod unat base))"
    using 1(2,3) by (simp add: digit_char_def mod length_digit_literal mod_less_divisor[THEN order_less_le_trans])
  show ?case
  proof (cases "unat t < unat base")
    case True
    then have z: "t div base = 0" by (simp add: dv flip: unat_eq_zero)
    have "nat_digits (unat base) (unat t) = [digit_literal ! unat t]"
      using True by (simp add: nat_digits.simps)
    then show ?thesis
      using 1(4,5) b2 dig True z by (subst digits_loop.simps) (simp add: put_char_def digits_loop.simps)
  next
    case False
    have "nat_digits (unat base) (unat t) =
        nat_digits (unat base) (unat t div unat base) @ [digit_literal ! (unat t mod unat base)]"
      using False 1(2) by (subst nat_digits.simps) simp
    moreover have "t div base \<noteq> 0"
      using False 1(2) by (simp add: dv div_eq_0_iff flip: unat_eq_zero)
    ultimately show ?thesis
      using 1 b2 dig by (subst digits_loop.simps) (simp add: put_char_def dv)
  qed
qed

lemma length_nat_digits:
  "2 \<le> b \<Longrightarrow> n < b ^ k \<Longrightarrow> 0 < k \<Longrightarrow> length (nat_digits b n) \<le> k"
proof (induction b n arbitrary: k rule: nat_digits.induct)
  case (1 b n)
  show ?case
  proof (cases "n < b")
    case True
    then show ?thesis using 1(4) by (simp add: nat_digits.simps)
  next
    case False
    then obtain j where j: "k = Suc j" "0 < j" using 1(3,4) by (cases k; cases "k - 1") auto
    then have "n div b < b ^ j" using 1(2,3) by (simp add: less_mult_imp_div_less mult.commute)
    then have "length (nat_digits b (n div b)) \<le> j" using 1 False j by simp
    then show ?thesis using j False 1(2) by (subst nat_digits.simps) simp
  qed
qed

lemma length_nat_digits_u32:
  assumes "10 \<le> b"
  shows "length (nat_digits b (unat (t::u32))) \<le> 10"
proof (rule length_nat_digits)
  have "unat t < 10 ^ 10" using unat_u32_bound[of t] by simp
  also have "\<dots> \<le> b ^ 10" using assms by (rule power_mono) simp
  finally show "unat t < b ^ 10" .
qed (use assms in auto)

lemma nat_digits_not_Nil [simp]: "nat_digits b n \<noteq> []"
  by (subst nat_digits.simps) simp

lemma digit_not_special: "n < 16 \<Longrightarrow> digit_literal ! n \<noteq> 0 \<and> digit_literal ! n \<noteq> NEWLINE"
proof -
  have "\<forall>c \<in> set (take 16 digit_literal). c \<noteq> 0 \<and> c \<noteq> NEWLINE"
    by (simp add: digit_literal_def NEWLINE_def)
  then show "n < 16 \<Longrightarrow> ?thesis"
    using length_digit_literal by (auto simp: in_set_conv_nth)
qed

lemma nat_digits_plain:
  "2 \<le> b \<Longrightarrow> b \<le> 16 \<Longrightarrow> c \<in> set (nat_digits b n) \<Longrightarrow> c \<noteq> 0 \<and> c \<noteq> NEWLINE"
proof (induction b n rule: nat_digits.induct)
  case (1 b n)
  have "n mod b < 16" using 1(2,3) by (simp add: mod_less_divisor[THEN order_less_le_trans])
  then show ?case
    using 1 digit_not_special by (subst (asm) nat_digits.simps) (auto split: if_splits)
qed

lemma until_nul_append: "(\<And>c. c \<in> set s \<Longrightarrow> c \<noteq> 0) \<Longrightarrow> until_nul (s @ 0 # t) = s"
  by (induction s) (auto simp: until_nul_def)

lemma number_text_zero: "10 \<le> base \<Longrightarrow> base \<le> 16 \<Longrightarrow> number_text 0 base is_signed = [0x30]"
  by (cases "base = 0") (simp_all add: number_text_def nat_digits.simps digit_literal_def word_le_nat_alt)

section \<open>Format strings\<close>

text \<open>A directive that has no result leaves the whole string without one.\<close>

lemma format_out_fails:
  assumes "\<And>d. format_out putc rest ap d = None" "0 \<notin> set s" "chr CHR ''%'' \<notin> set s"
  shows "format_out putc (s @ rest) ap d = None"
  using assms(2,3)
proof (induction s arbitrary: d)
  case Nil
  then show ?case by (simp add: assms(1))
next
  case (Cons c s)
  then show ?case by (cases "putc c d") simp_all
qed

text \<open>The reference: the text a format string stands for, where it stands for one.\<close>

definition directive_spec :: "(u8 list \<Rightarrow> u8 list) \<Rightarrow> u8 \<Rightarrow> va list \<Rightarrow> (u8 list \<times> va list) option" where
  "directive_spec enc k ap =
     (if k = chr CHR ''d'' then
        do { (n, ap) \<leftarrow> va_int ap; if n = 0x80000000 then None else Some (number_text n 10 True, ap) }
      else if k = chr CHR ''u'' then do { (n, ap) \<leftarrow> va_int ap; Some (number_text n 10 False, ap) }
      else if k = chr CHR ''x'' then do { (n, ap) \<leftarrow> va_int ap; Some (number_text n 16 True, ap) }
      else if k = chr CHR ''s'' then do { (s, ap) \<leftarrow> va_str ap; Some (enc (until_nul s), ap) }
      else if k = chr CHR ''c'' then do { (n, ap) \<leftarrow> va_int ap; Some (enc [ucast n], ap) }
      else Some (enc [k], ap))"

fun format_spec :: "(u8 list \<Rightarrow> u8 list) \<Rightarrow> u8 list \<Rightarrow> va list \<Rightarrow> u8 list option" where
  "format_spec enc [] ap = Some []"
| "format_spec enc (c # fmt) ap =
     (if c = 0 then Some []
      else if c = chr CHR ''%'' then
        (case fmt of
           [] \<Rightarrow> None
         | k # rest \<Rightarrow>
             if k = 0 then None
             else do { (s, ap) \<leftarrow> directive_spec enc k ap; t \<leftarrow> format_spec enc rest ap; Some (s @ t) })
      else do { t \<leftarrow> format_spec enc fmt ap; Some (enc [c] @ t) })"

section \<open>The interface of a character output\<close>

locale char_output =
  fixes putc :: "'b \<Rightarrow> u8 \<Rightarrow> 'd \<Rightarrow> 'd option"
    and ready :: "'b \<Rightarrow> 'd set \<Rightarrow> ('d \<Rightarrow> u8 list) \<Rightarrow> bool"
    and enc :: "u8 list \<Rightarrow> u8 list"
  assumes putc_emits: "ready b S tx \<Longrightarrow> emits S tx (putc b c) (enc [c])"
    and enc_Nil: "enc [] = []"
    and enc_Cons: "enc (c # s) = enc [c] @ enc s"
    and enc_plain: "c \<noteq> NEWLINE \<Longrightarrow> enc [c] = [c]"
begin

lemma enc_plain_list: "(\<And>c. c \<in> set s \<Longrightarrow> c \<noteq> NEWLINE) \<Longrightarrow> enc s = s"
proof (induction s)
  case (Cons c s)
  then show ?case using enc_plain[of c] enc_Cons[of c s] by simp
qed (rule enc_Nil)

lemma puts_emits:
  assumes "ready b S tx"
  shows "emits S tx (puts (putc b) s) (enc (until_nul s))"
proof (induction s)
  case Nil
  then show ?case by (simp add: emits_def until_nul_def enc_Nil)
next
  case (Cons c s)
  show ?case
  proof (cases "c = 0")
    case True
    then show ?thesis by (simp add: emits_def until_nul_def enc_Nil)
  next
    case False
    then have "puts (putc b) (c # s) = (\<lambda>d. Option.bind (putc b c d) (puts (putc b) s))"
      by (simp add: fun_eq_iff)
    then show ?thesis
      using emits_bind[OF putc_emits[OF assms, of c] Cons.IH] False enc_Cons[of c "until_nul s"]
      by (simp add: until_nul_def)
  qed
qed

text \<open>The text printed for a number is the reference text, except for the integer that cannot be negated.\<close>

lemma number_emits:
  assumes "ready b S tx" "10 \<le> unat base" "unat base \<le> 16"
    and "\<not> (is_signed \<and> base = 10 \<and> num = 0x80000000)"
  shows "emits S tx (number_out (putc b) num base is_signed) (number_text num base is_signed)"
proof (cases "num = 0")
  case True
  then show ?thesis
    using putc_emits[OF assms(1), of "0x30"] number_text_zero[of base] assms(2,3) enc_plain[of "0x30"]
    by (simp add: number_out_def[abs_def] NEWLINE_def word_le_nat_alt)
next
  case False
  define neg where "neg = (num <s 0 \<and> base = 10 \<and> is_signed)"
  define t where "t = (if neg then - num else num)"
  define ds where "ds = nat_digits (unat base) (unat t)"
  have len: "length ds \<le> 10" using length_nat_digits_u32[OF assms(2)] by (simp add: ds_def)
  have plain: "c \<noteq> 0 \<and> c \<noteq> NEWLINE" if "c \<in> set ds" for c
    using that nat_digits_plain[of "unat base" c "unat t"] assms(2,3) by (simp add: ds_def)
  have "digits_loop t (u32_of_u8 base) [] = Some (rev ds)"
    using digits_loop_eq[of "u32_of_u8 base" t "[]"] assms(2,3) len False
    by (simp add: ds_def t_def)
  moreover define buf where "buf = rev ds @ (if neg then [0x2D] else [])"
  moreover have "buf \<noteq> []" "rev buf = number_text num base is_signed"
    by (auto simp: buf_def ds_def number_text_def t_def neg_def)
  ultimately have "number_out (putc b) num base is_signed d = puts (putc b) (rev buf @ [0]) d" for d
    using False len assms(4) reverse_loop_rev[of buf 0]
    by (cases neg) (auto simp: number_out_def put_char_def neg_def t_def)
  moreover have "c \<noteq> 0 \<and> c \<noteq> NEWLINE" if "c \<in> set (rev buf)" for c
    using that plain[of c] by (auto simp: buf_def NEWLINE_def split: if_splits)
  then have "until_nul (rev buf @ [0]) = rev buf" "enc (rev buf) = rev buf"
    by (intro until_nul_append enc_plain_list; simp)+
  ultimately show ?thesis
    using puts_emits[OF assms(1), of "rev buf @ [0]"] \<open>rev buf = _\<close> by (simp add: emits_def)
qed

lemma directive_emits:
  assumes "ready b S tx" "directive_spec enc k ap = Some (out, ap')" "d \<in> S"
  shows "\<exists>d'. directive_out (putc b) k ap d = Some (ap', d') \<and> d' \<in> S \<and> tx d' = tx d @ out"
proof -
  note num = number_emits[OF assms(1), unfolded emits_def, rule_format, OF _ _ _ assms(3)]
  note str = puts_emits[OF assms(1), unfolded emits_def, rule_format, OF assms(3)]
  note chr = putc_emits[OF assms(1), unfolded emits_def, rule_format, OF assms(3)]
  consider "k = chr CHR ''d''" | "k = chr CHR ''u''" | "k = chr CHR ''x''" | "k = chr CHR ''s''"
    | "k = chr CHR ''c''" | "k \<notin> chr ` {CHR ''d'', CHR ''u'', CHR ''x'', CHR ''s'', CHR ''c''}" by auto
  then show ?thesis
  proof cases
    case 1
    then obtain n where "ap = VInt n # ap'" "n \<noteq> 0x80000000" "out = number_text n 10 True"
      using assms(2) by (auto simp: directive_spec_def elim!: bind_SomeE va_int.elims split: if_splits)
    then show ?thesis using 1 num[of 10 True n] by (auto simp: directive_out_def)
  next
    case 2
    then obtain n where "ap = VInt n # ap'" "out = number_text n 10 False"
      using assms(2) by (auto simp: directive_spec_def elim!: bind_SomeE va_int.elims split: if_splits)
    then show ?thesis using 2 num[of 10 False n] by (auto simp: directive_out_def)
  next
    case 3
    then obtain n where "ap = VInt n # ap'" "out = number_text n 16 True"
      using assms(2) by (auto simp: directive_spec_def elim!: bind_SomeE va_int.elims split: if_splits)
    then show ?thesis using 3 num[of 16 True n] by (auto simp: directive_out_def)
  next
    case 4
    then obtain s where "ap = VStr s # ap'" "out = enc (until_nul s)"
      using assms(2) by (auto simp: directive_spec_def elim!: bind_SomeE va_str.elims split: if_splits)
    then show ?thesis using 4 str[of s] by (auto simp: directive_out_def)
  next
    case 5
    then obtain n where "ap = VInt n # ap'" "out = enc [ucast n]"
      using assms(2) by (auto simp: directive_spec_def elim!: bind_SomeE va_int.elims split: if_splits)
    then show ?thesis using 5 chr[of "ucast n"] by (auto simp: directive_out_def)
  next
    case 6
    then have "out = enc [k]" "ap' = ap" using assms(2) by (auto simp: directive_spec_def)
    then show ?thesis using 6 chr[of k] by (auto simp: directive_out_def)
  qed
qed

lemma format_emits:
  assumes "ready b S tx" "d \<in> S" "format_spec enc fmt ap = Some out"
  shows "\<exists>d'. format_out (putc b) fmt ap d = Some d' \<and> d' \<in> S \<and> tx d' = tx d @ out"
  using assms(2,3)
proof (induction fmt arbitrary: ap d out rule: length_induct)
  case (1 fmt)
  have IH: "\<exists>d'. format_out (putc b) fmt' ap d = Some d' \<and> d' \<in> S \<and> tx d' = tx d @ out"
    if "length fmt' < length fmt" "d \<in> S" "format_spec enc fmt' ap = Some out" for fmt' ap d out
    using 1(1) that by blast
  show ?case
  proof (cases fmt)
    case Nil
    then show ?thesis using 1(2,3) by simp
  next
    case fmt: (Cons c fmt1)
    consider "c = 0" | "c = chr CHR ''%''" | "c \<noteq> 0" "c \<noteq> chr CHR ''%''" by blast
    then show ?thesis
    proof cases
      case 1
      then show ?thesis using \<open>d \<in> S\<close> \<open>format_spec enc fmt ap = Some out\<close> by (simp add: fmt)
    next
      case 2
      then obtain k rest s ap1 t where k: "fmt1 = k # rest" "k \<noteq> 0" "directive_spec enc k ap = Some (s, ap1)"
        "format_spec enc rest ap1 = Some t" "out = s @ t"
        using 1(3) by (auto simp: fmt elim!: bind_SomeE split: list.splits if_splits)
      then obtain d1 where "directive_out (putc b) k ap d = Some (ap1, d1)" "d1 \<in> S" "tx d1 = tx d @ s"
        using directive_emits[OF assms(1) k(3) 1(2)] by blast
      then show ?thesis using IH[of rest d1 ap1 t] 2 k by (auto simp: fmt)
    next
      case 3
      then obtain t where t: "format_spec enc fmt1 ap = Some t" "out = enc [c] @ t"
        using 1(3) by (auto simp: fmt elim!: bind_SomeE)
      obtain d1 where "putc b c d = Some d1" "d1 \<in> S" "tx d1 = tx d @ enc [c]"
        by (rule emitsE[OF putc_emits[OF assms(1)] 1(2)])
      then show ?thesis using IH[of fmt1 d1 ap t] 3 t by (auto simp: fmt)
    qed
  qed
qed

lemma format_plain: "chr CHR ''%'' \<notin> set fmt \<and> 0 \<notin> set fmt \<Longrightarrow> format_spec enc fmt ap = Some (enc fmt)"
proof (induction fmt)
  case (Cons c fmt)
  then show ?case using enc_Cons[of c fmt] by simp
qed (simp add: enc_Nil)

end

section \<open>Reading numbers back\<close>

definition digit_value :: "u8 \<Rightarrow> nat" where
  "digit_value c = length (takeWhile (\<lambda>x. x \<noteq> c) digit_literal)"

definition digits_value :: "nat \<Rightarrow> u8 list \<Rightarrow> nat" where
  "digits_value b s = foldl (\<lambda>acc c. acc * b + digit_value c) 0 s"

text \<open>The integer that a decimal text with an optional sign stands for.\<close>

definition read_int :: "u8 list \<Rightarrow> int" where
  "read_int s = (if s \<noteq> [] \<and> hd s = 0x2D then - int (digits_value 10 (tl s)) else int (digits_value 10 s))"

lemma distinct_digit_literal: "distinct digit_literal"
  by (simp add: digit_literal_def)

lemma digit_value_nth:
  assumes "i < 16"
  shows "digit_value (digit_literal ! i) = i"
proof -
  have "takeWhile (\<lambda>x. x \<noteq> digit_literal ! i) digit_literal = take i digit_literal"
    using assms length_digit_literal distinct_digit_literal
    by (intro takeWhile_eq_take_P_nth) (auto simp: nth_eq_iff_index_eq)
  then show ?thesis using assms by (simp add: digit_value_def length_digit_literal)
qed

lemma digits_value_nat_digits: "2 \<le> b \<Longrightarrow> b \<le> 16 \<Longrightarrow> digits_value b (nat_digits b n) = n"
proof (induction b n rule: nat_digits.induct)
  case (1 b n)
  have "n mod b < 16" using 1(2,3) by (simp add: mod_less_divisor[THEN order_less_le_trans])
  then show ?case
    using 1 by (subst nat_digits.simps) (auto simp: digits_value_def digit_value_nth)
qed

lemma sint_u32_large:
  assumes "2147483648 \<le> unat (w::u32)"
  shows "sint w = int (unat w) - 4294967296"
proof -
  obtain n where n: "unat w = n" "uint w = int n" by (simp add: uint_nat)
  have "take_bit 32 (uint w) = take_bit 32 (uint w - 4294967296)"
    by (simp add: take_bit_eq_mod mod_diff_right_eq[symmetric, of _ 4294967296])
  then have "signed_take_bit 31 (uint w) = signed_take_bit 31 (uint w - 4294967296)"
    by (simp add: signed_take_bit_eq_iff_take_bit_eq)
  also have "\<dots> = uint w - 4294967296"
  proof (rule signed_take_bit_int_eq_self)
    show "- (2 ^ 31) \<le> uint w - 4294967296" using assms n by simp
    show "uint w - 4294967296 < 2 ^ 31" using unat_u32_bound[of w] n by simp
  qed
  finally show ?thesis by (simp add: sint_uint)
qed

lemma negative_u32:
  assumes "(w::u32) <s 0"
  shows "int (unat (- w)) = - sint w"
proof -
  have "2147483648 \<le> unat w"
  proof (rule ccontr)
    assume "\<not> ?thesis"
    then have "sint w = int (unat w)" by (intro sint_u32_small) simp
    then show False using assms by (simp add: word_sless_alt)
  qed
  moreover from this have "w \<noteq> 0" by auto
  then have "uint (- w) = 4294967296 - uint w"
    using uint_lt2p[of w] by (simp add: uint_word_ariths uint_0_iff zmod_zminus1_eq_if mod_pos_pos_trivial)
  moreover have "uint (- w) = int (unat (- w))" "uint w = int (unat w)" by simp_all
  ultimately show ?thesis using sint_u32_large[of w] by linarith
qed

lemma nonnegative_u32:
  assumes "\<not> (w::u32) <s 0"
  shows "int (unat w) = sint w"
proof -
  have "0 \<le> sint w" using assms by (simp add: word_sless_alt)
  then have "unat w < 2147483648" using sint_u32_large[of w] unat_u32_bound[of w] by linarith
  then show ?thesis by (simp add: sint_u32_small)
qed

lemma hd_nat_digits:
  assumes "2 \<le> b" "b \<le> 16"
  shows "hd (nat_digits b n) \<noteq> 0x2D"
  using assms
proof (induction b n rule: nat_digits.induct)
  case (1 b n)
  have "\<forall>c \<in> set (take 16 digit_literal). c \<noteq> 0x2D" by (simp add: digit_literal_def)
  then have "i < 16 \<Longrightarrow> digit_literal ! i \<noteq> 0x2D" for i
    using length_digit_literal by (auto simp: in_set_conv_nth)
  then show ?case using 1 by (subst nat_digits.simps) auto
qed

text \<open>Printed decimals and hexadecimals read back as the number that was printed.\<close>

lemma read_number_text:
  "num \<noteq> 0x80000000 \<Longrightarrow> read_int (number_text num 10 True) = sint num"
  "digits_value 10 (number_text num 10 False) = unat num"
  "digits_value 16 (number_text num 16 is_signed) = unat num"
  using negative_u32[of num] nonnegative_u32[of num]
  by (simp_all add: number_text_def read_int_def digits_value_nat_digits hd_nat_digits)

lemma length_number_text:
  "10 \<le> unat base \<Longrightarrow> length (number_text num base is_signed) \<le> 11"
  using length_nat_digits_u32[of "unat base" num] length_nat_digits_u32[of 10 "- num"]
  by (simp add: number_text_def)

end
