(* ===== verification/Console.thy ===== *)
theory Console
  imports Printf
begin

text \<open>
  The serial console: the output half of \<^verbatim>\<open>os/drivers/uart.c\<close> (\<^verbatim>\<open>uart_putc\<close>, \<^verbatim>\<open>uart_puts\<close>,
  \<^verbatim>\<open>print_number\<close>, \<^verbatim>\<open>uart_vprintf\<close>, \<^verbatim>\<open>uart_printf\<close>), with \<^verbatim>\<open>log_message\<close> and \<^verbatim>\<open>panic\<close> of
  \<^verbatim>\<open>common/utils.h\<close>, \<^verbatim>\<open>check_mode\<close> of \<^verbatim>\<open>common/utils.c\<close> and \<^verbatim>\<open>uart_print_hex\<close> of
  \<^verbatim>\<open>os/scheduler/scheduler.c\<close>.

  What the drivers need from the UART is the predicate \<open>console\<close>: within a set \<open>S\<close> of device states, the
  transmitter becomes free again after finitely many polls, and a write to the transmit register appends
  its low byte to the output \<open>tx\<close>. Under it \<^verbatim>\<open>uart_putc\<close> is a character output in the sense of the locale
  \<open>char_output\<close>, and the facts on printing are those of the locale.
\<close>

section \<open>Registers\<close>

definition UART0_BASE :: u32 where [c_consts]: "UART0_BASE = 0x44E09000"

definition UART1_BASE :: u32 where [c_consts]: "UART1_BASE = 0x48022000"

definition UART_THR_OFF :: u32 where [c_consts]: "UART_THR_OFF = 0x00"

definition UART_RHR_OFF :: u32 where [c_consts]: "UART_RHR_OFF = 0x00"

definition UART_LSR_UART_OFF :: u32 where [c_consts]: "UART_LSR_UART_OFF = 0x14"

abbreviation CARRIAGE_RETURN :: u8 where "CARRIAGE_RETURN \<equiv> 13"

section \<open>Characters and strings\<close>

definition transmit :: "'d bus \<Rightarrow> u8 \<Rightarrow> 'd \<Rightarrow> 'd option" where
  "transmit B c d = do {
     d \<leftarrow> spin_while B (\<lambda>v. v AND 0x20 = 0) UART0_BASE UART_LSR_UART_OFF d;
     Some (REG32_write B UART0_BASE UART_THR_OFF (u32_of_u8 c) d)
   }"

text \<open>The recursive call on the carriage return is a plain transmission.\<close>

definition uart_putc :: "'d bus \<Rightarrow> u8 \<Rightarrow> 'd \<Rightarrow> 'd option" where
  "uart_putc B c d = do {
     d \<leftarrow> (if c = NEWLINE then transmit B CARRIAGE_RETURN d else Some d);
     transmit B c d
   }"

definition uart_puts :: "'d bus \<Rightarrow> u8 list \<Rightarrow> 'd \<Rightarrow> 'd option" where
  "uart_puts B = puts (uart_putc B)"

definition print_number :: "'d bus \<Rightarrow> u32 \<Rightarrow> u8 \<Rightarrow> bool \<Rightarrow> 'd \<Rightarrow> 'd option" where
  "print_number B = number_out (uart_putc B)"

definition uart_vprintf :: "'d bus \<Rightarrow> u8 list \<Rightarrow> va list \<Rightarrow> 'd \<Rightarrow> 'd option" where
  "uart_vprintf B = format_out (uart_putc B)"

lemma uart_puts_simps [simp]:
  "uart_puts B [] d = Some d"
  "uart_puts B (c # str) d = (if c = 0 then Some d else do { d \<leftarrow> uart_putc B c d; uart_puts B str d })"
  by (simp_all add: uart_puts_def)

definition uart_printf :: "'d bus \<Rightarrow> u8 list \<Rightarrow> va list \<Rightarrow> 'd \<Rightarrow> 'd option" where
  "uart_printf B format ap d = uart_vprintf B format ap d"

text \<open>Log levels: error 0, warning 1, information 2, debug 3; the default threshold is 2.\<close>

definition LOG_LEVEL_DEBUG :: int where [c_consts]: "LOG_LEVEL_DEBUG = 3"

definition LOG_LEVEL_INFO :: int where [c_consts]: "LOG_LEVEL_INFO = 2"

definition LOG_LEVEL_WARN :: int where [c_consts]: "LOG_LEVEL_WARN = 1"

definition LOG_LEVEL_ERROR :: int where [c_consts]: "LOG_LEVEL_ERROR = 0"

definition LOG_LEVEL :: int where [c_consts]: "LOG_LEVEL = LOG_LEVEL_INFO"

definition log_message :: "'d bus \<Rightarrow> int \<Rightarrow> u8 list \<Rightarrow> va list \<Rightarrow> 'd \<Rightarrow> 'd option" where
  "log_message B level fmt ap d = (if level \<le> LOG_LEVEL then uart_vprintf B fmt ap d else Some d)"

text \<open>The device state in which the processor idles for ever, interrupts disabled.\<close>

definition panic :: "'d bus \<Rightarrow> u8 list \<Rightarrow> va list \<Rightarrow> 'd \<Rightarrow> 'd option" where
  "panic B fmt ap d = do {
     d \<leftarrow> uart_printf B (cstr ''PANIC: '') [] d;
     uart_vprintf B fmt ap d
   }"

definition mode_name :: "u32 \<Rightarrow> string" where
  "mode_name m =
     (if m = 0x10 then ''User Mode'' else if m = 0x11 then ''FIQ Mode''
      else if m = 0x12 then ''IRQ Mode'' else if m = 0x13 then ''Supervisor Mode''
      else if m = 0x17 then ''Abort Mode'' else if m = 0x1B then ''Undefined Mode''
      else if m = 0x1F then ''System Mode'' else ''Unknown Mode'')"

definition check_mode :: "'d bus \<Rightarrow> u32 \<Rightarrow> 'd \<Rightarrow> 'd option" where
  "check_mode B cpsr d = do {
     let m = cpsr AND 0x1F;
     d \<leftarrow> uart_printf B (cstr ''CPSR: 0x%x (Mode bits: 0x%x) '' @ [0xE2, 0x80, 0x94, 0x20]) [VInt cpsr, VInt m] d;
     uart_puts B (cstr (mode_name m) @ [NEWLINE]) d
   }"

fun hex_loop :: "nat \<Rightarrow> u32 \<Rightarrow> u8 list \<Rightarrow> u8 list" where
  "hex_loop 0 v hex_string = hex_string"
| "hex_loop (Suc i) v hex_string =
     (let digit = v AND 0xF
      in hex_loop i (drop_bit 4 v)
           (hex_string[i := (if digit < 10 then 0x30 + ucast digit else 0x41 + (ucast digit - 10))]))"

definition uart_print_hex :: "'d bus \<Rightarrow> u32 \<Rightarrow> 'd \<Rightarrow> 'd option" where
  "uart_print_hex B v d = do {
     d \<leftarrow> uart_puts B (cstr ''0x'') d;
     uart_puts B (hex_loop 8 v (replicate 9 0)) d
   }"

section \<open>What reaches the line\<close>

definition console :: "'d bus \<Rightarrow> 'd set \<Rightarrow> ('d \<Rightarrow> u8 list) \<Rightarrow> bool" where
  "console B S tx \<longleftrightarrow>
     (\<forall>d \<in> S. responds B (\<lambda>v. v AND 0x20 = 0) (UART0_BASE + UART_LSR_UART_OFF) d \<and>
        snd (bus_read B (UART0_BASE + UART_LSR_UART_OFF) d) \<in> S \<and>
        tx (snd (bus_read B (UART0_BASE + UART_LSR_UART_OFF) d)) = tx d \<and>
        (\<forall>v. bus_write B (UART0_BASE + UART_THR_OFF) v d \<in> S \<and>
             tx (bus_write B (UART0_BASE + UART_THR_OFF) v d) = tx d @ [ucast v]))"

definition crlf :: "u8 list \<Rightarrow> u8 list" where
  "crlf s = concat (map (\<lambda>c. if c = NEWLINE then [CARRIAGE_RETURN, NEWLINE] else [c]) s)"

lemma crlf_simps [simp]:
  "crlf [] = []"
  "crlf (c # s) = (if c = NEWLINE then [CARRIAGE_RETURN, NEWLINE] else [c]) @ crlf s"
  "crlf (s @ t) = crlf s @ crlf t"
  by (simp_all add: crlf_def)

lemma transmit_emits:
  assumes "console B S tx"
  shows "emits S tx (transmit B c) [c]"
proof -
  have "transmitter B UART0_BASE UART_LSR_UART_OFF UART_THR_OFF S tx"
    using assms by (simp add: console_def transmitter_def)
  from transmit_on_emits[OF this, of c] show ?thesis
    by (simp add: transmit_on_def[abs_def] transmit_def[abs_def])
qed

lemma uart_putc_emits:
  assumes "console B S tx"
  shows "emits S tx (uart_putc B c) (crlf [c])"
proof (cases "c = NEWLINE")
  case True
  then show ?thesis
    using emits_bind[OF transmit_emits[OF assms, of CARRIAGE_RETURN] transmit_emits[OF assms, of c]]
    by (simp add: uart_putc_def[abs_def])
next
  case False
  then show ?thesis using transmit_emits[OF assms, of c] by (simp add: uart_putc_def[abs_def] crlf_def)
qed

lemma crlf_plain: "(\<And>c. c \<in> set s \<Longrightarrow> c \<noteq> NEWLINE) \<Longrightarrow> crlf s = s"
  by (induction s) auto

interpretation uart: char_output uart_putc console crlf
  by unfold_locales (rule uart_putc_emits, simp_all)

text \<open>The text a format string stands for on this line.\<close>

abbreviation directive_text :: "u8 \<Rightarrow> va list \<Rightarrow> (u8 list \<times> va list) option" where
  "directive_text \<equiv> directive_spec crlf"

abbreviation render :: "u8 list \<Rightarrow> va list \<Rightarrow> u8 list option" where
  "render \<equiv> format_spec crlf"

lemmas directive_text_def = directive_spec_def[of crlf]
lemmas render_plain = uart.format_plain
lemmas uart_puts_emits = uart.puts_emits[folded uart_puts_def]
lemmas print_number_emits = uart.number_emits[folded print_number_def]
lemmas vprintf_emits = uart.format_emits[folded uart_vprintf_def]

section \<open>Hexadecimal dumps\<close>

text \<open>The hexadecimal dump writes the eight nibbles, the most significant first, in upper case.\<close>

definition hex_char :: "u32 \<Rightarrow> u8" where
  "hex_char digit = (if digit < 10 then 0x30 + ucast digit else 0x41 + (ucast digit - 10))"

lemma hex_loop_eq:
  "n \<le> length s \<Longrightarrow>
   hex_loop n v s = map (\<lambda>i. hex_char (drop_bit (4 * (n - 1 - i)) v AND 0xF)) [0..<n] @ drop n s"
proof (induction n arbitrary: v s)
  case (Suc n)
  let ?s = "s[n := hex_char (v AND 0xF)]"
  have "drop n ?s = hex_char (v AND 0xF) # drop (Suc n) s"
    using Suc.prems by (simp add: Cons_nth_drop_Suc[symmetric])
  moreover have "map (\<lambda>i. hex_char (drop_bit (4 * (n - 1 - i)) (drop_bit 4 v) AND 0xF)) [0..<n] =
      map (\<lambda>i. hex_char (drop_bit (4 * (n - i)) v AND 0xF)) [0..<n]"
  proof (rule map_cong[OF refl])
    fix i assume "i \<in> set [0..<n]"
    then have "4 * (n - i) = 4 * (n - 1 - i) + 4" by auto
    then show "hex_char (drop_bit (4 * (n - 1 - i)) (drop_bit 4 v) AND 0xF) =
        hex_char (drop_bit (4 * (n - i)) v AND 0xF)"
      by simp
  qed
  moreover have "hex_loop (Suc n) v s = hex_loop n (drop_bit 4 v) ?s"
    by (simp add: hex_char_def Let_def)
  ultimately show ?case using Suc.IH[of ?s "drop_bit 4 v"] Suc.prems by simp
qed simp

section \<open>Properties\<close>

text \<open>A serial line for examples: each byte keeps the transmitter busy for two polls.\<close>

record line_device =
  busy :: nat
  sent :: "u8 list"
  received :: "u8 list"

definition ex_line :: "line_device bus" where
  "ex_line = \<lparr>
     bus_read = (\<lambda>a d.
       if a = UART0_BASE + UART_LSR_UART_OFF then
         ((if busy d = 0 then 0x20 else 0) OR (if received d = [] then 0 else 1), d\<lparr>busy := busy d - 1\<rparr>)
       else if a = UART0_BASE + UART_RHR_OFF then
         (case received d of [] \<Rightarrow> (0, d) | c # cs \<Rightarrow> (u32_of_u8 c, d\<lparr>received := cs\<rparr>))
       else (0, d)),
     bus_write = (\<lambda>a v d.
       if a = UART0_BASE + UART_THR_OFF then d\<lparr>busy := 2, sent := sent d @ [ucast v]\<rparr> else d)\<rparr>"

definition ex_idle_line :: line_device where
  "ex_idle_line = \<lparr>busy = 0, sent = [], received = []\<rparr>"

lemma ex_line_ops:
  "bus_read ex_line (UART0_BASE + UART_LSR_UART_OFF) d =
     ((if busy d = 0 then 0x20 else 0) OR (if received d = [] then 0 else 1), d\<lparr>busy := busy d - 1\<rparr>)"
  "bus_write ex_line (UART0_BASE + UART_THR_OFF) v d = d\<lparr>busy := 2, sent := sent d @ [ucast v]\<rparr>"
  by (simp_all add: ex_line_def)

lemma ex_line_responds: "responds ex_line (\<lambda>v. v AND 0x20 = 0) (UART0_BASE + UART_LSR_UART_OFF) d"
proof (induction "busy d" arbitrary: d)
  case 0
  then show ?case by (intro responds_0) (simp add: ex_line_ops)
next
  case (Suc n)
  have "n = busy (d\<lparr>busy := busy d - 1\<rparr>)" using Suc(2) by simp
  from Suc(1)[OF this] show ?case by - (rule responds_step, simp add: ex_line_ops)
qed

lemma ex_console: "console ex_line UNIV sent"
  using ex_line_responds by (simp add: console_def ex_line_ops)

text \<open>
  C21. Formatted output: whenever a format string and its arguments stand for a text (no trailing
  percent sign, arguments of the right kind, no decimal conversion of the smallest integer),
  \<^verbatim>\<open>uart_printf\<close> returns and has sent exactly that text, each newline preceded by a carriage return.
\<close>

theorem printf_prints_its_rendering:
  assumes "console B S tx" "d \<in> S" "render fmt ap = Some out"
  shows "\<exists>d'. uart_printf B fmt ap d = Some d' \<and> d' \<in> S \<and> tx d' = tx d @ out"
  using vprintf_emits[OF assms] by (simp add: uart_printf_def)

lemma ex_numbers: "number_text (- 12) 10 True = cstr ''-12''" "number_text 255 16 True = cstr ''ff''"
  by (simp_all add: number_text_def digit_literal_def word_sless_alt
      nat_digits.simps[of 10 12] nat_digits.simps[of 10 "Suc 0"] nat_digits.simps[of 16 255] nat_digits.simps[of 16 15])

lemma ex_render:
  "render (cstr ''x:%d, y:%x%c'') [VInt (- 12), VInt 255, VInt 10] = Some (cstr ''x:-12, y:ff'' @ [13, 10])"
  by (simp add: directive_text_def ex_numbers c_consts)

theorem printf_prints_its_rendering_witness:
  "\<exists>d'. uart_printf ex_line (cstr ''x:%d, y:%x%c'') [VInt (- 12), VInt 255, VInt 10] ex_idle_line = Some d' \<and>
        sent d' = cstr ''x:-12, y:ff'' @ [13, 10]"
  using printf_prints_its_rendering[OF ex_console UNIV_I ex_render, of ex_idle_line]
  by (auto simp: ex_idle_line_def)

text \<open>
  C22. Printed numbers read back: \<^verbatim>\<open>print_number\<close> sends at most eleven characters, all from its
  32-byte buffer; read as signed decimals, unsigned decimals or hexadecimals they denote the number
  that was printed. The one exception is the smallest integer printed as a signed decimal, which the
  code cannot negate.
\<close>

theorem printed_number_reads_back:
  assumes "console B S tx" "d \<in> S"
  shows "(num \<noteq> 0x80000000 \<longrightarrow> (\<exists>d' s. print_number B num 10 True d = Some d' \<and> tx d' = tx d @ s \<and>
            length s \<le> 11 \<and> read_int s = sint num)) \<and>
         (\<exists>d' s. print_number B num 10 False d = Some d' \<and> tx d' = tx d @ s \<and>
            length s \<le> 11 \<and> digits_value 10 s = unat num) \<and>
         (\<exists>d' s. print_number B num 16 True d = Some d' \<and> tx d' = tx d @ s \<and>
            length s \<le> 11 \<and> digits_value 16 s = unat num)"
proof -
  have emits: "\<exists>d'. print_number B num base sg d = Some d' \<and> tx d' = tx d @ number_text num base sg"
    if "10 \<le> unat base" "unat base \<le> 16" "\<not> (sg \<and> base = 10 \<and> num = 0x80000000)" for base sg
    using emitsE[OF print_number_emits[OF assms(1) that] assms(2)] by metis
  show ?thesis
  proof (intro conjI impI)
    assume num: "num \<noteq> 0x80000000"
    then obtain d' where "print_number B num 10 True d = Some d'" "tx d' = tx d @ number_text num 10 True"
      using emits[of 10 True] by auto
    then show "\<exists>d' s. print_number B num 10 True d = Some d' \<and> tx d' = tx d @ s \<and>
                      length s \<le> 11 \<and> read_int s = sint num"
      using read_number_text(1)[OF num] length_number_text[of 10 num True] by simp
  next
    obtain d' where "print_number B num 10 False d = Some d'" "tx d' = tx d @ number_text num 10 False"
      using emits[of 10 False] by auto
    then show "\<exists>d' s. print_number B num 10 False d = Some d' \<and> tx d' = tx d @ s \<and>
                      length s \<le> 11 \<and> digits_value 10 s = unat num"
      using read_number_text(2)[of num] length_number_text[of 10 num False] by simp
  next
    obtain d' where "print_number B num 16 True d = Some d'" "tx d' = tx d @ number_text num 16 True"
      using emits[of 16 True] by auto
    then show "\<exists>d' s. print_number B num 16 True d = Some d' \<and> tx d' = tx d @ s \<and>
                      length s \<le> 11 \<and> digits_value 16 s = unat num"
      using read_number_text(3)[of num True] length_number_text[of 16 num True] by simp
  qed
qed

theorem printed_number_reads_back_witness:
  "\<exists>d' s. print_number ex_line (- 2147483647) 10 True ex_idle_line = Some d' \<and> sent d' = s \<and>
          read_int s = - 2147483647"
proof -
  have "(- 2147483647 :: u32) \<noteq> 0x80000000" "sint (- 2147483647 :: u32) = - 2147483647" by simp_all
  then show ?thesis
    using printed_number_reads_back[OF ex_console UNIV_I, of "- 2147483647" ex_idle_line]
    by (auto simp: ex_idle_line_def)
qed

end
