(* ===== verification/Interrupts.thy ===== *)
theory Interrupts
  imports Console
begin

text \<open>
  The interrupt controller and the exception handlers of \<^verbatim>\<open>os/interrupts/interrupt.c\<close> and
  \<^verbatim>\<open>interrupt.h\<close>.

  Function pointers are names: \<open>handler\<close> lists the interrupt routines the kernel installs. The state
  is the device state, the C array of handlers, the program status register, the vector base register
  and the words of RAM that hold the exception vectors. The interface of a table of routines (this one and
  the system call table) is the locale \<open>handler_table\<close> (installing a routine changes one slot), extended by \<open>checked_handler_table\<close> for the
  interrupt table, whose installer rejects numbers out of range.

  The abort handlers take the values they read from processor registers and memory as arguments; they
  print them and stop, and their result is the device state in which they stop.
\<close>

section \<open>The interrupt controller\<close>

definition INTC_BASE_ADDR :: u32 where [c_consts]: "INTC_BASE_ADDR = 0x48200000"

definition INTC_CONTROL_OFF :: u32 where [c_consts]: "INTC_CONTROL_OFF = 0x48"

definition INTC_SIR_IRQ_OFF :: u32 where [c_consts]: "INTC_SIR_IRQ_OFF = 0x40"

definition INTC_SYSCONFIG_OFF :: u32 where [c_consts]: "INTC_SYSCONFIG_OFF = 0x10"

definition INTC_IDLE_OFF :: u32 where [c_consts]: "INTC_IDLE_OFF = 0x50"

definition INTC_THRESHOLD_OFF :: u32 where [c_consts]: "INTC_THRESHOLD_OFF = 0x68"

definition INTC_STATUS_OFF :: u32 where [c_consts]: "INTC_STATUS_OFF = 0x14"

definition INTC_IRQ_REG_BIT :: "u32 \<Rightarrow> u32" where
  "INTC_IRQ_REG_BIT irq_num = push_bit (unat (irq_num mod 32)) 1"

definition INTC_IRQ_REG_NUM :: "u32 \<Rightarrow> u32" where
  "INTC_IRQ_REG_NUM irq_num = irq_num div 32"

definition INTC_ILEn_OFF :: "u32 \<Rightarrow> u32" where
  "INTC_ILEn_OFF irq_num = 0x100 + irq_num * 4"

definition INTC_MIRn_CLR_OFF :: "u32 \<Rightarrow> u32" where
  "INTC_MIRn_CLR_OFF irq_num = 0x88 + (8 * INTC_IRQ_REG_NUM irq_num) * 4"

definition INTC_MIRn_SET_OFF :: "u32 \<Rightarrow> u32" where
  "INTC_MIRn_SET_OFF irq_num = 0x8C + (8 * INTC_IRQ_REG_NUM irq_num) * 4"

definition NUM_INTERRUPTS :: nat where [c_consts]: "NUM_INTERRUPTS = 128"

definition UART0_INT_NUM :: u32 where [c_consts]: "UART0_INT_NUM = 72"

definition UART1_INT_NUM :: u32 where [c_consts]: "UART1_INT_NUM = 73"

datatype handler =
  NULL_handler | Default_handler | Uart0_handler | Uart1_handler | Timer_handler nat

record 'd kernel_io =
  dev :: 'd
  intc_vector_table :: "handler list"
  cpsr :: u32
  vbar :: u32
  ram :: "u32 \<Rightarrow> u32"

text \<open>Running a device operation inside the kernel state.\<close>

definition on_dev :: "('d \<Rightarrow> 'd) \<Rightarrow> ('d, 'm) kernel_io_scheme \<Rightarrow> ('d, 'm) kernel_io_scheme" where
  "on_dev f s = s\<lparr>dev := f (dev s)\<rparr>"

definition run_dev :: "('d \<Rightarrow> 'd option) \<Rightarrow> ('d, 'm) kernel_io_scheme \<Rightarrow> ('d, 'm) kernel_io_scheme option" where
  "run_dev f s = do { d \<leftarrow> f (dev s); Some (s\<lparr>dev := d\<rparr>) }"

definition INTC_init :: "'d bus \<Rightarrow> ('d, 'm) kernel_io_scheme \<Rightarrow> ('d, 'm) kernel_io_scheme option" where
  "INTC_init B s = do {
     s \<leftarrow> run_dev (\<lambda>d. do {
       let d = REG32_write B INTC_BASE_ADDR INTC_SYSCONFIG_OFF 0x2 d;
       d \<leftarrow> spin_while B (\<lambda>v. v AND 0x1 \<noteq> 0x1) INTC_BASE_ADDR INTC_STATUS_OFF d;
       let d = REG32_write_masked B INTC_BASE_ADDR INTC_SYSCONFIG_OFF 0x1 0x1 d;
       let d = REG32_write_masked B INTC_BASE_ADDR INTC_IDLE_OFF 0x3 0x01 d;
       Some (REG32_write B INTC_BASE_ADDR INTC_THRESHOLD_OFF 0xFF d) }) s;
     Some (s\<lparr>intc_vector_table := foldl (\<lambda>t i. t[i := Default_handler]) (intc_vector_table s) [0..<NUM_INTERRUPTS]\<rparr>)
   }"

definition INTC_register_irq ::
    "u32 \<Rightarrow> handler \<Rightarrow> ('d, 'm) kernel_io_scheme \<Rightarrow> bool \<times> ('d, 'm) kernel_io_scheme" where
  "INTC_register_irq int_num h s =
     (if NUM_INTERRUPTS \<le> unat int_num then (False, s)
      else (True, s\<lparr>intc_vector_table := (intc_vector_table s)[unat int_num := h]\<rparr>))"

definition INTC_enable_irq ::
    "'d bus \<Rightarrow> u32 \<Rightarrow> ('d, 'm) kernel_io_scheme \<Rightarrow> bool \<times> ('d, 'm) kernel_io_scheme" where
  "INTC_enable_irq B int_num s =
     (if NUM_INTERRUPTS \<le> unat int_num then (False, s)
      else (True, on_dev (REG32_write_masked B INTC_BASE_ADDR (INTC_MIRn_CLR_OFF int_num)
                    (INTC_IRQ_REG_BIT int_num) (INTC_IRQ_REG_BIT int_num)) s))"

definition INTC_disable_irq ::
    "'d bus \<Rightarrow> u32 \<Rightarrow> ('d, 'm) kernel_io_scheme \<Rightarrow> bool \<times> ('d, 'm) kernel_io_scheme" where
  "INTC_disable_irq B int_num s =
     (if NUM_INTERRUPTS \<le> unat int_num then (False, s)
      else (True, on_dev (REG32_write_masked B INTC_BASE_ADDR (INTC_MIRn_SET_OFF int_num)
                    (INTC_IRQ_REG_BIT int_num) (INTC_IRQ_REG_BIT int_num)) s))"

definition INTC_set_priority ::
    "'d bus \<Rightarrow> u32 \<Rightarrow> u32 \<Rightarrow> ('d, 'm) kernel_io_scheme \<Rightarrow> ('d, 'm) kernel_io_scheme" where
  "INTC_set_priority B int_num priority =
     on_dev (REG32_write B INTC_BASE_ADDR (INTC_ILEn_OFF int_num) (push_bit 2 priority AND 0x1FC))"

definition INTC_active_irq_num :: "'d bus \<Rightarrow> 'd \<Rightarrow> u16 \<times> 'd" where
  "INTC_active_irq_num B d =
     (let (v, d) = REG32_read B INTC_BASE_ADDR INTC_SIR_IRQ_OFF d in (ucast (v AND 0x7F), d))"

definition get_active_irq :: "'d bus \<Rightarrow> 'd \<Rightarrow> u32 \<times> 'd" where
  "get_active_irq B d = (let (v, d) = bus_read B (INTC_BASE_ADDR + 0x40) d in (v AND 0x7F, d))"

definition CPU_irq_enable :: "('d, 'm) kernel_io_scheme \<Rightarrow> ('d, 'm) kernel_io_scheme" where
  "CPU_irq_enable s = s\<lparr>cpsr := cpsr s AND NOT 0x80\<rparr>"

definition CPU_irq_disable :: "('d, 'm) kernel_io_scheme \<Rightarrow> ('d, 'm) kernel_io_scheme" where
  "CPU_irq_disable s = s\<lparr>cpsr := cpsr s OR 0x80\<rparr>"

section \<open>The exception vectors\<close>

definition VECTOR_TABLE_DEST_ADDR :: u32 where [c_consts]: "VECTOR_TABLE_DEST_ADDR = 0x4030FC00"

text \<open>Addresses of the eight assembly entry points, in vector order; the linker chooses them.\<close>

record asm_entries =
  reset_handler_asm :: u32
  mmu_undef_handler_asm :: u32
  svc_handler_asm :: u32
  prefetch_abort_handler_asm :: u32
  data_abort_handler_asm :: u32
  reserved_handler_asm :: u32
  irq_handler_asm :: u32
  fiq_handler_asm :: u32

definition entry_list :: "asm_entries \<Rightarrow> u32 list" where
  "entry_list e = [reset_handler_asm e, mmu_undef_handler_asm e, svc_handler_asm e,
     prefetch_abort_handler_asm e, data_abort_handler_asm e, reserved_handler_asm e,
     irq_handler_asm e, fiq_handler_asm e]"

definition vector_table :: "asm_entries \<Rightarrow> u32 list" where
  "vector_table e = replicate 8 0xE59FF018 @ entry_list e"

definition setup_vector_table :: "asm_entries \<Rightarrow> ('d, 'm) kernel_io_scheme \<Rightarrow> ('d, 'm) kernel_io_scheme" where
  "setup_vector_table e s =
     s\<lparr>vbar := VECTOR_TABLE_DEST_ADDR,
       ram := foldl (\<lambda>m i. m(VECTOR_TABLE_DEST_ADDR + 4 * of_nat i := vector_table e ! i))
                (ram s) [0..<length (vector_table e)]\<rparr>"

definition system_interrupt_init ::
    "'d bus \<Rightarrow> asm_entries \<Rightarrow> ('d, 'm) kernel_io_scheme \<Rightarrow> ('d, 'm) kernel_io_scheme option" where
  "system_interrupt_init B e s = INTC_init B (CPU_irq_enable (setup_vector_table e s))"

section \<open>Exception reports\<close>

definition undef_handler :: "'d bus \<Rightarrow> 'd \<Rightarrow> 'd option" where
  "undef_handler B = panic B (cstr ''Undefined instruction exception'') []"

abbreviation line :: "string \<Rightarrow> u8 list" where
  "line s \<equiv> cstr s @ [NEWLINE]"

fun print_words :: "'d bus \<Rightarrow> (u32 \<Rightarrow> u32) \<Rightarrow> u32 \<Rightarrow> nat \<Rightarrow> 'd \<Rightarrow> 'd option" where
  "print_words B m sp 0 d = Some d"
| "print_words B m sp (Suc n) d = do {
     d \<leftarrow> uart_printf B (line ''  word: 0x%x'') [VInt (m sp)] d;
     print_words B m (sp + 4) n d
   }"

text \<open>\<open>irq_count\<close> is the static counter of earlier calls; the stacks and the link register are read from the processor.\<close>

definition irq_handler ::
    "'d bus \<Rightarrow> (u32 \<Rightarrow> u32) \<Rightarrow> u32 \<Rightarrow> u32 \<Rightarrow> u32 \<Rightarrow> u32 \<Rightarrow> 'd \<Rightarrow> (u32 \<times> 'd) option" where
  "irq_handler B m irq_sp user_sp user_lr irq_count d = do {
     let irq_count = irq_count + 1;
     let (irq_num, d) = get_active_irq B d;
     if irq_count = 2 then do {
       d \<leftarrow> uart_printf B (line ''>>> IRQ fired: IRQ%d <<<'') [VInt irq_num] d;
       d \<leftarrow> uart_puts B (line ''Top 10 IRQ stack words:'') d;
       d \<leftarrow> print_words B m irq_sp 10 d;
       d \<leftarrow> uart_puts B (line ''Top 10 USER stack words:'') d;
       d \<leftarrow> print_words B m user_sp 10 d;
       d \<leftarrow> uart_printf B (line ''User LR = 0x%x'') [VInt user_lr] d;
       Some (irq_count, d)
     } else Some (irq_count, d)
   }"

fun print_all :: "'d bus \<Rightarrow> (string \<times> u32) list \<Rightarrow> 'd \<Rightarrow> 'd option" where
  "print_all B [] d = Some d"
| "print_all B ((s, v) # rest) d = do { d \<leftarrow> uart_printf B (line s) [VInt v] d; print_all B rest d }"

text \<open>The values read from the fault registers and from r0 to r12, sp and pc, in the order they are read.\<close>

definition prefetch_abort_handler ::
    "'d bus \<Rightarrow> u32 \<Rightarrow> u32 \<Rightarrow> u32 \<Rightarrow> u32 \<Rightarrow> u32 list \<Rightarrow> 'd \<Rightarrow> 'd option" where
  "prefetch_abort_handler B fault_address ifsr spsr lr regs d = do {
     d \<leftarrow> uart_printf B (line ''PANIC: Prefetch abort exception'') [] d;
     d \<leftarrow> print_all B [(''  Fault address (IFAR):  0x%x'', fault_address), (''  IFSR:                  0x%x'', ifsr),
           (''  SPSR:                  0x%x'', spsr), (''  LR:                    0x%x'', lr)] d;
     d \<leftarrow> uart_printf B (line ''CPU Registers at the time of the exception:'') [] d;
     print_all B (zip [''r0:  0x%x'', ''r1:  0x%x'', ''r2:  0x%x'', ''r3:  0x%x'', ''r4:  0x%x'', ''r5:  0x%x'',
       ''r6:  0x%x'', ''r7:  0x%x'', ''r8:  0x%x'', ''r9:  0x%x'', ''r10: 0x%x'', ''r11: 0x%x'', ''r12: 0x%x'',
       ''sp:  0x%x'', ''pc:  0x%x''] regs) d
   }"

definition dump_word :: "'d bus \<Rightarrow> (u32 \<Rightarrow> u32) \<Rightarrow> int \<Rightarrow> 'd \<Rightarrow> 'd option" where
  "dump_word B m i d =
     (let addr = 0x9FDFFC10 + word_of_int (i * 4)
      in uart_printf B (line ''0x%x = 0x%x'') [VInt addr, VInt (m addr)] d)"

fun dump_words :: "'d bus \<Rightarrow> (u32 \<Rightarrow> u32) \<Rightarrow> int list \<Rightarrow> 'd \<Rightarrow> 'd option" where
  "dump_words B m [] d = Some d"
| "dump_words B m (i # is) d = do { d \<leftarrow> dump_word B m i d; dump_words B m is d }"

definition dump_undef_info :: "'d bus \<Rightarrow> (u32 \<Rightarrow> u32) \<Rightarrow> u32 \<Rightarrow> u32 \<Rightarrow> 'd \<Rightarrow> 'd option" where
  "dump_undef_info B m cpsr_v fault_addr d = do {
     d \<leftarrow> uart_puts B (line ''We made it to the handler and are now looking at undef '') d;
     d \<leftarrow> uart_printf B (line ''Checking memory around crash:'') [] d;
     d \<leftarrow> dump_words B m [- 4, - 3, - 2, - 1, 0, 1, 2, 3, 4] d;
     d \<leftarrow> uart_printf B (line ''UNDEF: At 0x%x, instruction = 0x%x, CPSR = 0x%x'')
           [VInt fault_addr, VInt (m fault_addr), VInt cpsr_v] d;
     undef_handler B d
   }"

definition data_abort_handler ::
    "'d bus \<Rightarrow> (u32 \<Rightarrow> u32) \<Rightarrow> u32 \<Rightarrow> u32 \<Rightarrow> u32 \<Rightarrow> u32 \<Rightarrow> 'd \<Rightarrow> 'd option" where
  "data_abort_handler B m fault_address dfsr lr cpsr_v d = do {
     let instr = m lr;
     d \<leftarrow> uart_puts B (line ''PANIC: Data abort exception!'') d;
     d \<leftarrow> print_all B [(''  Fault address (DFAR):  0x%x'', fault_address), (''  Fault status  (DFSR):  0x%x'', dfsr),
           (''  Instruction at LR:     0x%x'', instr), (''  LR (return addr):      0x%x'', lr),
           (''  CPSR:                  0x%x'', cpsr_v)] d;
     panic B (cstr ''Data abort exception triggered.'') [] d
   }"

section \<open>The interface of a table of routines\<close>

fun install_all :: "('i \<Rightarrow> 'h \<Rightarrow> 't \<Rightarrow> bool \<times> 't) \<Rightarrow> ('i \<times> 'h) list \<Rightarrow> 't \<Rightarrow> 't" where
  "install_all install [] t = t"
| "install_all install ((i, h) # rs) t = install_all install rs (snd (install i h t))"

locale handler_table =
  fixes slots :: nat
    and idx :: "'i \<Rightarrow> nat"
    and wf :: "'t \<Rightarrow> bool"
    and install :: "'i \<Rightarrow> 'h \<Rightarrow> 't \<Rightarrow> bool \<times> 't"
    and lookup :: "'t \<Rightarrow> nat \<Rightarrow> 'h"
  assumes install_in: "wf t \<Longrightarrow> idx i < slots \<Longrightarrow>
      \<exists>t'. install i h t = (True, t') \<and> wf t' \<and>
           (\<forall>n < slots. lookup t' n = (if n = idx i then h else lookup t n))"
begin

text \<open>After a run of installations a slot holds the routine installed last, or its old contents.\<close>

lemma lookup_install_all:
  assumes "wf t" "\<forall>(i, h) \<in> set rs. idx i < slots"
  shows "wf (install_all install rs t) \<and>
    (\<forall>n < slots. lookup (install_all install rs t) n =
       (case map_of (rev (map (\<lambda>(i, h). (idx i, h)) rs)) n of None \<Rightarrow> lookup t n | Some h \<Rightarrow> h))"
  using assms
proof (induction rs arbitrary: t)
  case Nil
  then show ?case by simp
next
  case (Cons r rs)
  obtain i h where r: "r = (i, h)" by (cases r)
  then obtain t' where t': "install i h t = (True, t')" "wf t'"
    "\<forall>n < slots. lookup t' n = (if n = idx i then h else lookup t n)"
    using install_in[of t i h] Cons.prems by auto
  have "wf (install_all install rs t') \<and>
    (\<forall>n < slots. lookup (install_all install rs t') n =
       (case map_of (rev (map (\<lambda>(i, h). (idx i, h)) rs)) n of None \<Rightarrow> lookup t' n | Some h \<Rightarrow> h))"
    using Cons.IH[OF t'(2)] Cons.prems(2) by simp
  then show ?case
    using t' by (auto simp: r map_add_def split: option.split)
qed

end

locale checked_handler_table = handler_table +
  assumes install_out: "wf t \<Longrightarrow> slots \<le> idx i \<Longrightarrow> install i h t = (False, t)"
begin

lemma install_accepts: "wf t \<Longrightarrow> fst (install i h t) \<longleftrightarrow> idx i < slots"
  using install_in[of t i h] install_out[of t i h] by (cases "idx i < slots") auto

text \<open>Installations out of range can be left out.\<close>

lemma install_all_filter:
  "wf t \<Longrightarrow> install_all install rs t = install_all install (filter (\<lambda>(i, h). idx i < slots) rs) t"
proof (induction rs arbitrary: t)
  case Nil
  then show ?case by simp
next
  case (Cons r rs)
  obtain i h where "r = (i, h)" by (cases r)
  then show ?case
    using Cons install_in[of t i h] install_out[of t i h] by (cases "idx i < slots") auto
qed

lemma lookup_install_any:
  assumes "wf t" "n < slots"
  shows "lookup (install_all install rs t) n =
    (case map_of (rev (map (\<lambda>(i, h). (idx i, h)) rs)) n of None \<Rightarrow> lookup t n | Some h \<Rightarrow> h)"
proof -
  let ?rs = "filter (\<lambda>(i, h). idx i < slots) rs"
  have "map_of (rev (map (\<lambda>(i, h). (idx i, h)) ?rs)) n = map_of (rev (map (\<lambda>(i, h). (idx i, h)) rs)) n"
    using assms(2) by (induction rs) (auto simp: map_add_def split: option.split)
  then show ?thesis
    using lookup_install_all[OF assms(1), of ?rs] install_all_filter[OF assms(1), of rs] assms(2) by auto
qed

end

definition table_ok :: "('d, 'm) kernel_io_scheme \<Rightarrow> bool" where
  "table_ok s \<longleftrightarrow> length (intc_vector_table s) = NUM_INTERRUPTS"

definition irq_vector :: "('d, 'm) kernel_io_scheme \<Rightarrow> nat \<Rightarrow> handler" where
  "irq_vector s n = intc_vector_table s ! n"

interpretation intc: checked_handler_table NUM_INTERRUPTS unat table_ok INTC_register_irq irq_vector
  by unfold_locales (auto simp: INTC_register_irq_def table_ok_def irq_vector_def nth_list_update)

section \<open>Properties\<close>

definition intc_ready :: "'d bus \<Rightarrow> bool" where
  "intc_ready B \<longleftrightarrow>
     (\<forall>d. responds B (\<lambda>v. v AND 0x1 \<noteq> 0x1) (INTC_BASE_ADDR + INTC_STATUS_OFF) d)"

lemma INTC_init_total:
  assumes "intc_ready B" "table_ok s"
  shows "\<exists>d. INTC_init B s = Some (s\<lparr>dev := d, intc_vector_table := replicate 128 Default_handler\<rparr>)"
proof -
  have "\<exists>d'. spin_while B (\<lambda>v. v AND 0x1 \<noteq> 0x1) INTC_BASE_ADDR INTC_STATUS_OFF d = Some d' \<and> True" for d
    using assms(1) by (intro spin_while_total) (auto simp: intc_ready_def)
  then obtain d' where
    "spin_while B (\<lambda>v. v AND 0x1 \<noteq> 0x1) INTC_BASE_ADDR INTC_STATUS_OFF
       (REG32_write B INTC_BASE_ADDR INTC_SYSCONFIG_OFF 0x2 (dev s)) = Some d'" by blast
  moreover have "foldl (\<lambda>t i. t[i := Default_handler]) (intc_vector_table s) [0..<NUM_INTERRUPTS] =
      replicate 128 Default_handler"
    using assms(2) fold_list_update[of "intc_vector_table s" 128 128 "\<lambda>_. Default_handler"]
    by (simp add: table_ok_def NUM_INTERRUPTS_def map_replicate_const)
  ultimately show ?thesis by (auto simp: INTC_init_def run_dev_def Let_def)
qed

lemma foldl_store_words:
  assumes "k \<le> 2 ^ 29" "j < k"
  shows "foldl (\<lambda>m i. m(a + 4 * of_nat i := v ! i)) m [0..<k] (a + 4 * of_nat j :: u32) = v ! j"
  using assms
proof (induction k)
  case (Suc k)
  have "4 * of_nat j \<noteq> (4 * of_nat k :: u32)" if "j < k"
  proof
    assume "4 * of_nat j = (4 * of_nat k :: u32)"
    then have "unat (of_nat (4 * j) :: u32) = unat (of_nat (4 * k) :: u32)" by simp
    moreover have "4 * k < 4294967296" "4 * j < 4294967296" using Suc.prems that by simp_all
    ultimately show False using that by (simp only: unat_u32_of_nat)
  qed
  then show ?case using Suc by (cases "j = k") auto
qed simp

text \<open>
  What the processor does with the word at a vector: \<^verbatim>\<open>0xE59FF018\<close> is \<^verbatim>\<open>ldr pc, [pc, #0x18]\<close>, and
  the program counter reads eight bytes ahead.
\<close>

definition vector_target :: "(u32 \<Rightarrow> u32) \<Rightarrow> u32 \<Rightarrow> u32 option" where
  "vector_target m a = (if m a = 0xE59FF018 then Some (m (a + 8 + 0x18)) else None)"

lemma vector_words:
  assumes "j < 16"
  shows "ram (setup_vector_table e s) (VECTOR_TABLE_DEST_ADDR + 4 * of_nat j) = vector_table e ! j"
proof -
  have "length (vector_table e) = 16" by (simp add: vector_table_def entry_list_def)
  then show ?thesis
    using foldl_store_words[of 16 j VECTOR_TABLE_DEST_ADDR "vector_table e" "ram s"] assms
    by (simp add: setup_vector_table_def)
qed

lemma vectors_lead_to_entries:
  assumes "n < 8"
  shows "vector_target (ram (setup_vector_table e s)) (VECTOR_TABLE_DEST_ADDR + 4 * of_nat n) = Some (entry_list e ! n)"
proof -
  let ?m = "ram (setup_vector_table e s)" and ?a = VECTOR_TABLE_DEST_ADDR
  have "?m (?a + 4 * of_nat n) = 0xE59FF018"
    using vector_words[of n e s] assms by (simp add: vector_table_def nth_append)
  moreover have "?m (?a + 4 * of_nat n + 8 + 0x18) = entry_list e ! n"
    using vector_words[of "n + 8" e s] assms by (simp add: vector_table_def nth_append algebra_simps)
  ultimately show ?thesis by (simp add: vector_target_def)
qed

lemma system_interrupt_init_state:
  assumes "intc_ready B" "table_ok s"
  shows "\<exists>d. system_interrupt_init B e s =
    Some ((CPU_irq_enable (setup_vector_table e s))\<lparr>dev := d, intc_vector_table := replicate 128 Default_handler\<rparr>)"
proof -
  have "table_ok (CPU_irq_enable (setup_vector_table e s))"
    using assms(2) by (simp add: table_ok_def CPU_irq_enable_def setup_vector_table_def)
  from INTC_init_total[OF assms(1) this] show ?thesis by (simp add: system_interrupt_init_def)
qed

text \<open>
  Once \<^verbatim>\<open>system_interrupt_init\<close> has run, an exception of kind \<open>n\<close> (reset, undefined instruction,
  supervisor call, prefetch abort, data abort, reserved, interrupt, fast interrupt) enters the handler
  listed for it in \<^verbatim>\<open>vector_table\<close>; interrupts are unmasked in the status register, and every
  interrupt number dispatches to the default handler, so none is a null pointer.
\<close>

theorem exceptions_reach_their_handlers:
  assumes "intc_ready B" "table_ok s"
  shows "\<exists>s'. system_interrupt_init B e s = Some s' \<and>
    (\<forall>n < 8. vector_target (ram s') (vbar s' + 4 * of_nat n) = Some (entry_list e ! n)) \<and>
    \<not> bit (cpsr s') 7 \<and> (\<forall>n < 128. irq_vector s' n = Default_handler)"
proof -
  obtain d where d: "system_interrupt_init B e s =
      Some ((CPU_irq_enable (setup_vector_table e s))\<lparr>dev := d, intc_vector_table := replicate 128 Default_handler\<rparr>)"
    using system_interrupt_init_state[OF assms] by blast
  have v: "vbar (setup_vector_table e s) = VECTOR_TABLE_DEST_ADDR" by (simp add: setup_vector_table_def)
  show ?thesis
    using vectors_lead_to_entries[of _ e s] v
    by (simp add: d irq_vector_def CPU_irq_enable_def bit_simps)
qed

text \<open>A controller that finishes its reset at once, and the kernel state before the start.\<close>

definition ex_intc :: "u32 bus" where
  "ex_intc = \<lparr>bus_read = (\<lambda>a d. (1, d)), bus_write = (\<lambda>a v d. v)\<rparr>"

definition ex_kernel :: "u32 kernel_io" where
  "ex_kernel = \<lparr>dev = 0, intc_vector_table = replicate 128 NULL_handler, cpsr = 0x1D3, vbar = 0, ram = (\<lambda>_. 0)\<rparr>"

definition ex_entries :: asm_entries where
  "ex_entries = \<lparr>reset_handler_asm = 0xA0000100, mmu_undef_handler_asm = 0xA0000200, svc_handler_asm = 0xA0000300,
     prefetch_abort_handler_asm = 0xA0000400, data_abort_handler_asm = 0xA0000500,
     reserved_handler_asm = 0xA0000600, irq_handler_asm = 0xA0000700, fiq_handler_asm = 0xA0000800\<rparr>"

lemma ex_intc_ready: "intc_ready ex_intc"
  unfolding intc_ready_def by (intro allI responds_0) (simp add: ex_intc_def)

lemma ex_table_ok: "table_ok ex_kernel"
  by (simp add: table_ok_def ex_kernel_def NUM_INTERRUPTS_def)

theorem exceptions_reach_their_handlers_witness:
  "\<exists>s'. system_interrupt_init ex_intc ex_entries ex_kernel = Some s' \<and>
        vector_target (ram s') (vbar s' + 4 * of_nat 6) = Some 0xA0000700 \<and> irq_vector s' 72 = Default_handler"
proof -
  have "entry_list ex_entries ! 6 = 0xA0000700" by (simp add: entry_list_def ex_entries_def)
  moreover have "(6::nat) < 8" "(72::nat) < 128" by simp_all
  ultimately show ?thesis
    using exceptions_reach_their_handlers[OF ex_intc_ready ex_table_ok, of ex_entries] by metis
qed

text \<open>
  The interrupt table answers every interrupt with the handler registered last for its number, or
  with the default handler when there is none; registrations with a number of 128 or more are refused
  and change nothing.
\<close>

theorem irq_dispatches_to_last_registration:
  assumes "table_ok s" "n < 128" "\<forall>m < 128. irq_vector s m = Default_handler"
  shows "irq_vector (install_all INTC_register_irq rs s) n =
    (case map_of (rev (map (\<lambda>(i, h). (unat i, h)) rs)) n of None \<Rightarrow> Default_handler | Some h \<Rightarrow> h)"
  using intc.lookup_install_any[OF assms(1), of n rs] assms(2,3)
  by (auto simp: NUM_INTERRUPTS_def split: option.split)

theorem irq_dispatches_to_last_registration_witness:
  "irq_vector (install_all INTC_register_irq [(72, Uart0_handler), (200, Uart1_handler), (72, Timer_handler 2)]
     (ex_kernel\<lparr>intc_vector_table := replicate 128 Default_handler\<rparr>)) 72 = Timer_handler 2"
  using irq_dispatches_to_last_registration
    [of "ex_kernel\<lparr>intc_vector_table := replicate 128 Default_handler\<rparr>" 72
        "[(72, Uart0_handler), (200, Uart1_handler), (72, Timer_handler 2)]"]
  by (simp add: table_ok_def irq_vector_def NUM_INTERRUPTS_def)

lemma unat_mask_offsets:
  assumes "unat i < 128"
  shows "unat (INTC_MIRn_CLR_OFF i) = 0x88 + 32 * (unat i div 32)"
    and "unat (INTC_MIRn_SET_OFF i) = 0x8C + 32 * (unat i div 32)"
proof -
  have "unat i div 32 < 4" using assms by simp
  then show "unat (INTC_MIRn_CLR_OFF i) = 0x88 + 32 * (unat i div 32)"
    and "unat (INTC_MIRn_SET_OFF i) = 0x8C + 32 * (unat i div 32)"
    by (simp_all add: INTC_MIRn_CLR_OFF_def INTC_MIRn_SET_OFF_def INTC_IRQ_REG_NUM_def
        unat_word_ariths unat_div_distrib)
qed

lemma irq_bit_inj: "INTC_IRQ_REG_BIT i = INTC_IRQ_REG_BIT j \<longleftrightarrow> unat i mod 32 = unat j mod 32"
proof -
  have "bit (push_bit m 1 :: u32) m" if "m < 32" for m using that by (simp add: bit_simps)
  moreover have "bit (push_bit m 1 :: u32) n \<Longrightarrow> m = n" for m n by (simp add: bit_simps)
  ultimately have "push_bit m 1 = (push_bit n 1 :: u32) \<longleftrightarrow> m = n" if "m < 32" for m n using that by metis
  then show ?thesis by (simp add: INTC_IRQ_REG_BIT_def unat_mod_distrib)
qed

text \<open>
  Enabling and disabling: the pair of mask register and bit that \<^verbatim>\<open>INTC_enable_irq\<close> and
  \<^verbatim>\<open>INTC_disable_irq\<close> use identifies the interrupt among the 128, and none of these registers is a
  register of the controller's own configuration.
\<close>

theorem irq_mask_bits_are_distinct:
  assumes "unat i < 128" "unat j < 128"
  shows "(INTC_MIRn_CLR_OFF i = INTC_MIRn_CLR_OFF j \<and> INTC_IRQ_REG_BIT i = INTC_IRQ_REG_BIT j \<longleftrightarrow> i = j) \<and>
    (INTC_MIRn_SET_OFF i = INTC_MIRn_SET_OFF j \<and> INTC_IRQ_REG_BIT i = INTC_IRQ_REG_BIT j \<longleftrightarrow> i = j) \<and>
    INTC_MIRn_CLR_OFF i \<noteq> INTC_MIRn_SET_OFF j"
proof -
  have ij: "i = j \<longleftrightarrow> unat i div 32 = unat j div 32 \<and> unat i mod 32 = unat j mod 32"
    by (metis div_mult_mod_eq word_unat_eq_iff)
  note off = unat_mask_offsets[OF assms(1)] unat_mask_offsets[OF assms(2)]
  have "INTC_MIRn_CLR_OFF i = INTC_MIRn_CLR_OFF j \<longleftrightarrow> unat i div 32 = unat j div 32"
    "INTC_MIRn_SET_OFF i = INTC_MIRn_SET_OFF j \<longleftrightarrow> unat i div 32 = unat j div 32"
    using off by (simp_all add: word_unat_eq_iff)
  moreover have "unat (INTC_MIRn_CLR_OFF i) mod 32 \<noteq> unat (INTC_MIRn_SET_OFF j) mod 32"
    by (simp add: off mod_mult_self4[of _ 32, simplified mult.commute])
  then have "INTC_MIRn_CLR_OFF i \<noteq> INTC_MIRn_SET_OFF j" by auto
  ultimately show ?thesis using ij irq_bit_inj[of i j] by auto
qed

theorem irq_mask_bits_are_distinct_witness:
  "\<not> (INTC_MIRn_CLR_OFF 72 = INTC_MIRn_CLR_OFF 73 \<and> INTC_IRQ_REG_BIT 72 = INTC_IRQ_REG_BIT 73)"
  using irq_mask_bits_are_distinct[of 72 73] by simp

end
