(* ===== verification/Uart.thy ===== *)
theory Uart
  imports Interrupts
begin

text \<open>
  The input half and the set-up of the UART driver, \<^verbatim>\<open>os/drivers/uart.c\<close>: clocks, pins and line format
  (\<^verbatim>\<open>uart_init\<close>, \<^verbatim>\<open>uart_port_init\<close>), the receive interrupts of both ports, and the readers
  \<^verbatim>\<open>uart_getchar\<close> and \<^verbatim>\<open>uart_readline\<close> over the circular buffers that the interrupts fill.

  The state extends the interrupt state by the two receive buffers. Storing past the caller's line
  buffer has no defined result. The behaviour of the receiver is the hypothesis \<open>serial_in\<close>, with the
  characters that have arrived as the list \<open>rx\<close>. The properties follow a character from the line into
  the buffer and on to the reader, using the queue interface of the circular buffer.
\<close>

section \<open>Registers\<close>

definition CM_PER_BASE :: u32 where [c_consts]: "CM_PER_BASE = 0x44E00000"

definition CM_WKUP_BASE :: u32 where [c_consts]: "CM_WKUP_BASE = 0x44E00400"

definition CM_WKUP_UART0_CLKCTRL :: u32 where [c_consts]: "CM_WKUP_UART0_CLKCTRL = 0xB4"

definition CM_WKUP_L4WKUP_CLKCTRL :: u32 where [c_consts]: "CM_WKUP_L4WKUP_CLKCTRL = 0x0C"

definition CM_PER_UART1_CLKCTRL :: u32 where [c_consts]: "CM_PER_UART1_CLKCTRL = 0x6C"

definition CONTROL_MODULE_BASE :: u32 where [c_consts]: "CONTROL_MODULE_BASE = 0x44E10000"

definition CONTROL_MODULE_UART0_RXD_OFF :: u32 where [c_consts]: "CONTROL_MODULE_UART0_RXD_OFF = 0x970"

definition CONTROL_MODULE_UART0_TXD_OFF :: u32 where [c_consts]: "CONTROL_MODULE_UART0_TXD_OFF = 0x974"

definition CONTROL_MODULE_UART1_RXD_OFF :: u32 where [c_consts]: "CONTROL_MODULE_UART1_RXD_OFF = 0x980"

definition CONTROL_MODULE_UART1_TXD_OFF :: u32 where [c_consts]: "CONTROL_MODULE_UART1_TXD_OFF = 0x984"

definition UART_DLL_OFF :: u32 where [c_consts]: "UART_DLL_OFF = 0x00"

definition UART_IER_UART_OFF :: u32 where [c_consts]: "UART_IER_UART_OFF = 0x04"

definition UART_DLH_OFF :: u32 where [c_consts]: "UART_DLH_OFF = 0x04"

definition UART_EFR_OFF :: u32 where [c_consts]: "UART_EFR_OFF = 0x08"

definition UART_FCR_OFF :: u32 where [c_consts]: "UART_FCR_OFF = 0x08"

definition UART_LCR_OFF :: u32 where [c_consts]: "UART_LCR_OFF = 0x0C"

definition UART_MCR_OFF :: u32 where [c_consts]: "UART_MCR_OFF = 0x10"

definition UART_TLR_OFF :: u32 where [c_consts]: "UART_TLR_OFF = 0x1C"

definition UART_MDR1_OFF :: u32 where [c_consts]: "UART_MDR1_OFF = 0x20"

definition UART_SCR_OFF :: u32 where [c_consts]: "UART_SCR_OFF = 0x40"

definition UART_SYSC_OFF :: u32 where [c_consts]: "UART_SYSC_OFF = 0x54"

definition UART_SYSS_OFF :: u32 where [c_consts]: "UART_SYSS_OFF = 0x58"

section \<open>Set-up\<close>

record 'd uart_io = "'d kernel_io" +
  uart0_rx_buffer :: circular_char_buffer_t
  uart1_rx_buffer :: circular_char_buffer_t

text \<open>The value of the line control register for a frame format.\<close>

definition line_control :: "u16 \<Rightarrow> u16 \<Rightarrow> u16 \<Rightarrow> u16 \<Rightarrow> u32" where
  "line_control num_stop_bits parity_en parity_type char_length =
     push_bit 4 (u32_of_u16 parity_type AND 0x1) OR push_bit 3 (u32_of_u16 parity_en AND 0x1) OR
     push_bit 2 (u32_of_u16 num_stop_bits AND 0x1) OR ((u32_of_u16 char_length - 5) AND 0x3)"

text \<open>FIFO and DMA settings (steps 1 to 12 of the first part), between saving and restoring the mode bits.\<close>

definition port_fifo_setup :: "'d bus \<Rightarrow> u32 \<Rightarrow> 'd \<Rightarrow> 'd" where
  "port_fifo_setup B base_addr d =
    (let (lcr, d) = REG32_read B base_addr UART_LCR_OFF d;
         d = REG32_write B base_addr UART_LCR_OFF 0xBF d;
         (efr_bit4, d) = REG32_read_masked B base_addr UART_EFR_OFF 0x10 d;
         d = REG32_write_masked B base_addr UART_EFR_OFF 0x10 0x10 d;
         d = REG32_write B base_addr UART_LCR_OFF 0x80 d;
         (mcr_bit6, d) = REG32_read_masked B base_addr UART_MCR_OFF 0x40 d;
         d = REG32_write_masked B base_addr UART_MCR_OFF 0x40 0x40 d;
         d = REG32_write B base_addr UART_FCR_OFF 0x07 d;
         d = REG32_write B base_addr UART_LCR_OFF 0xBF d;
         d = REG32_write B base_addr UART_TLR_OFF 0x00 d;
         d = REG32_write B base_addr UART_SCR_OFF 0x00 d;
         d = REG32_write_masked B base_addr UART_EFR_OFF 0x10 efr_bit4 d;
         d = REG32_write B base_addr UART_LCR_OFF 0x80 d;
         d = REG32_write_masked B base_addr UART_MCR_OFF 0x40 mcr_bit6 d
     in REG32_write B base_addr UART_LCR_OFF lcr d)"

text \<open>Protocol, baud rate and interrupt settings (steps 1 to 13 of the second part).\<close>

definition port_protocol_setup :: "'d bus \<Rightarrow> u32 \<Rightarrow> u16 \<Rightarrow> u16 \<Rightarrow> u16 \<Rightarrow> u16 \<Rightarrow> 'd \<Rightarrow> 'd" where
  "port_protocol_setup B base_addr num_stop_bits parity_en parity_type char_length d =
    (let d = REG32_write_masked B base_addr UART_MDR1_OFF 0x7 0x7 d;
         d = REG32_write B base_addr UART_LCR_OFF 0xBF d;
         (efr_bit4, d) = REG32_read_masked B base_addr UART_EFR_OFF 0x10 d;
         d = REG32_write_masked B base_addr UART_EFR_OFF 0x10 0x10 d;
         d = REG32_write B base_addr UART_LCR_OFF 0x00 d;
         d = REG32_write B base_addr UART_IER_UART_OFF 0x00 d;
         d = REG32_write B base_addr UART_LCR_OFF 0xBF d;
         d = REG32_write B base_addr UART_DLL_OFF 0x1A d;
         d = REG32_write B base_addr UART_DLH_OFF 0x00 d;
         d = REG32_write B base_addr UART_LCR_OFF 0x00 d;
         d = REG32_write B base_addr UART_IER_UART_OFF 0x01 d;
         d = REG32_write B base_addr UART_LCR_OFF 0xBF d;
         d = REG32_write_masked B base_addr UART_EFR_OFF 0x10 efr_bit4 d;
         d = REG32_write B base_addr UART_LCR_OFF (line_control num_stop_bits parity_en parity_type char_length) d
     in REG32_write B base_addr UART_MDR1_OFF 0x0 d)"

definition uart_port_init ::
    "'d bus \<Rightarrow> u32 \<Rightarrow> u32 \<Rightarrow> u16 \<Rightarrow> u16 \<Rightarrow> u16 \<Rightarrow> u16 \<Rightarrow> u16 \<Rightarrow> 'd \<Rightarrow> 'd option" where
  "uart_port_init B base_addr baud_rate stop_bit_en num_stop_bits parity_en parity_type char_length d = do {
     let d = REG32_write_masked B base_addr UART_SYSC_OFF 0x2 0x2 d;
     d \<leftarrow> spin_while B (\<lambda>v. v AND 0x1 = 0) base_addr UART_SYSS_OFF d;
     let d = REG32_write B base_addr UART_SYSC_OFF 0x8 d;
     let d = port_fifo_setup B base_addr d;
     Some (port_protocol_setup B base_addr num_stop_bits parity_en parity_type char_length d)
   }"

definition uart0_interrupt_init :: "'d bus \<Rightarrow> ('d, 'm) uart_io_scheme \<Rightarrow> ('d, 'm) uart_io_scheme" where
  "uart0_interrupt_init B s =
     snd (INTC_enable_irq B UART0_INT_NUM
       (INTC_set_priority B UART0_INT_NUM 1 (snd (INTC_register_irq UART0_INT_NUM Uart0_handler s))))"

definition uart1_interrupt_init :: "'d bus \<Rightarrow> ('d, 'm) uart_io_scheme \<Rightarrow> ('d, 'm) uart_io_scheme" where
  "uart1_interrupt_init B s =
     snd (INTC_enable_irq B UART1_INT_NUM
       (INTC_set_priority B UART1_INT_NUM 1 (snd (INTC_register_irq UART1_INT_NUM Uart1_handler s))))"

abbreviation clock_idle :: "u32 \<Rightarrow> bool" where
  "clock_idle v \<equiv> v AND 0x30000 \<noteq> 0"

definition uart_init ::
    "'d bus \<Rightarrow> u16 \<Rightarrow> u32 \<Rightarrow> u16 \<Rightarrow> u16 \<Rightarrow> u16 \<Rightarrow> u16 \<Rightarrow> u16 \<Rightarrow> ('d, 'm) uart_io_scheme \<Rightarrow>
     ('d, 'm) uart_io_scheme option" where
  "uart_init B uart_index baud_rate stop_bit_en num_stop_bits parity_en parity_type char_length s =
     (if uart_index = 0 then do {
        s \<leftarrow> run_dev (\<lambda>d. do {
          let d = REG32_write_masked B CM_WKUP_BASE CM_WKUP_UART0_CLKCTRL 0x3 0x2 d;
          d \<leftarrow> spin_while B clock_idle CM_WKUP_BASE CM_WKUP_UART0_CLKCTRL d;
          let d = REG32_write_masked B CM_WKUP_BASE CM_WKUP_L4WKUP_CLKCTRL 0x3 0x2 d;
          d \<leftarrow> spin_while B clock_idle CM_WKUP_BASE CM_WKUP_L4WKUP_CLKCTRL d;
          let d = REG32_write B CONTROL_MODULE_BASE CONTROL_MODULE_UART0_RXD_OFF 0x30 d;
          let d = REG32_write B CONTROL_MODULE_BASE CONTROL_MODULE_UART0_TXD_OFF 0x10 d;
          uart_port_init B UART0_BASE baud_rate stop_bit_en num_stop_bits parity_en parity_type char_length d }) s;
        let s = uart0_interrupt_init B s;
        Some (s\<lparr>uart0_rx_buffer := circular_char_buffer_init (uart0_rx_buffer s)\<rparr>)
      }
      else if uart_index = 1 then do {
        s \<leftarrow> run_dev (\<lambda>d. do {
          let d = REG32_write_masked B CM_PER_BASE CM_PER_UART1_CLKCTRL 0x3 0x2 d;
          d \<leftarrow> spin_while B clock_idle CM_PER_BASE CM_PER_UART1_CLKCTRL d;
          d \<leftarrow> spin_while B clock_idle CM_WKUP_BASE CM_WKUP_L4WKUP_CLKCTRL d;
          let d = REG32_write B CONTROL_MODULE_BASE CONTROL_MODULE_UART1_RXD_OFF 0x30 d;
          let d = REG32_write B CONTROL_MODULE_BASE CONTROL_MODULE_UART1_TXD_OFF 0x10 d;
          uart_port_init B UART1_BASE baud_rate stop_bit_en num_stop_bits parity_en parity_type char_length d }) s;
        let s = uart1_interrupt_init B s;
        Some (s\<lparr>uart1_rx_buffer := circular_char_buffer_init (uart1_rx_buffer s)\<rparr>)
      }
      else Some s)"

section \<open>Receiving\<close>

definition receive_from :: "'d bus \<Rightarrow> u32 \<Rightarrow> 'd \<Rightarrow> (u8 \<times> 'd) option" where
  "receive_from B uart_base d = do {
     d \<leftarrow> spin_while B (\<lambda>v. v AND 0x1 = 0) uart_base UART_LSR_UART_OFF d;
     let (v, d) = REG32_read B uart_base UART_RHR_OFF d;
     Some (ucast v, d)
   }"

definition uart_getc :: "'d bus \<Rightarrow> 'd \<Rightarrow> (u8 \<times> 'd) option" where
  "uart_getc B d = receive_from B UART0_BASE d"

definition handle_uart0_irq :: "'d bus \<Rightarrow> ('d, 'm) uart_io_scheme \<Rightarrow> ('d, 'm) uart_io_scheme option" where
  "handle_uart0_irq B s = do {
     let d = REG32_write B UART0_BASE UART_IER_UART_OFF 0x00 (dev s);
     (c, d) \<leftarrow> uart_getc B d;
     let c = (if c = CARRIAGE_RETURN then NEWLINE else c);
     d \<leftarrow> uart_putc B c d;
     let (ok, b) = circular_char_buffer_push (uart0_rx_buffer s) c;
     let d = REG32_write B UART0_BASE UART_IER_UART_OFF 0x01 d;
     Some (s\<lparr>dev := d, uart0_rx_buffer := b\<rparr>)
   }"

definition handle_uart1_irq :: "'d bus \<Rightarrow> ('d, 'm) uart_io_scheme \<Rightarrow> ('d, 'm) uart_io_scheme option" where
  "handle_uart1_irq B s = do {
     let d = REG32_write B UART1_BASE UART_IER_UART_OFF 0x00 (dev s);
     (c, d) \<leftarrow> receive_from B UART1_BASE d;
     let c = (if c = CARRIAGE_RETURN then NEWLINE else c);
     let (ok, b) = circular_char_buffer_push (uart1_rx_buffer s) c;
     let d = REG32_write B UART1_BASE UART_IER_UART_OFF 0x01 d;
     Some (s\<lparr>dev := d, uart1_rx_buffer := b\<rparr>)
   }"

text \<open>The array \<^verbatim>\<open>uart_buffers\<close> of two pointers.\<close>

definition rx_buffer :: "u16 \<Rightarrow> ('d, 'm) uart_io_scheme \<Rightarrow> circular_char_buffer_t" where
  "rx_buffer uart_index s = (if uart_index = 0 then uart0_rx_buffer s else uart1_rx_buffer s)"

definition set_rx_buffer ::
    "u16 \<Rightarrow> circular_char_buffer_t \<Rightarrow> ('d, 'm) uart_io_scheme \<Rightarrow> ('d, 'm) uart_io_scheme" where
  "set_rx_buffer uart_index b s =
     (if uart_index = 0 then s\<lparr>uart0_rx_buffer := b\<rparr> else s\<lparr>uart1_rx_buffer := b\<rparr>)"

text \<open>\<open>None\<close> is the return value 0: no such port, or nothing received.\<close>

definition uart_getchar ::
    "u16 \<Rightarrow> ('d, 'm) uart_io_scheme \<Rightarrow> (u8 \<times> ('d, 'm) uart_io_scheme) option" where
  "uart_getchar uart_index s =
     (if 2 \<le> uart_index then None
      else case circular_char_buffer_pop (rx_buffer uart_index s) of
          None \<Rightarrow> None
        | Some (c, b) \<Rightarrow> Some (c, set_rx_buffer uart_index b s))"

function readline_loop ::
    "u16 \<Rightarrow> u32 \<Rightarrow> u32 \<Rightarrow> u8 list \<Rightarrow> ('d, 'm) uart_io_scheme \<Rightarrow>
     (u32 \<times> u8 list \<times> ('d, 'm) uart_io_scheme) option" where
  "readline_loop uart_index limit i buffer s =
     (if i < limit then
        case uart_getchar uart_index s of
          None \<Rightarrow> Some (i, buffer, s)
        | Some (c, s) \<Rightarrow>
            if unat i < length buffer then
              let buffer = buffer[unat i := c]
              in if c = NEWLINE then Some (i + 1, buffer, s)
                 else readline_loop uart_index limit (i + 1) buffer s
            else None
      else Some (i, buffer, s))"
  by pat_completeness auto
termination
proof (relation "measure (\<lambda>(_, limit, i, _, _). unat limit - unat i)", goal_cases)
  case (2 uart_index limit i)
  then have "unat i < unat limit" by (simp add: word_less_nat_alt)
  moreover from this have "unat (i + 1) = Suc (unat i)"
    using unat_u32_bound[of limit] by (simp add: unat_word_ariths)
  ultimately show ?case by simp
qed simp

declare readline_loop.simps [simp del]

definition uart_readline ::
    "u16 \<Rightarrow> u8 list \<Rightarrow> u32 \<Rightarrow> ('d, 'm) uart_io_scheme \<Rightarrow>
     (u32 \<times> u8 list \<times> ('d, 'm) uart_io_scheme) option" where
  "uart_readline uart_index buffer buffer_size s =
     (if 2 \<le> uart_index then Some (0, buffer, s)
      else if ccb_lines (rx_buffer uart_index s) = 0 then Some (0, buffer, s)
      else do {
        (i, buffer, s) \<leftarrow> readline_loop uart_index (buffer_size - 1) 0 buffer s;
        if unat i < length buffer then Some (i, buffer[unat i := 0], s) else None
      })"

section \<open>Reading lines\<close>

text \<open>The first line of a text, with its newline.\<close>

fun first_line :: "u8 list \<Rightarrow> u8 list" where
  "first_line [] = []"
| "first_line (c # q) = (if c = NEWLINE then [c] else c # first_line q)"

lemma first_line_prefix: "take (length (first_line q)) q = first_line q"
  by (induction q) auto

lemma first_line_append: "NEWLINE \<notin> set p \<Longrightarrow> first_line (p @ q) = p @ first_line q"
  by (induction p) auto

lemma rx_buffer_set [simp]:
  "rx_buffer i (set_rx_buffer i b s) = b"
  by (simp add: rx_buffer_def set_rx_buffer_def)

text \<open>Reading a line touches the receive buffer and nothing else of the state.\<close>

lemma set_rx_buffer_same [simp]:
  "set_rx_buffer i (rx_buffer i s) s = s"
  "set_rx_buffer i b (set_rx_buffer i b' s) = set_rx_buffer i b s"
  by (simp_all add: rx_buffer_def set_rx_buffer_def)

lemma readline_loop_frame:
  "readline_loop idx limit i buffer s = Some (n, buf', s') \<Longrightarrow> \<exists>b. s' = set_rx_buffer idx b s"
proof (induction idx limit i buffer s rule: readline_loop.induct)
  case (1 idx limit i buffer s)
  have same: "\<exists>b. s = set_rx_buffer idx b s" using set_rx_buffer_same(1)[of idx s] by metis
  show ?case
  proof (cases "i < limit \<and> uart_getchar idx s \<noteq> None")
    case True
    then obtain c b where g: "uart_getchar idx s = Some (c, set_rx_buffer idx b s)"
      by (auto simp: uart_getchar_def split: if_splits option.splits)
    show ?thesis
    proof (cases "c = NEWLINE")
      case nl: True
      then show ?thesis using True g 1(2) by (auto simp: readline_loop.simps[of idx limit i] Let_def split: if_splits)
    next
      case False
      then have "unat i < length buffer"
        "readline_loop idx limit (i + 1) (buffer[unat i := c]) (set_rx_buffer idx b s) = Some (n, buf', s')"
        using True g 1(2) by (auto simp: readline_loop.simps[of idx limit i] Let_def split: if_splits)
      then show ?thesis using 1(1)[OF _ g] True False by fastforce
    qed
  next
    case False
    then show ?thesis using same 1(2) by (auto simp: readline_loop.simps[of idx limit i] split: if_splits option.splits)
  qed
qed

lemma readline_frame:
  assumes "uart_readline idx buffer buffer_size s = Some (n, buf', s')"
  shows "\<exists>b. s' = set_rx_buffer idx b s"
proof (cases "2 \<le> idx \<or> ccb_lines (rx_buffer idx s) = 0")
  case True
  then have "s' = s" using assms by (auto simp: uart_readline_def split: if_splits)
  then show ?thesis using set_rx_buffer_same(1)[of idx s] by metis
next
  case False
  then show ?thesis
    using assms by (auto simp: uart_readline_def elim!: bind_SomeE dest: readline_loop_frame split: if_splits)
qed

lemma unat_u32_Suc: "(i::u32) < limit \<Longrightarrow> unat (i + 1) = Suc (unat i)"
  using unat_u32_bound[of limit] by (simp add: word_less_nat_alt unat_word_ariths)

lemma readline_loop_eq:
  assumes "\<not> 2 \<le> idx" "ccb_inv (rx_buffer idx s)" "ccb_list (rx_buffer idx s) = q"
    and "i \<le> limit" "w = take (unat limit - unat i) (first_line q)"
    and "unat i + length w \<le> length buffer"
  shows "\<exists>s'. readline_loop idx limit i buffer s =
           Some (i + of_nat (length w), take (unat i) buffer @ w @ drop (unat i + length w) buffer, s') \<and>
         ccb_inv (rx_buffer idx s') \<and> ccb_list (rx_buffer idx s') = drop (length w) q"
  using assms
proof (induction "unat limit - unat i" arbitrary: i s q w buffer)
  case 0
  then have "i = limit" by (simp add: word_le_nat_alt word_unat_eq_iff)
  then show ?case using 0 readline_loop.simps[of idx limit limit buffer s] by simp
next
  case (Suc k)
  have lt: "i < limit" using Suc(2) by (simp add: word_less_nat_alt)
  show ?case
  proof (cases q)
    case Nil
    then have "circular_char_buffer_pop (rx_buffer idx s) = None"
      using Suc.prems char_fifo.pop_empty by blast
    then show ?thesis
      using Nil Suc.prems lt by (simp add: readline_loop.simps[of idx limit i] uart_getchar_def)
  next
    case (Cons c q')
    obtain b where b: "circular_char_buffer_pop (rx_buffer idx s) = Some (c, b)" "ccb_inv b" "ccb_list b = q'"
      using Suc.prems Cons char_fifo.pop_cons by blast
    let ?s = "set_rx_buffer idx b s" and ?buf = "buffer[unat i := c]"
    have i: "unat (i + 1) = Suc (unat i)" using lt by (rule unat_u32_Suc)
    have "w \<noteq> []" using Suc(2) Suc.prems(5) Cons by auto
    then have len: "unat i < length buffer" using Suc.prems(6) by (cases w) auto
    have buf: "take (Suc (unat i)) ?buf = take (unat i) buffer @ [c]"
      using len by (simp add: take_Suc_conv_app_nth)
    have get: "uart_getchar idx s = Some (c, ?s)" using b Suc.prems(1) by (simp add: uart_getchar_def)
    have step: "readline_loop idx limit i buffer s =
        (if c = NEWLINE then Some (i + 1, ?buf, ?s) else readline_loop idx limit (i + 1) ?buf ?s)"
      using lt len get by (subst readline_loop.simps) (simp add: Let_def)
    show ?thesis
    proof (cases "c = NEWLINE")
      case True
      then have "w = [c]" using Suc(2) Suc.prems(5) Cons by simp
      then show ?thesis
        using step True b Cons len by (auto simp: upd_conv_take_nth_drop)
    next
      case False
      define w' where "w' = take (unat limit - unat (i + 1)) (first_line q')"
      have w: "w = c # w'" using Suc(2) Suc.prems(5) Cons False by (simp add: w'_def i take_Cons' split: nat_diff_split)
      have k: "k = unat limit - unat (i + 1)" and le: "i + 1 \<le> limit"
        using Suc(2) lt by (simp_all add: i word_le_nat_alt word_less_nat_alt)
      have rx: "ccb_inv (rx_buffer idx ?s)" "ccb_list (rx_buffer idx ?s) = q'"
        and fits: "unat (i + 1) + length w' \<le> length ?buf" using b Suc.prems(6) w i by simp_all
      obtain s' where "readline_loop idx limit (i + 1) ?buf ?s =
          Some (i + 1 + of_nat (length w'), take (unat (i + 1)) ?buf @ w' @ drop (unat (i + 1) + length w') ?buf, s')"
        "ccb_inv (rx_buffer idx s')" "ccb_list (rx_buffer idx s') = drop (length w') q'"
        using Suc(1)[OF k Suc.prems(1) rx le w'_def fits] by blast
      then show ?thesis using step False w Cons by (auto simp: i buf add.assoc)
    qed
  qed
qed

lemma lines_zero_iff:
  "ccb_inv b \<Longrightarrow> ccb_lines b = 0 \<longleftrightarrow> NEWLINE \<notin> set (ccb_list b)"
  by (simp add: ccb_inv_def count_list_0_iff flip: unat_eq_zero)

lemma readline_line:
  assumes "idx < 2" "ccb_inv (rx_buffer idx s)" "ccb_list (rx_buffer idx s) = q" "NEWLINE \<in> set q"
    and "0 < buffer_size" and w: "w = take (unat buffer_size - 1) (first_line q)"
    and "length w < length buffer"
  shows "\<exists>s'. uart_readline idx buffer buffer_size s =
           Some (of_nat (length w), w @ 0 # drop (length w + 1) buffer, s') \<and>
         ccb_inv (rx_buffer idx s') \<and> ccb_list (rx_buffer idx s') = drop (length w) q"
proof -
  have n: "unat (buffer_size - 1) = unat buffer_size - 1"
    using assms(5) by (simp add: unat_minus_one word_gt_0)
  have lw: "length w < 4294967296"
    using assms(5) unat_u32_bound[of buffer_size] by (auto simp: w word_less_nat_alt)
  have idx: "\<not> 2 \<le> idx" using assms(1) by (simp add: not_le)
  have w': "w = take (unat (buffer_size - 1) - unat (0::u32)) (first_line q)"
    and le: "unat (0::u32) + length w \<le> length buffer" using n w assms(7) by simp_all
  obtain s' where "readline_loop idx (buffer_size - 1) 0 buffer s =
      Some (of_nat (length w), w @ drop (length w) buffer, s')"
    "ccb_inv (rx_buffer idx s')" "ccb_list (rx_buffer idx s') = drop (length w) q"
    using readline_loop_eq[OF idx assms(2,3) _ w' le] by auto
  moreover have "(w @ drop (length w) buffer)[length w := 0] = w @ 0 # drop (length w + 1) buffer"
    using assms(7) by (simp add: Cons_nth_drop_Suc[symmetric])
  ultimately show ?thesis
    using idx lines_zero_iff[OF assms(2)] assms(3,4,7) lw
    by (simp add: uart_readline_def unat_u32_of_nat)
qed

lemma readline_loop_overflow:
  assumes "\<not> 2 \<le> idx" "ccb_inv (rx_buffer idx s)" "ccb_list (rx_buffer idx s) = q"
    and "i \<le> limit" "w = take (unat limit - unat i) (first_line q)"
    and "length buffer < unat i + length w" "unat i \<le> length buffer"
  shows "readline_loop idx limit i buffer s = None"
  using assms
proof (induction "length buffer - unat i" arbitrary: i s q w buffer)
  case 0
  then have i: "unat i = length buffer" and "w \<noteq> []" by auto
  then have lt: "i < limit" and "q \<noteq> []" using 0 by (auto simp: word_less_nat_alt)
  then obtain c b where "circular_char_buffer_pop (rx_buffer idx s) = Some (c, b)"
    using 0 char_fifo.pop_cons by (metis neq_Nil_conv)
  then show ?case
    using lt i 0 by (subst readline_loop.simps) (simp add: uart_getchar_def)
next
  case (Suc k)
  then have "w \<noteq> []" by auto
  then have lt: "i < limit" and "q \<noteq> []" using Suc.prems by (auto simp: word_less_nat_alt)
  then obtain c q' where Cons: "q = c # q'" by (cases q) auto
  obtain b where b: "circular_char_buffer_pop (rx_buffer idx s) = Some (c, b)" "ccb_inv b" "ccb_list b = q'"
    using Suc.prems Cons char_fifo.pop_cons by blast
  let ?s = "set_rx_buffer idx b s" and ?buf = "buffer[unat i := c]"
  have i: "unat (i + 1) = Suc (unat i)" using lt by (rule unat_u32_Suc)
  have len: "unat i < length buffer" using Suc(2) by simp
  have c: "c \<noteq> NEWLINE" using Suc.prems(5,6) Cons len by auto
  define w' where "w' = take (unat limit - unat (i + 1)) (first_line q')"
  have w: "w = c # w'"
    using lt Suc.prems(5) Cons c by (simp add: w'_def i take_Cons' word_less_nat_alt split: nat_diff_split)
  have k: "k = length ?buf - unat (i + 1)" and le: "i + 1 \<le> limit"
    and rx: "ccb_inv (rx_buffer idx ?s)" "ccb_list (rx_buffer idx ?s) = q'"
    and over: "length ?buf < unat (i + 1) + length w'" "unat (i + 1) \<le> length ?buf"
    using Suc(2) Suc.prems(6) lt len b w i by (simp_all add: word_le_nat_alt word_less_nat_alt)
  have "readline_loop idx limit (i + 1) ?buf ?s = None"
    by (rule Suc(1)[OF k Suc.prems(1) rx le w'_def over])
  then show ?case
    using lt len b c Suc.prems(1) by (subst readline_loop.simps) (simp add: uart_getchar_def Let_def)
qed

lemma readline_overflow:
  assumes "idx < 2" "ccb_inv (rx_buffer idx s)" "ccb_list (rx_buffer idx s) = q" "NEWLINE \<in> set q"
    and "0 < buffer_size" and w: "w = take (unat buffer_size - 1) (first_line q)"
    and "length buffer \<le> length w"
  shows "uart_readline idx buffer buffer_size s = None"
proof -
  have n: "unat (buffer_size - 1) = unat buffer_size - 1"
    using assms(5) by (simp add: unat_minus_one word_gt_0)
  have lw: "length w < 4294967296"
    using assms(5) unat_u32_bound[of buffer_size] by (auto simp: w word_less_nat_alt)
  have idx: "\<not> 2 \<le> idx" using assms(1) by (simp add: not_le)
  have w': "w = take (unat (buffer_size - 1) - unat (0::u32)) (first_line q)" using n w by simp
  show ?thesis
  proof (cases "length w = length buffer")
    case True
    then obtain s' where "readline_loop idx (buffer_size - 1) 0 buffer s = Some (of_nat (length w), w, s')"
      using readline_loop_eq[OF idx assms(2,3) _ w', of buffer] by auto
    then show ?thesis
      using idx lines_zero_iff[OF assms(2)] assms(3,4) lw True by (simp add: uart_readline_def unat_u32_of_nat)
  next
    case False
    then show ?thesis
      using readline_loop_overflow[OF idx assms(2,3) _ w'] idx lines_zero_iff[OF assms(2)] assms(3,4,7)
      by (simp add: uart_readline_def)
  qed
qed

text \<open>
  Reading a line: when the receive buffer of a port holds a newline, \<^verbatim>\<open>uart_readline\<close> stores the
  first line in the caller's buffer (newline included, cut at the stated size less one), terminates it
  with a zero byte, returns its length, leaves the rest of the caller's buffer alone and removes
  exactly those characters from the receive buffer. A caller whose buffer is too short for that line
  gets a store past its end. Without a newline, or for a port that does not exist, the call returns 0
  and changes nothing.
\<close>

theorem readline_returns_first_line:
  assumes "ccb_inv (rx_buffer idx s)" "ccb_list (rx_buffer idx s) = q"
    and "0 < buffer_size" "w = take (unat buffer_size - 1) (first_line q)"
  shows "(idx < 2 \<and> NEWLINE \<in> set q \<and> length w < length buffer \<longrightarrow>
      (\<exists>s'. uart_readline idx buffer buffer_size s =
           Some (of_nat (length w), w @ 0 # drop (length w + 1) buffer, s') \<and>
         ccb_inv (rx_buffer idx s') \<and> ccb_list (rx_buffer idx s') = drop (length w) q)) \<and>
    (idx < 2 \<and> NEWLINE \<in> set q \<and> length buffer \<le> length w \<longrightarrow> uart_readline idx buffer buffer_size s = None) \<and>
    (\<not> idx < 2 \<or> NEWLINE \<notin> set q \<longrightarrow> uart_readline idx buffer buffer_size s = Some (0, buffer, s))"
  using readline_line[OF _ assms(1,2) _ assms(3,4)] readline_overflow[OF _ assms(1,2) _ assms(3,4)]
    lines_zero_iff[OF assms(1)] assms(2)
  by (auto simp: uart_readline_def)

definition ex_typed :: circular_char_buffer_t where
  "ex_typed = foldl (\<lambda>b c. snd (circular_char_buffer_push b c))
     \<lparr>ccb_buffer = replicate 512 0, ccb_head = 0, ccb_tail = 0, ccb_size = 0, ccb_lines = 0\<rparr>
     (cstr ''go'' @ [NEWLINE] @ cstr ''x'')"

definition ex_uart :: "line_device uart_io" where
  "ex_uart = \<lparr>dev = ex_idle_line, intc_vector_table = replicate 128 Default_handler, cpsr = 0, vbar = 0,
     ram = (\<lambda>_. 0), uart0_rx_buffer = ex_typed, uart1_rx_buffer = ex_typed\<rparr>"

lemma ex_typed_ok:
  "ccb_list ex_typed = cstr ''go'' @ [NEWLINE] @ cstr ''x''" "ccb_inv ex_typed"
  by (simp_all add: ex_typed_def ccb_ops ccb_list_def ccb_inv_def ring_ok_def next_index_def
      ring_slice_def upt_rec nth_list_update)

theorem readline_returns_first_line_witness:
  "\<exists>s'. uart_readline 1 (replicate 10 7) 10 ex_uart = Some (3, cstr ''go'' @ [NEWLINE, 0] @ replicate 6 7, s') \<and>
        ccb_list (rx_buffer 1 s') = cstr ''x''"
proof -
  have q: "ccb_inv (rx_buffer 1 ex_uart)" "ccb_list (rx_buffer 1 ex_uart) = [103, 111, 10, 120]"
    using ex_typed_ok by (simp_all add: rx_buffer_def ex_uart_def NEWLINE_def)
  have w: "[103, 111, 10] = take (unat (10::u32) - 1) (first_line [103, 111, 10, 120])"
    by (simp add: NEWLINE_def)
  from readline_returns_first_line[OF q _ w, of "replicate 10 7"] show ?thesis by (auto simp: NEWLINE_def)
qed

section \<open>From the line to the reader\<close>

text \<open>
  What the receive interrupt relies on: the console assumptions, and in states with a received
  character the status register shows it at once, the receive register yields it, and neither the status
  register, the transmitter nor the interrupt enable register touches the received characters.
\<close>

definition serial_in :: "'d bus \<Rightarrow> 'd set \<Rightarrow> ('d \<Rightarrow> u8 list) \<Rightarrow> ('d \<Rightarrow> u8 list) \<Rightarrow> bool" where
  "serial_in B S tx rx \<longleftrightarrow> console B S tx \<and>
     (\<forall>d \<in> S.
        rx (snd (bus_read B (UART0_BASE + UART_LSR_UART_OFF) d)) = rx d \<and>
        (rx d \<noteq> [] \<longrightarrow> fst (bus_read B (UART0_BASE + UART_LSR_UART_OFF) d) AND 0x1 \<noteq> 0) \<and>
        (\<forall>c cs. rx d = c # cs \<longrightarrow> (\<exists>d'. bus_read B (UART0_BASE + UART_RHR_OFF) d = (u32_of_u8 c, d') \<and>
                 d' \<in> S \<and> rx d' = cs \<and> tx d' = tx d)) \<and>
        (\<forall>v. rx (bus_write B (UART0_BASE + UART_THR_OFF) v d) = rx d \<and>
             bus_write B (UART0_BASE + UART_IER_UART_OFF) v d \<in> S \<and>
             tx (bus_write B (UART0_BASE + UART_IER_UART_OFF) v d) = tx d \<and>
             rx (bus_write B (UART0_BASE + UART_IER_UART_OFF) v d) = rx d))"

lemma receive_char:
  assumes "serial_in B S tx rx" "d \<in> S" "rx d = c # cs"
  shows "\<exists>d'. uart_getc B d = Some (c, d') \<and> d' \<in> S \<and> rx d' = cs \<and> tx d' = tx d"
proof -
  let ?a = "UART0_BASE + UART_LSR_UART_OFF"
  have "responds B (\<lambda>v. v AND 0x1 = 0) ?a d"
    using assms by (intro responds_0) (auto simp: serial_in_def)
  then have "\<exists>d'. spin_while B (\<lambda>v. v AND 0x1 = 0) UART0_BASE UART_LSR_UART_OFF d = Some d' \<and>
      (d' \<in> S \<and> rx d' = c # cs \<and> tx d' = tx d)"
    using assms by (intro spin_while_total) (auto simp: serial_in_def console_def)
  then obtain d1 where d1: "spin_while B (\<lambda>v. v AND 0x1 = 0) UART0_BASE UART_LSR_UART_OFF d = Some d1"
    "d1 \<in> S" "rx d1 = c # cs" "tx d1 = tx d" by blast
  then obtain d' where "bus_read B (UART0_BASE + UART_RHR_OFF) d1 = (u32_of_u8 c, d')" "d' \<in> S"
    "rx d' = cs" "tx d' = tx d1"
    using assms(1) by (force simp: serial_in_def)
  then show ?thesis
    using d1 by (simp add: uart_getc_def receive_from_def REG32_read_def u8_u32_u8)
qed

lemma echo_char:
  assumes "serial_in B S tx rx" "d \<in> S"
  shows "\<exists>d'. uart_putc B c d = Some d' \<and> d' \<in> S \<and> tx d' = tx d @ crlf [c] \<and> rx d' = rx d"
proof -
  let ?S = "{d' \<in> S. rx d' = rx d}"
  have "console B ?S tx" using assms(1) by (auto simp: serial_in_def console_def)
  then have "emits ?S tx (uart_putc B c) (crlf [c])" by (rule uart_putc_emits)
  moreover have "d \<in> ?S" using assms(2) by simp
  ultimately obtain d' where "uart_putc B c d = Some d'" "d' \<in> ?S" "tx d' = tx d @ crlf [c]"
    by (rule emitsE)
  then show ?thesis by simp
qed

definition typed_char :: "u8 \<Rightarrow> u8" where
  "typed_char c = (if c = CARRIAGE_RETURN then NEWLINE else c)"

lemma uart0_irq_step:
  assumes "serial_in B S tx rx" "dev s \<in> S" "rx (dev s) = c # cs" "ccb_inv (uart0_rx_buffer s)"
    and "length (ccb_list (uart0_rx_buffer s)) < 512"
  shows "\<exists>s'. handle_uart0_irq B s = Some s' \<and> dev s' \<in> S \<and> rx (dev s') = cs \<and>
    tx (dev s') = tx (dev s) @ crlf [typed_char c] \<and> ccb_inv (uart0_rx_buffer s') \<and>
    ccb_list (uart0_rx_buffer s') = ccb_list (uart0_rx_buffer s) @ [typed_char c]"
proof -
  define d0 where "d0 = REG32_write B UART0_BASE UART_IER_UART_OFF 0x00 (dev s)"
  have d0: "d0 \<in> S" "rx d0 = c # cs" "tx d0 = tx (dev s)"
    using assms by (auto simp: d0_def serial_in_def reg_defs)
  obtain d1 where d1: "uart_getc B d0 = Some (c, d1)" "d1 \<in> S" "rx d1 = cs" "tx d1 = tx d0"
    using receive_char[OF assms(1) d0(1,2)] by blast
  obtain d2 where d2: "uart_putc B (typed_char c) d1 = Some d2" "d2 \<in> S"
    "tx d2 = tx d1 @ crlf [typed_char c]" "rx d2 = rx d1"
    using echo_char[OF assms(1) d1(2)] by blast
  obtain b where b: "circular_char_buffer_push (uart0_rx_buffer s) (typed_char c) = (True, b)" "ccb_inv b"
    "ccb_list b = ccb_list (uart0_rx_buffer s) @ [typed_char c]"
    using char_fifo.push_room[OF assms(4,5)] by blast
  have d3: "bus_write B (UART0_BASE + UART_IER_UART_OFF) v d2 \<in> S"
    "tx (bus_write B (UART0_BASE + UART_IER_UART_OFF) v d2) = tx d2"
    "rx (bus_write B (UART0_BASE + UART_IER_UART_OFF) v d2) = rx d2" for v
    using assms(1) d2(2) by (auto simp: serial_in_def)
  show ?thesis
    using d0 d1 d2 b d3
    by (simp add: handle_uart0_irq_def d0_def[symmetric] typed_char_def[symmetric] REG32_write_def[of B _ _ 1])
qed

text \<open>One interrupt per received character.\<close>

fun serve_uart0 :: "'d bus \<Rightarrow> nat \<Rightarrow> ('d, 'm) uart_io_scheme \<Rightarrow> ('d, 'm) uart_io_scheme option" where
  "serve_uart0 B 0 s = Some s"
| "serve_uart0 B (Suc n) s = do { s \<leftarrow> handle_uart0_irq B s; serve_uart0 B n s }"

lemma serve_uart0_queue:
  assumes "serial_in B S tx rx" "dev s \<in> S" "rx (dev s) = typed @ rest" "ccb_inv (uart0_rx_buffer s)"
    and "length (ccb_list (uart0_rx_buffer s)) + length typed \<le> 512"
  shows "\<exists>s'. serve_uart0 B (length typed) s = Some s' \<and> dev s' \<in> S \<and> rx (dev s') = rest \<and>
    tx (dev s') = tx (dev s) @ crlf (map typed_char typed) \<and> ccb_inv (uart0_rx_buffer s') \<and>
    ccb_list (uart0_rx_buffer s') = ccb_list (uart0_rx_buffer s) @ map typed_char typed"
  using assms(2-)
proof (induction typed arbitrary: s)
  case Nil
  then show ?case by simp
next
  case (Cons c typed)
  obtain s1 where s1: "handle_uart0_irq B s = Some s1" "dev s1 \<in> S" "rx (dev s1) = typed @ rest"
    "tx (dev s1) = tx (dev s) @ crlf [typed_char c]" "ccb_inv (uart0_rx_buffer s1)"
    "ccb_list (uart0_rx_buffer s1) = ccb_list (uart0_rx_buffer s) @ [typed_char c]"
    using uart0_irq_step[OF assms(1) Cons.prems(1), of c "typed @ rest"] Cons.prems by auto
  then show ?case using Cons.IH[OF s1(2,3,5)] Cons.prems(4) by auto
qed

text \<open>
  C17. A typed line reaches the program: starting with an empty receive buffer, when the characters of a
  line arrive, end in a carriage return and raise one interrupt each, the handler echoes each of them
  and \<^verbatim>\<open>uart_readline\<close> then returns exactly that line, its carriage return turned into a newline,
  and leaves the receive buffer empty.
\<close>

theorem typed_line_is_read:
  assumes "serial_in B S tx rx" "dev s \<in> S" "rx (dev s) = typed @ [CARRIAGE_RETURN]"
    and "ccb_inv (uart0_rx_buffer s)" "ccb_list (uart0_rx_buffer s) = []"
    and "CARRIAGE_RETURN \<notin> set typed" "NEWLINE \<notin> set typed" "length typed < 512"
    and "length typed + 2 \<le> unat buffer_size" "unat buffer_size \<le> length buffer"
  shows "\<exists>s1 s2. serve_uart0 B (length typed + 1) s = Some s1 \<and>
    tx (dev s1) = tx (dev s) @ typed @ [CARRIAGE_RETURN, NEWLINE] \<and>
    uart_readline 0 buffer buffer_size s1 =
      Some (of_nat (length typed + 1), typed @ [NEWLINE, 0] @ drop (length typed + 2) buffer, s2) \<and>
    ccb_list (uart0_rx_buffer s2) = []"
proof -
  let ?line = "typed @ [CARRIAGE_RETURN]" and ?w = "typed @ [NEWLINE]"
  have same: "map typed_char typed = typed"
    using assms(6) by (intro map_idI) (auto simp: typed_char_def)
  then have line: "map typed_char ?line = ?w" by (simp add: typed_char_def)
  have echo: "crlf ?w = typed @ [CARRIAGE_RETURN, NEWLINE]"
    using crlf_plain[of typed] assms(7) by auto
  obtain s1 where s1: "serve_uart0 B (length ?line) s = Some s1" "tx (dev s1) = tx (dev s) @ crlf ?w"
    "ccb_inv (uart0_rx_buffer s1)" "ccb_list (uart0_rx_buffer s1) = ?w"
    using serve_uart0_queue[OF assms(1,2), of ?line "[]"] assms(3,4,5,8) line by auto
  have rx: "rx_buffer 0 s = uart0_rx_buffer s" for s :: "('a, 'b) uart_io_scheme" by (simp add: rx_buffer_def)
  have w: "?w = take (unat buffer_size - 1) (first_line ?w)"
    using assms(7,9) by (simp add: first_line_append)
  have "0 < buffer_size" using assms(9) by (cases "buffer_size = 0") (auto simp: word_gt_0)
  then obtain s2 where "uart_readline 0 buffer buffer_size s1 =
      Some (of_nat (length ?w), ?w @ 0 # drop (length ?w + 1) buffer, s2)"
    "ccb_list (rx_buffer 0 s2) = drop (length ?w) ?w"
    using readline_line[OF _ _ _ _ _ w, of 0 s1 buffer] s1(3,4) rx assms(9,10) by auto
  then show ?thesis using s1 echo rx by auto
qed

lemma ex_line_rhr:
  "bus_read ex_line (UART0_BASE + UART_RHR_OFF) d =
     (case received d of [] \<Rightarrow> (0, d) | c # cs \<Rightarrow> (u32_of_u8 c, d\<lparr>received := cs\<rparr>))"
  by (simp add: ex_line_def c_consts)

lemma ex_line_ier: "bus_write ex_line (UART0_BASE + UART_IER_UART_OFF) v d = d"
  by (simp add: ex_line_def c_consts)

lemma ex_lsr_received: "received d \<noteq> [] \<Longrightarrow> fst (bus_read ex_line (UART0_BASE + UART_LSR_UART_OFF) d) AND 0x1 \<noteq> 0"
  by (simp add: ex_line_ops)

lemma ex_serial_in: "serial_in ex_line UNIV sent received"
  unfolding serial_in_def
  using ex_lsr_received by (auto simp: ex_console ex_line_rhr ex_line_ier ex_line_ops(1) simp del: One_nat_def)
    (simp_all add: ex_line_ops)

definition ex_empty_buffer :: circular_char_buffer_t where
  "ex_empty_buffer = circular_char_buffer_init
     \<lparr>ccb_buffer = replicate 512 0, ccb_head = 0, ccb_tail = 0, ccb_size = 0, ccb_lines = 0\<rparr>"

lemma ex_empty_buffer_ok: "ccb_inv ex_empty_buffer" "ccb_list ex_empty_buffer = []"
  using char_fifo.inv_init char_fifo.contents_init by (simp_all add: ex_empty_buffer_def ccb_array_ok_def)

theorem typed_line_is_read_witness:
  "\<exists>s1 s2. serve_uart0 ex_line 3
       (ex_uart\<lparr>dev := ex_idle_line\<lparr>received := cstr ''hi'' @ [13]\<rparr>, uart0_rx_buffer := ex_empty_buffer\<rparr>) = Some s1 \<and>
     uart_readline 0 (replicate 8 0) 8 s1 = Some (3, cstr ''hi'' @ [NEWLINE, 0] @ replicate 4 0, s2)"
  using typed_line_is_read[OF ex_serial_in UNIV_I,
      of "ex_uart\<lparr>dev := ex_idle_line\<lparr>received := cstr ''hi'' @ [13]\<rparr>, uart0_rx_buffer := ex_empty_buffer\<rparr>"
         "cstr ''hi''" 8 "replicate 8 0"] ex_empty_buffer_ok
  by (auto simp: NEWLINE_def numeral_3_eq_3)

section \<open>Port settings\<close>

lemma line_control_fields:
  assumes "5 \<le> char_length" "char_length \<le> 8"
    and "v = line_control num_stop_bits parity_en parity_type char_length"
  shows "v AND 0xE0 = 0" "unat (v AND 0x3) + 5 = unat char_length"
    "bit v 2 \<longleftrightarrow> bit num_stop_bits 0" "bit v 3 \<longleftrightarrow> bit parity_en 0" "bit v 4 \<longleftrightarrow> bit parity_type 0"
proof -
  have m: "(0xE0::u32) = push_bit 5 (mask 3)" "(3::u32) = mask 2" by (simp_all add: mask_eq_exp_minus_1)
  have odd: "odd (u32_of_u16 x) \<longleftrightarrow> bit x 0" for x
    by (simp add: bit_unsigned_iff flip: bit_0)
  have one: "x AND 1 = take_bit 1 x" for x :: u32 by (simp add: take_bit_eq_mod and_one_eq)
  note v = assms(3)[unfolded line_control_def]
  show "v AND 0xE0 = 0" unfolding v m one
    by (rule bit_word_eqI) (auto simp: bit_simps)
  have "v AND 0x3 = (u32_of_u16 char_length - 5) AND 0x3" unfolding v m one
    by (rule bit_word_eqI) (auto simp: bit_simps)
  moreover have "unat ((u32_of_u16 char_length - 5) AND 0x3) = unat char_length - 5"
  proof -
    have "unat (u32_of_u16 char_length - 5) = unat char_length - 5"
      using assms(1) by (subst unat_sub) (simp_all add: word_le_nat_alt)
    moreover have "unat char_length - 5 < 4" using assms(2) by (simp add: word_le_nat_alt)
    ultimately show ?thesis by (simp add: m take_bit_eq_mask[symmetric] unsigned_take_bit_eq take_bit_nat_eq_self)
  qed
  ultimately show "unat (v AND 0x3) + 5 = unat char_length" using assms(1) by (simp add: word_le_nat_alt)
  show "bit v 2 \<longleftrightarrow> bit num_stop_bits 0" "bit v 3 \<longleftrightarrow> bit parity_en 0" "bit v 4 \<longleftrightarrow> bit parity_type 0"
    unfolding v one using odd by (simp_all add: bit_simps)
qed

text \<open>
  Line settings: \<^verbatim>\<open>uart_port_init\<close> returns once the port reports the end of its reset, and it leaves
  the line control register out of configuration mode, with the character length, stop bit and parity
  it was asked for: the register decodes to the arguments.
\<close>

theorem port_init_line_settings:
  assumes "\<forall>d. responds B (\<lambda>v. v AND 0x1 = 0) (base_addr + UART_SYSS_OFF) d"
    and "\<forall>d v. lcr (bus_write B (base_addr + UART_LCR_OFF) v d) = v"
    and "\<forall>d v. lcr (bus_write B (base_addr + UART_MDR1_OFF) v d) = lcr d"
    and "5 \<le> char_length" "char_length \<le> 8"
  shows "\<exists>d'. uart_port_init B base_addr baud_rate stop_bit_en num_stop_bits parity_en parity_type char_length d = Some d' \<and>
    lcr d' AND 0xE0 = 0 \<and> unat (lcr d' AND 0x3) + 5 = unat char_length \<and>
    (bit (lcr d') 2 \<longleftrightarrow> bit num_stop_bits 0) \<and> (bit (lcr d') 3 \<longleftrightarrow> bit parity_en 0) \<and>
    (bit (lcr d') 4 \<longleftrightarrow> bit parity_type 0)"
proof -
  let ?v = "line_control num_stop_bits parity_en parity_type char_length"
  obtain d1 where "spin_while B (\<lambda>v. v AND 0x1 = 0) base_addr UART_SYSS_OFF
      (REG32_write_masked B base_addr UART_SYSC_OFF 0x2 0x2 d) = Some d1"
    using spin_while_total[of B "\<lambda>v. v AND 0x1 = 0" base_addr UART_SYSS_OFF _ "\<lambda>_. True"] assms(1) by auto
  moreover have "lcr (port_protocol_setup B base_addr num_stop_bits parity_en parity_type char_length d) = ?v" for d
    using assms(2,3) by (simp add: port_protocol_setup_def Let_def split_beta REG32_write_def)
  ultimately obtain d' where
    d': "uart_port_init B base_addr baud_rate stop_bit_en num_stop_bits parity_en parity_type char_length d = Some d'"
    and lcr: "lcr d' = ?v"
    by (simp add: uart_port_init_def)
  show ?thesis using d' line_control_fields[OF assms(4,5) lcr] by simp
qed

text \<open>A port whose reset is done at once and that remembers its line control register.\<close>

definition ex_port :: "u32 bus" where
  "ex_port = \<lparr>bus_read = (\<lambda>a d. (1, d)),
     bus_write = (\<lambda>a v d. if a = UART1_BASE + UART_LCR_OFF then v else d)\<rparr>"

theorem port_init_line_settings_witness:
  "\<exists>d'. uart_port_init ex_port UART1_BASE 115200 1 0 0 0 8 0 = Some d' \<and> unat (d' AND 0x3) + 5 = 8"
proof -
  have "\<forall>d. responds ex_port (\<lambda>v. v AND 0x1 = 0) (UART1_BASE + UART_SYSS_OFF) d"
    by (intro allI responds_0) (simp add: ex_port_def)
  moreover have "\<forall>d v. bus_write ex_port (UART1_BASE + UART_LCR_OFF) v d = v"
    "\<forall>d v. bus_write ex_port (UART1_BASE + UART_MDR1_OFF) v d = d"
    by (simp_all add: ex_port_def c_consts)
  ultimately show ?thesis
    using port_init_line_settings[of ex_port UART1_BASE "\<lambda>d. d" 8 115200 1 0 0 0 0] by auto
qed

end
