(* ===== verification/Motor.thy ===== *)
theory Motor
  imports Uart
begin

text \<open>
  General-purpose pins and motors: \<^verbatim>\<open>os/drivers/gpio.c\<close>, \<^verbatim>\<open>os/drivers/motor.c\<close> and one round of the
  motor task of \<^verbatim>\<open>os/scheduler/scheduler.c\<close> (the same round as in \<^verbatim>\<open>motor_test_sequence\<close>), which turns
  joystick frames from UART1 into motor commands.

  The state extends the UART state by the array of motors. Indexing that array out of bounds and
  shifting by 32 or more have no defined result. The output pins are the hypothesis \<open>gpio_out\<close>: writes
  to the set and clear registers switch bits on and off, other accesses leave them alone. The invariant
  \<open>pins_match\<close> says which pins the code drives for the recorded motor states, and every command keeps it.
  What the pins mean is documented in \<^verbatim>\<open>motor.h\<close> and decoded in \<^verbatim>\<open>motor_read\<close>, the other way
  round: \<open>documented_motion\<close>.
\<close>

section \<open>Pins\<close>

definition GPIO1_BASE :: u32 where [c_consts]: "GPIO1_BASE = 0x4804C000"

definition CM_PER_GPIO1_CLKCTRL :: u32 where [c_consts]: "CM_PER_GPIO1_CLKCTRL = 0xAC"

definition GPIO_CTRL_OFF :: u32 where [c_consts]: "GPIO_CTRL_OFF = 0x130"

definition GPIO_OE_OFF :: u32 where [c_consts]: "GPIO_OE_OFF = 0x134"

definition GPIO_DATAIN_OFF :: u32 where [c_consts]: "GPIO_DATAIN_OFF = 0x138"

definition GPIO_CLEARDATAOUT_OFF :: u32 where [c_consts]: "GPIO_CLEARDATAOUT_OFF = 0x190"

definition GPIO_SETDATAOUT_OFF :: u32 where [c_consts]: "GPIO_SETDATAOUT_OFF = 0x194"

definition LED2 :: u32 where [c_consts]: "LED2 = push_bit 21 0x4"

definition LED3 :: u32 where [c_consts]: "LED3 = push_bit 21 0x8"

datatype GpioPinDirection = GpioPinOut | GpioPinIn

definition direction_code :: "GpioPinDirection \<Rightarrow> u32" where
  "direction_code dir = (case dir of GpioPinOut \<Rightarrow> 0 | GpioPinIn \<Rightarrow> 1)"

definition GPIO_init :: "'d bus \<Rightarrow> 'd \<Rightarrow> 'd option" where
  "GPIO_init B d = do {
     let d = REG32_write B CM_PER_BASE CM_PER_GPIO1_CLKCTRL 0x2 d;
     d \<leftarrow> spin_while B (\<lambda>v. v AND 0x30000 \<noteq> 0) CM_PER_BASE CM_PER_GPIO1_CLKCTRL d;
     Some (REG32_write B GPIO1_BASE GPIO_CTRL_OFF 0x0 d)
   }"

definition GpioSetPinMode :: "'d bus \<Rightarrow> u32 \<Rightarrow> u32 \<Rightarrow> GpioPinDirection \<Rightarrow> 'd \<Rightarrow> 'd" where
  "GpioSetPinMode B Gpio PinMask dir d = REG32_write_masked B Gpio GPIO_OE_OFF PinMask (direction_code dir) d"

definition GPIO_set :: "'d bus \<Rightarrow> u32 \<Rightarrow> u32 \<Rightarrow> 'd \<Rightarrow> 'd" where
  "GPIO_set B gpio_base pins d = REG32_write B gpio_base GPIO_SETDATAOUT_OFF pins d"

definition GPIO_clear :: "'d bus \<Rightarrow> u32 \<Rightarrow> u32 \<Rightarrow> 'd \<Rightarrow> 'd" where
  "GPIO_clear B gpio_base pins d = REG32_write B gpio_base GPIO_CLEARDATAOUT_OFF pins d"

definition GPIO_get :: "'d bus \<Rightarrow> u32 \<Rightarrow> u32 \<Rightarrow> 'd \<Rightarrow> (int \<times> 'd) option" where
  "GPIO_get B gpio_base pin d =
     (let (bank, d) = REG32_read B gpio_base GPIO_DATAIN_OFF d
      in if unat pin < 32 then Some (of_bool (bit bank (unat pin)), d) else None)"

section \<open>Motors\<close>

datatype motor_state_t = MOTOR_STOP | MOTOR_FORWARD | MOTOR_BACKWARD

record motor_t =
  motor_number :: int
  gpio_base :: u32
  pin1 :: u32
  pin2 :: u32
  en_pin :: u32
  mstate :: motor_state_t

definition NUM_MOTORS :: nat where [c_consts]: "NUM_MOTORS = 2"

definition LEFT :: nat where [c_consts]: "LEFT = 0"

definition RIGHT :: nat where [c_consts]: "RIGHT = 1"

definition LEFT_MOTOR_PIN1 :: u32 where [c_consts]: "LEFT_MOTOR_PIN1 = 0x20"

definition LEFT_MOTOR_PIN2 :: u32 where [c_consts]: "LEFT_MOTOR_PIN2 = 0x10"

definition RIGHT_MOTOR_PIN1 :: u32 where [c_consts]: "RIGHT_MOTOR_PIN1 = 0x04"

definition RIGHT_MOTOR_PIN2 :: u32 where [c_consts]: "RIGHT_MOTOR_PIN2 = 0x08"

definition LEFT_MOTOR_EN :: u32 where [c_consts]: "LEFT_MOTOR_EN = 0x80"

definition RIGHT_MOTOR_EN :: u32 where [c_consts]: "RIGHT_MOTOR_EN = 0x40"

definition MOTOR_DIR_FORWARD :: u32 where [c_consts]: "MOTOR_DIR_FORWARD = 0x01"

definition MOTOR_DIR_BACKWARD :: u32 where [c_consts]: "MOTOR_DIR_BACKWARD = 0x02"

definition MOTOR_DIR_STOP :: u32 where [c_consts]: "MOTOR_DIR_STOP = 0x04"

definition MOTOR_DIR_LEFT :: u32 where [c_consts]: "MOTOR_DIR_LEFT = 0x08"

definition MOTOR_DIR_RIGHT :: u32 where [c_consts]: "MOTOR_DIR_RIGHT = 0x10"

definition MOTOR_SET_DIR :: u32 where [c_consts]: "MOTOR_SET_DIR = 1"

definition MOTOR_SET_SPEED :: u32 where [c_consts]: "MOTOR_SET_SPEED = 2"

record 'd motor_io = "'d uart_io" +
  motors :: "motor_t list"

definition motors_stop :: "'d bus \<Rightarrow> ('d, 'm) motor_io_scheme \<Rightarrow> ('d, 'm) motor_io_scheme" where
  "motors_stop B s =
     foldl (\<lambda>s i. on_dev (GPIO_clear B (gpio_base (motors s ! i)) (en_pin (motors s ! i))) s) s [0..<NUM_MOTORS]"

definition start_motor :: "'d bus \<Rightarrow> motor_t \<Rightarrow> 'd \<Rightarrow> 'd" where
  "start_motor B m d =
     (let d = (case mstate m of
                 MOTOR_STOP \<Rightarrow> GPIO_clear B (gpio_base m) (pin2 m) (GPIO_clear B (gpio_base m) (pin1 m) d)
               | MOTOR_FORWARD \<Rightarrow> GPIO_clear B (gpio_base m) (pin2 m) (GPIO_set B (gpio_base m) (pin1 m) d)
               | MOTOR_BACKWARD \<Rightarrow> GPIO_set B (gpio_base m) (pin2 m) (GPIO_clear B (gpio_base m) (pin1 m) d))
      in if mstate m \<noteq> MOTOR_STOP then GPIO_set B (gpio_base m) (en_pin m) d else d)"

definition motors_start :: "'d bus \<Rightarrow> ('d, 'm) motor_io_scheme \<Rightarrow> ('d, 'm) motor_io_scheme" where
  "motors_start B s = foldl (\<lambda>s i. on_dev (start_motor B (motors s ! i)) s) s [0..<NUM_MOTORS]"

definition all_motor_pins :: u32 where
  "all_motor_pins = LEFT_MOTOR_PIN1 OR LEFT_MOTOR_PIN2 OR LEFT_MOTOR_EN OR
     RIGHT_MOTOR_PIN1 OR RIGHT_MOTOR_PIN2 OR RIGHT_MOTOR_EN"

text \<open>The state field is left as it is; it is zero (stopped) in the fresh array.\<close>

definition motor_init :: "'d bus \<Rightarrow> ('d, 'm) motor_io_scheme \<Rightarrow> ('d, 'm) motor_io_scheme" where
  "motor_init B s =
     (let ms = motors s;
          ms = ms[LEFT := (ms ! LEFT)\<lparr>motor_number := int LEFT, gpio_base := GPIO1_BASE,
                 pin1 := LEFT_MOTOR_PIN1, pin2 := LEFT_MOTOR_PIN2, en_pin := LEFT_MOTOR_EN\<rparr>];
          ms = ms[RIGHT := (ms ! RIGHT)\<lparr>motor_number := int RIGHT, gpio_base := GPIO1_BASE,
                 pin1 := RIGHT_MOTOR_PIN1, pin2 := RIGHT_MOTOR_PIN2, en_pin := RIGHT_MOTOR_EN\<rparr>];
          s = s\<lparr>motors := ms\<rparr>;
          s = on_dev (GpioSetPinMode B GPIO1_BASE all_motor_pins GpioPinOut) s
      in on_dev (GPIO_clear B GPIO1_BASE all_motor_pins) s)"

definition set_state :: "nat \<Rightarrow> motor_state_t \<Rightarrow> motor_t list \<Rightarrow> motor_t list" where
  "set_state i st ms = ms[i := (ms ! i)\<lparr>mstate := st\<rparr>]"

definition motors_set_dir :: "u32 \<Rightarrow> ('d, 'm) motor_io_scheme \<Rightarrow> ('d, 'm) motor_io_scheme" where
  "motors_set_dir dirs s =
     (if dirs AND MOTOR_DIR_STOP \<noteq> 0
      then s\<lparr>motors := set_state RIGHT MOTOR_STOP (set_state LEFT MOTOR_STOP (motors s))\<rparr>
      else
        let ms = motors s;
            ms = (if dirs AND MOTOR_DIR_FORWARD \<noteq> 0
                  then set_state RIGHT MOTOR_FORWARD (set_state LEFT MOTOR_FORWARD ms) else ms);
            ms = (if dirs AND MOTOR_DIR_BACKWARD \<noteq> 0
                  then set_state RIGHT MOTOR_BACKWARD (set_state LEFT MOTOR_BACKWARD ms) else ms);
            ms = (if dirs AND MOTOR_DIR_LEFT \<noteq> 0 then set_state LEFT MOTOR_STOP ms else ms);
            ms = (if dirs AND MOTOR_DIR_RIGHT \<noteq> 0 then set_state RIGHT MOTOR_STOP ms else ms)
        in s\<lparr>motors := ms\<rparr>)"

definition motor_ioctl :: "'d bus \<Rightarrow> u32 \<Rightarrow> u32 \<Rightarrow> ('d, 'm) motor_io_scheme \<Rightarrow> int \<times> ('d, 'm) motor_io_scheme" where
  "motor_ioctl B cmd v s =
     (let s = motors_stop B s;
          s = (if cmd = MOTOR_SET_DIR then motors_set_dir v s else s);
          s = motors_start B s
      in (0, s))"

text \<open>The value read is computed from the pins but never stored in the caller's buffer.\<close>

definition motor_read :: "'d bus \<Rightarrow> int \<Rightarrow> ('d, 'm) motor_io_scheme \<Rightarrow> (int \<times> ('d, 'm) motor_io_scheme) option" where
  "motor_read B motor_num s =
     (if motor_num < 0 \<or> int NUM_MOTORS < motor_num then Some (- 1, s)
      else if length (motors s) \<le> nat motor_num then None
      else do {
        let m = motors s ! nat motor_num;
        (pin1_value, d) \<leftarrow> GPIO_get B (gpio_base m) (pin1 m) (dev s);
        (pin2_value, d) \<leftarrow> GPIO_get B (gpio_base m) (pin2 m) d;
        Some (0, s\<lparr>dev := d\<rparr>)
      })"

definition motor_write ::
    "'d bus \<Rightarrow> int \<Rightarrow> u32 \<Rightarrow> ('d, 'm) motor_io_scheme \<Rightarrow> (int \<times> ('d, 'm) motor_io_scheme) option" where
  "motor_write B motor_num v s =
     (if motor_num < 0 \<or> int NUM_MOTORS < motor_num then Some (- 1, s)
      else if length (motors s) \<le> nat motor_num then None
      else
        let m = motors s ! nat motor_num in
        Some (0, on_dev (\<lambda>d.
          if v = 0 then GPIO_clear B (gpio_base m) (pin2 m) (GPIO_clear B (gpio_base m) (pin1 m) d)
          else if 0 <s v then GPIO_clear B (gpio_base m) (pin2 m) (GPIO_set B (gpio_base m) (pin1 m) d)
          else GPIO_set B (gpio_base m) (pin2 m) (GPIO_clear B (gpio_base m) (pin1 m) d)) s))"

section \<open>The motor task\<close>

definition joystick_command :: "int \<Rightarrow> int \<Rightarrow> u32" where
  "joystick_command x y =
     (if x > - 5 \<and> x < 5 \<and> y > 5 then MOTOR_DIR_FORWARD
      else if x > - 5 \<and> x < 5 \<and> y < - 5 then MOTOR_DIR_BACKWARD
      else if x > 5 \<and> y > 5 then MOTOR_DIR_FORWARD OR MOTOR_DIR_RIGHT
      else if x > 5 \<and> y < - 5 then MOTOR_DIR_BACKWARD OR MOTOR_DIR_RIGHT
      else if x < - 5 \<and> y > 5 then MOTOR_DIR_FORWARD OR MOTOR_DIR_LEFT
      else if x < - 5 \<and> y < - 5 then MOTOR_DIR_BACKWARD OR MOTOR_DIR_LEFT
      else if (x > - 5 \<and> x < 5) \<and> (y > - 5 \<and> y < 5) then MOTOR_DIR_STOP
      else MOTOR_DIR_STOP)"

text \<open>One round of the loop, before the task yields; the line buffer has ten bytes.\<close>

definition motor_task_step ::
    "'d bus \<Rightarrow> u8 list \<Rightarrow> ('d, 'm) motor_io_scheme \<Rightarrow> (u8 list \<times> ('d, 'm) motor_io_scheme) option" where
  "motor_task_step B uart_buffer s = do {
     (rd, uart_buffer, s) \<leftarrow> uart_readline 1 uart_buffer 100 s;
     if rd = 5 then do {
       let x_joystick = int (unat (uart_buffer ! 1)) - 128;
       let y_joystick = int (unat (uart_buffer ! 3)) - 128;
       s \<leftarrow> run_dev (uart_printf B (line ''Received: x:%d, y:%d'')
              [VInt (word_of_int x_joystick), VInt (word_of_int y_joystick)]) s;
       Some (uart_buffer, snd (motor_ioctl B MOTOR_SET_DIR (joystick_command x_joystick y_joystick) s))
     } else Some (uart_buffer, s)
   }"

definition motor_task_start :: "'d bus \<Rightarrow> ('d, 'm) motor_io_scheme \<Rightarrow> ('d, 'm) motor_io_scheme option" where
  "motor_task_start B s = do {
     s \<leftarrow> run_dev (uart_printf B (line ''Motor task running...'') []) s;
     run_dev (uart_printf B (line ''Motor task: Motors initialized'') []) (motor_init B s)
   }"

section \<open>Pins follow states\<close>

definition gpio_out :: "'d bus \<Rightarrow> ('d \<Rightarrow> u32) \<Rightarrow> bool" where
  "gpio_out B out \<longleftrightarrow>
     (\<forall>a v d. out (bus_write B a v d) =
        (if a = GPIO1_BASE + GPIO_SETDATAOUT_OFF then out d OR v
         else if a = GPIO1_BASE + GPIO_CLEARDATAOUT_OFF then out d AND NOT v
         else out d)) \<and>
     (\<forall>a d. out (snd (bus_read B a d)) = out d)"

text \<open>The pins a motor in a given state needs: direction pins and enable pin.\<close>

definition motor_pins :: "motor_t \<Rightarrow> u32" where
  "motor_pins m =
     (case mstate m of MOTOR_STOP \<Rightarrow> 0 | MOTOR_FORWARD \<Rightarrow> pin1 m OR en_pin m | MOTOR_BACKWARD \<Rightarrow> pin2 m OR en_pin m)"

definition wired :: "motor_t list \<Rightarrow> bool" where
  "wired ms \<longleftrightarrow> length ms = 2 \<and>
     gpio_base (ms ! 0) = GPIO1_BASE \<and> pin1 (ms ! 0) = 0x20 \<and> pin2 (ms ! 0) = 0x10 \<and> en_pin (ms ! 0) = 0x80 \<and>
     gpio_base (ms ! 1) = GPIO1_BASE \<and> pin1 (ms ! 1) = 0x04 \<and> pin2 (ms ! 1) = 0x08 \<and> en_pin (ms ! 1) = 0x40"

text \<open>The six motor pins show the states of the two motors.\<close>

definition pins_match :: "('d \<Rightarrow> u32) \<Rightarrow> ('d, 'm) motor_io_scheme \<Rightarrow> bool" where
  "pins_match out s \<longleftrightarrow> wired (motors s) \<and>
     out (dev s) AND 0xFC = motor_pins (motors s ! 0) OR motor_pins (motors s ! 1)"

lemma out_set [simp]:
  "gpio_out B out \<Longrightarrow> out (GPIO_set B GPIO1_BASE v d) = out d OR v"
  "gpio_out B out \<Longrightarrow> out (GPIO_clear B GPIO1_BASE v d) = out d AND NOT v"
  "gpio_out B out \<Longrightarrow> out (GpioSetPinMode B GPIO1_BASE v dir d) = out d"
  by (simp_all add: gpio_out_def GPIO_set_def GPIO_clear_def GpioSetPinMode_def reg_defs split_beta c_consts)

lemma wired_set_state: "wired ms \<Longrightarrow> i < 2 \<Longrightarrow> wired (set_state i st ms)"
  by (cases "i = 0") (auto simp: wired_def set_state_def nth_list_update less_2_cases_iff)

lemma motors_set_dir_wired: "wired (motors s) \<Longrightarrow> wired (motors (motors_set_dir dirs s))"
  by (simp add: motors_set_dir_def Let_def wired_set_state c_consts)

lemma motors_set_dir_dev [simp]: "dev (motors_set_dir dirs s) = dev s"
  by (simp add: motors_set_dir_def Let_def)

lemma motors_start_eq:
  "motors_start B s = s\<lparr>dev := start_motor B (motors s ! 1) (start_motor B (motors s ! 0) (dev s))\<rparr>"
  by (simp add: motors_start_def on_dev_def NUM_MOTORS_def numeral_2_eq_2)

lemma motors_stop_eq:
  "motors_stop B s = s\<lparr>dev := GPIO_clear B (gpio_base (motors s ! 1)) (en_pin (motors s ! 1))
     (GPIO_clear B (gpio_base (motors s ! 0)) (en_pin (motors s ! 0)) (dev s))\<rparr>"
  by (simp add: motors_stop_def on_dev_def NUM_MOTORS_def numeral_2_eq_2)

lemma masked_absorb: "a AND b = a \<Longrightarrow> (w AND a) OR b = b" for w a b :: u32
proof -
  assume "a AND b = a"
  then have "bit a n \<Longrightarrow> bit b n" for n by (metis bit_and_iff)
  then show ?thesis by (intro bit_word_eqI) (auto simp: bit_simps)
qed

lemma start_motors_out:
  assumes "gpio_out B out" "wired ms"
  shows "out (start_motor B (ms ! 1) (start_motor B (ms ! 0)
      (GPIO_clear B GPIO1_BASE 0x40 (GPIO_clear B GPIO1_BASE 0x80 d)))) AND 0xFC =
    motor_pins (ms ! 0) OR motor_pins (ms ! 1)"
  using assms
  by (cases "mstate (ms ! 0)"; cases "mstate (ms ! 1)")
    (simp_all add: start_motor_def motor_pins_def wired_def bit.conj_disj_distrib2 and.assoc or.assoc masked_absorb)

lemma motor_ioctl_pins:
  assumes "gpio_out B out" "wired (motors s)"
  shows "pins_match out (snd (motor_ioctl B cmd v s))"
proof -
  define ms where "ms = motors (if cmd = MOTOR_SET_DIR then motors_set_dir v (motors_stop B s) else motors_stop B s)"
  have w: "wired ms" using assms(2) by (simp add: ms_def motors_set_dir_wired motors_stop_eq)
  have stop: "motors_stop B s = s\<lparr>dev := GPIO_clear B GPIO1_BASE 0x40 (GPIO_clear B GPIO1_BASE 0x80 (dev s))\<rparr>"
    using assms(2) by (simp add: motors_stop_eq wired_def)
  have "snd (motor_ioctl B cmd v s) = (if cmd = MOTOR_SET_DIR then motors_set_dir v (motors_stop B s) else motors_stop B s)
     \<lparr>dev := start_motor B (ms ! 1) (start_motor B (ms ! 0) (GPIO_clear B GPIO1_BASE 0x40 (GPIO_clear B GPIO1_BASE 0x80 (dev s))))\<rparr>"
    by (simp add: motor_ioctl_def motors_start_eq Let_def ms_def stop)
  then show ?thesis
    using start_motors_out[OF assms(1) w] w by (simp add: pins_match_def ms_def)
qed

lemma pins_match_wired: "pins_match out s \<Longrightarrow> wired (motors s)"
  by (simp add: pins_match_def)

text \<open>Running a list of commands.\<close>

fun motor_commands :: "'d bus \<Rightarrow> (u32 \<times> u32) list \<Rightarrow> ('d, 'm) motor_io_scheme \<Rightarrow> ('d, 'm) motor_io_scheme" where
  "motor_commands B [] s = s"
| "motor_commands B ((cmd, v) # cs) s = motor_commands B cs (snd (motor_ioctl B cmd v s))"

lemma motor_commands_pins:
  "gpio_out B out \<Longrightarrow> pins_match out s \<Longrightarrow> pins_match out (motor_commands B cs s)"
  by (induction B cs s rule: motor_commands.induct) (auto intro: motor_ioctl_pins dest: pins_match_wired)

lemma motor_init_pins:
  assumes "gpio_out B out" "length (motors s) = 2" "\<forall>m \<in> set (motors s). mstate m = MOTOR_STOP"
  shows "pins_match out (motor_init B s)"
proof -
  obtain l r where ms: "motors s = [l, r]" "mstate l = MOTOR_STOP" "mstate r = MOTOR_STOP"
    using assms(2,3) by (auto simp: numeral_2_eq_2 length_Suc_conv)
  then show ?thesis
    using assms(1)
    by (simp add: pins_match_def motor_init_def Let_def on_dev_def all_motor_pins_def wired_def motor_pins_def
        and.assoc LEFT_def RIGHT_def LEFT_MOTOR_PIN1_def LEFT_MOTOR_PIN2_def LEFT_MOTOR_EN_def
        RIGHT_MOTOR_PIN1_def RIGHT_MOTOR_PIN2_def RIGHT_MOTOR_EN_def)
qed

text \<open>
  The pins by the comment of \<^verbatim>\<open>motor.h\<close>: forward is (pin1, pin2) = (0, 1), back is (1, 0), and equal pins stop.
  \<^verbatim>\<open>motor_read\<close> decodes the pins in the same way.
\<close>

definition documented_motion :: "u32 \<Rightarrow> motor_t \<Rightarrow> motor_state_t" where
  "documented_motion w m =
     (if (w AND pin1 m \<noteq> 0) = (w AND pin2 m \<noteq> 0) then MOTOR_STOP
      else if w AND pin2 m \<noteq> 0 then MOTOR_FORWARD else MOTOR_BACKWARD)"

fun reversed :: "motor_state_t \<Rightarrow> motor_state_t" where
  "reversed MOTOR_STOP = MOTOR_STOP" | "reversed MOTOR_FORWARD = MOTOR_BACKWARD" | "reversed MOTOR_BACKWARD = MOTOR_FORWARD"

lemma pins_match_documented:
  assumes "pins_match out s" "i < 2" "m = motors s ! i" "w = out (dev s)"
  shows "documented_motion w m = reversed (mstate m)" "w AND en_pin m \<noteq> 0 \<longleftrightarrow> mstate m \<noteq> MOTOR_STOP"
    "w AND pin1 m = 0 \<or> w AND pin2 m = 0"
proof -
  have k: "w AND k = (motor_pins (motors s ! 0) OR motor_pins (motors s ! 1)) AND k" if "k = 0xFC AND k" for k
    using assms(1,4) that by (metis and.assoc pins_match_def)
  have i: "i = 0 \<or> i = 1" using assms(2) by auto
  have all: "documented_motion w m = reversed (mstate m) \<and> (w AND en_pin m \<noteq> 0 \<longleftrightarrow> mstate m \<noteq> MOTOR_STOP) \<and>
      (w AND pin1 m = 0 \<or> w AND pin2 m = 0)"
    using i assms(1,3) k[of "0x20"] k[of "0x10"] k[of "0x80"] k[of "0x04"] k[of "0x08"] k[of "0x40"]
    by (cases "mstate (motors s ! 0)"; cases "mstate (motors s ! 1)")
      (auto simp: documented_motion_def pins_match_def wired_def motor_pins_def)
  then show "documented_motion w m = reversed (mstate m)" "w AND en_pin m \<noteq> 0 \<longleftrightarrow> mstate m \<noteq> MOTOR_STOP"
    "w AND pin1 m = 0 \<or> w AND pin2 m = 0" by blast+
qed

text \<open>
  C19. The motors turn against the documentation: after \<^verbatim>\<open>motor_init\<close> on the zeroed motor array and any
  sequence of \<^verbatim>\<open>motor_ioctl\<close> calls, known or unknown commands, the direction pins of each motor mean, by the
  comment of \<^verbatim>\<open>motor.h\<close>, the reverse of the state the code has recorded: a motor in state \<^verbatim>\<open>MOTOR_FORWARD\<close> has
  the pins that are documented as backward, and the other way round. The enable pin is high exactly
  when the motor is not stopped, and no motor ever has both direction pins high.
\<close>

theorem motors_run_against_documentation:
  assumes "gpio_out B out" "length (motors s) = 2" "\<forall>m \<in> set (motors s). mstate m = MOTOR_STOP"
    and "s' = motor_commands B cs (motor_init B s)" "i < 2"
  shows "let m = motors s' ! i; w = out (dev s') in
    documented_motion w m = reversed (mstate m) \<and> (w AND en_pin m \<noteq> 0 \<longleftrightarrow> mstate m \<noteq> MOTOR_STOP) \<and>
    (w AND pin1 m = 0 \<or> w AND pin2 m = 0)"
proof -
  have "pins_match out s'" unfolding assms(4) by (intro motor_commands_pins motor_init_pins assms)
  from pins_match_documented[OF this assms(5) refl refl] show ?thesis by (simp add: Let_def)
qed

section \<open>The joystick\<close>

text \<open>What the frame should do: the left and the right motor, by the position of the stick.\<close>

definition drive :: "int \<Rightarrow> int \<Rightarrow> motor_state_t \<times> motor_state_t" where
  "drive x y =
     (let go = (if y > 5 then MOTOR_FORWARD else if y < - 5 then MOTOR_BACKWARD else MOTOR_STOP)
      in if x = 5 \<or> x = - 5 then (MOTOR_STOP, MOTOR_STOP)
         else (if x < - 5 then MOTOR_STOP else go, if x > 5 then MOTOR_STOP else go))"

lemma motors_set_dir_joystick:
  assumes "length (motors s) = 2" "s' = motors_set_dir (joystick_command x y) s"
  shows "(mstate (motors s' ! 0), mstate (motors s' ! 1)) = drive x y"
proof -
  obtain l r where ms: "motors s = [l, r]" using assms(1) by (auto simp: numeral_2_eq_2 length_Suc_conv)
  show ?thesis
    unfolding assms(2) motors_set_dir_def joystick_command_def drive_def Let_def
    by (auto simp: ms set_state_def c_consts)
qed

lemma small_not_min: "- 128 \<le> x \<Longrightarrow> x \<le> 127 \<Longrightarrow> (word_of_int x :: u32) \<noteq> 0x80000000"
proof
  assume x: "- 128 \<le> x" "x \<le> 127" and "(word_of_int x :: u32) = 0x80000000"
  then have "sint (word_of_int x :: u32) = sint (0x80000000 :: u32)" by simp
  moreover have "sint (word_of_int x :: u32) = x"
    using x by (simp add: signed_of_int signed_take_bit_int_eq_self)
  ultimately show False using x by simp
qed

lemma received_renders:
  assumes "a \<noteq> 0x80000000" "b \<noteq> 0x80000000"
  shows "\<exists>out. render (line ''Received: x:%d, y:%d'') [VInt a, VInt b] = Some out"
  using assms by (simp add: directive_text_def c_consts)

lemma console_keeps_out:
  assumes "console B S tx" "gpio_out B out"
  shows "console B {d \<in> S. out d = w} tx"
  using assms by (auto simp: console_def gpio_out_def c_consts)

lemma unat_u8_joystick: "- 128 \<le> int (unat (x::u8)) - 128" "int (unat (x::u8)) - 128 \<le> 127"
  using unat_u8_bound[of x] by linarith+

lemma motor_ioctl_rx [simp]:
  "uart1_rx_buffer (snd (motor_ioctl B cmd v s)) = uart1_rx_buffer s"
  by (simp add: motor_ioctl_def motors_start_eq motors_stop_eq motors_set_dir_def Let_def)

lemma motor_ioctl_states:
  assumes "wired (motors s)" "s' = snd (motor_ioctl B MOTOR_SET_DIR (joystick_command x y) s)"
  shows "(mstate (motors s' ! 0), mstate (motors s' ! 1)) = drive x y"
  using motors_set_dir_joystick[of "motors_stop B s" _ x y] assms
  by (simp add: motor_ioctl_def motors_start_eq Let_def wired_def motors_stop_eq)

text \<open>
  C18. From the joystick to the pins: when UART1 has received a frame of five characters (the second
  the horizontal and the fourth the vertical position, the last a newline), one round of the motor task
  reads it and records for both motors what the stick asks: forward or backward with the vertical position, the
  inner motor stopped in a turn, everything stopped in the dead zone. The enable pins are high for the
  motors that move; the direction pins, read by the comment of \<^verbatim>\<open>motor.h\<close>, stand for the reverse of each recorded
  motion. The frame is gone from the receive buffer.
\<close>

theorem joystick_frame_sets_motors:
  assumes "console B S tx" "dev s \<in> S" "gpio_out B out" "wired (motors s)" "length buf = 10"
    and "ccb_inv (uart1_rx_buffer s)" "ccb_list (uart1_rx_buffer s) = [a, x, b, y, NEWLINE] @ rest"
    and "NEWLINE \<notin> {a, x, b, y}"
  shows "\<exists>buf' s'. motor_task_step B buf s = Some (buf', s') \<and>
    (mstate (motors s' ! 0), mstate (motors s' ! 1)) = drive (int (unat x) - 128) (int (unat y) - 128) \<and>
    (\<forall>i < 2. let m = motors s' ! i; w = out (dev s') in
       documented_motion w m = reversed (mstate m) \<and> (w AND en_pin m \<noteq> 0 \<longleftrightarrow> mstate m \<noteq> MOTOR_STOP)) \<and>
    ccb_list (uart1_rx_buffer s') = rest"
proof -
  let ?x = "int (unat x) - 128" and ?y = "int (unat y) - 128" and ?q = "[a, x, b, y, NEWLINE] @ rest"
  have rx: "rx_buffer 1 s = uart1_rx_buffer s" for s :: "('a, 'b) motor_io_scheme" by (simp add: rx_buffer_def)
  have six: "Suc (Suc (Suc (Suc (Suc (Suc 0))))) = 6" by simp
  have w: "[a, x, b, y, NEWLINE] = take (unat (100::u32) - 1) (first_line ?q)" using assms(8) by auto
  obtain s1 where s1: "uart_readline 1 buf 100 s = Some (5, [a, x, b, y, NEWLINE, 0] @ drop 6 buf, s1)"
    "ccb_list (uart1_rx_buffer s1) = rest"
    using readline_line[OF _ _ _ _ _ w, of 1 s buf] assms(5-7) rx six by auto
  obtain b1 where "s1 = set_rx_buffer 1 b1 s" using readline_frame[OF s1(1)] by blast
  then have frame: "dev s1 = dev s" "motors s1 = motors s" by (simp_all add: set_rx_buffer_def)
  obtain msg where msg: "render (line ''Received: x:%d, y:%d'') [VInt (word_of_int ?x), VInt (word_of_int ?y)] = Some msg"
    using received_renders[OF small_not_min[OF unat_u8_joystick] small_not_min[OF unat_u8_joystick]] by blast
  obtain d where d: "uart_printf B (line ''Received: x:%d, y:%d'') [VInt (word_of_int ?x), VInt (word_of_int ?y)] (dev s) = Some d"
    using vprintf_emits[OF assms(1,2) msg] by (auto simp: uart_printf_def)
  define s2 where "s2 = snd (motor_ioctl B MOTOR_SET_DIR (joystick_command ?x ?y) (s1\<lparr>dev := d\<rparr>))"
  have "motor_task_step B buf s = Some ([a, x, b, y, NEWLINE, 0] @ drop 6 buf, s2)"
    using s1(1) d frame by (simp add: motor_task_step_def run_dev_def s2_def Let_def)
  moreover have "(mstate (motors s2 ! 0), mstate (motors s2 ! 1)) = drive ?x ?y"
    using motor_ioctl_states[of "s1\<lparr>dev := d\<rparr>" s2 B ?x ?y] frame assms(4) by (simp add: s2_def)
  moreover have "pins_match out s2" "ccb_list (uart1_rx_buffer s2) = rest"
    using motor_ioctl_pins[OF assms(3), of "s1\<lparr>dev := d\<rparr>"] frame assms(4) s1(2) by (simp_all add: s2_def)
  moreover have "\<forall>i < 2. let m = motors s2 ! i; w = out (dev s2) in
       documented_motion w m = reversed (mstate m) \<and> (w AND en_pin m \<noteq> 0 \<longleftrightarrow> mstate m \<noteq> MOTOR_STOP)"
    using pins_match_documented[OF \<open>pins_match out s2\<close> _ refl refl] by (simp add: Let_def)
  ultimately show ?thesis by blast
qed

text \<open>
  C39. The motor task's line buffer is too short for what it asks for: it has ten bytes and passes a
  size of one hundred, so a received line of ten characters or more (newline included) makes
  \<^verbatim>\<open>uart_readline\<close> store past its end.
\<close>

theorem long_line_overruns_motor_buffer:
  assumes "ccb_inv (uart1_rx_buffer s)" "ccb_list (uart1_rx_buffer s) = q" "NEWLINE \<in> set q"
    and "10 \<le> length (first_line q)" "length buf = 10"
  shows "motor_task_step B buf s = None"
proof -
  have "uart_readline 1 buf 100 s = None"
    using readline_overflow[of 1 s q 100 "take (unat (100::u32) - 1) (first_line q)" buf] assms
    by (simp add: rx_buffer_def)
  then show ?thesis by (simp add: motor_task_step_def)
qed

section \<open>Examples\<close>

text \<open>The serial line of the console with an output register beside it.\<close>

definition ex_robot :: "(line_device \<times> u32) bus" where
  "ex_robot = \<lparr>
     bus_read = (\<lambda>a (d, w). let (v, d') = bus_read ex_line a d in (v, (d', w))),
     bus_write = (\<lambda>a v (d, w).
       (bus_write ex_line a v d,
        if a = GPIO1_BASE + GPIO_SETDATAOUT_OFF then w OR v
        else if a = GPIO1_BASE + GPIO_CLEARDATAOUT_OFF then w AND NOT v else w))\<rparr>"

lemma ex_robot_out: "gpio_out ex_robot snd"
  by (auto simp: gpio_out_def ex_robot_def split_beta)

lemma ex_robot_responds: "responds ex_robot (\<lambda>v. v AND 0x20 = 0) (UART0_BASE + UART_LSR_UART_OFF) d"
proof (induction "busy (fst d)" arbitrary: d)
  case 0
  then show ?case by (intro responds_0) (simp add: ex_robot_def split_beta ex_line_ops)
next
  case (Suc n)
  have "n = busy (fst (snd (bus_read ex_robot (UART0_BASE + UART_LSR_UART_OFF) d)))"
    using Suc(2) by (simp add: ex_robot_def split_beta ex_line_ops)
  from Suc(1)[OF this] show ?case by (rule responds_step)
qed

lemma ex_robot_console: "console ex_robot UNIV (sent \<circ> fst)"
  using ex_robot_responds by (simp add: console_def) (simp add: ex_robot_def split_beta ex_line_ops)

definition ex_motor :: motor_t where
  "ex_motor = \<lparr>motor_number = 0, gpio_base = 0, pin1 = 0, pin2 = 0, en_pin = 0, mstate = MOTOR_STOP\<rparr>"

definition ex_car :: "(line_device \<times> u32) motor_io" where
  "ex_car = \<lparr>dev = (ex_idle_line, 0xFF), intc_vector_table = replicate 128 Default_handler, cpsr = 0, vbar = 0,
     ram = (\<lambda>_. 0), uart0_rx_buffer = ex_empty_buffer, uart1_rx_buffer = ex_empty_buffer,
     motors = [ex_motor, ex_motor]\<rparr>"

theorem motors_run_against_documentation_witness:
  "let s' = motor_commands ex_robot [(MOTOR_SET_DIR, MOTOR_DIR_FORWARD OR MOTOR_DIR_LEFT)] (motor_init ex_robot ex_car)
   in mstate (motors s' ! 1) = MOTOR_FORWARD \<and> documented_motion (snd (dev s')) (motors s' ! 1) = MOTOR_BACKWARD"
proof -
  let ?s = "motor_commands ex_robot [(MOTOR_SET_DIR, MOTOR_DIR_FORWARD OR MOTOR_DIR_LEFT)] (motor_init ex_robot ex_car)"
  have "motors ?s ! 1 = ex_motor\<lparr>motor_number := 1, gpio_base := GPIO1_BASE, pin1 := 0x04, pin2 := 0x08,
      en_pin := 0x40, mstate := MOTOR_FORWARD\<rparr>"
    by (simp add: motor_ioctl_def motors_start_eq motors_stop_eq motors_set_dir_def motor_init_def ex_car_def
        set_state_def on_dev_def Let_def MOTOR_SET_DIR_def MOTOR_DIR_FORWARD_def MOTOR_DIR_LEFT_def MOTOR_DIR_STOP_def
        MOTOR_DIR_BACKWARD_def MOTOR_DIR_RIGHT_def LEFT_def RIGHT_def RIGHT_MOTOR_PIN1_def RIGHT_MOTOR_PIN2_def
        RIGHT_MOTOR_EN_def)
  then show ?thesis
    using motors_run_against_documentation[OF ex_robot_out, of ex_car ?s "[(MOTOR_SET_DIR, MOTOR_DIR_FORWARD OR MOTOR_DIR_LEFT)]" 1]
    by (simp add: ex_car_def ex_motor_def Let_def)
qed

definition ex_frame :: circular_char_buffer_t where
  "ex_frame = foldl (\<lambda>b c. snd (circular_char_buffer_push b c)) ex_empty_buffer [120, 128, 121, 200, NEWLINE]"

lemma push_all_list:
  "ccb_inv b \<Longrightarrow> length (ccb_list b) + length cs \<le> 512 \<Longrightarrow>
   ccb_inv (foldl (\<lambda>b c. snd (circular_char_buffer_push b c)) b cs) \<and>
   ccb_list (foldl (\<lambda>b c. snd (circular_char_buffer_push b c)) b cs) = ccb_list b @ cs"
proof (induction cs arbitrary: b)
  case (Cons c cs)
  then obtain b' where "circular_char_buffer_push b c = (True, b')" "ccb_inv b'" "ccb_list b' = ccb_list b @ [c]"
    using char_fifo.push_room[of b c] by auto
  then show ?case using Cons.IH[of b'] Cons.prems(2) by simp
qed simp

lemma ex_frame_ok: "ccb_inv ex_frame" "ccb_list ex_frame = [120, 128, 121, 200, NEWLINE] @ []"
  using push_all_list[OF ex_empty_buffer_ok(1), of "[120, 128, 121, 200, NEWLINE]"] ex_empty_buffer_ok(2)
  by (simp_all add: ex_frame_def)

lemma ex_car_wired: "wired (motors (motor_init ex_robot ex_car))"
  using pins_match_wired[OF motor_init_pins[OF ex_robot_out, of ex_car]] by (simp add: ex_car_def ex_motor_def)

theorem joystick_frame_sets_motors_witness:
  "\<exists>buf' s'. motor_task_step ex_robot (replicate 10 0)
       ((motor_init ex_robot ex_car)\<lparr>uart1_rx_buffer := ex_frame\<rparr>) = Some (buf', s') \<and>
     mstate (motors s' ! 0) = MOTOR_FORWARD \<and> mstate (motors s' ! 1) = MOTOR_FORWARD"
proof -
  have "drive (int (unat (128::u8)) - 128) (int (unat (200::u8)) - 128) = (MOTOR_FORWARD, MOTOR_FORWARD)"
    by (simp add: drive_def)
  moreover have "NEWLINE \<notin> {120, 128, 121, 200 :: u8}" by (simp add: NEWLINE_def)
  ultimately show ?thesis
    using joystick_frame_sets_motors[OF ex_robot_console UNIV_I ex_robot_out _ _ _ _ \<open>NEWLINE \<notin> _\<close>,
        of "(motor_init ex_robot ex_car)\<lparr>uart1_rx_buffer := ex_frame\<rparr>" "replicate 10 0" "[]"]
      ex_car_wired ex_frame_ok by auto
qed

definition ex_long :: circular_char_buffer_t where
  "ex_long = foldl (\<lambda>b c. snd (circular_char_buffer_push b c)) ex_empty_buffer (replicate 9 65 @ [NEWLINE])"

theorem long_line_overruns_motor_buffer_witness:
  "motor_task_step ex_robot (replicate 10 0) (ex_car\<lparr>uart1_rx_buffer := ex_long\<rparr>) = None"
proof (rule long_line_overruns_motor_buffer)
  show "ccb_inv (uart1_rx_buffer (ex_car\<lparr>uart1_rx_buffer := ex_long\<rparr>))"
    "ccb_list (uart1_rx_buffer (ex_car\<lparr>uart1_rx_buffer := ex_long\<rparr>)) = replicate 9 65 @ [NEWLINE]"
    using push_all_list[OF ex_empty_buffer_ok(1), of "replicate 9 65 @ [NEWLINE]"] ex_empty_buffer_ok(2)
    by (simp_all add: ex_long_def)
  show "10 \<le> length (first_line (replicate 9 65 @ [NEWLINE]))"
    by (subst first_line_append) (simp_all add: NEWLINE_def)
qed simp_all

end
