(* ===== verification/Timer.thy ===== *)
theory Timer
  imports Motor
begin

text \<open>
  The general-purpose timers 2 to 7, \<^verbatim>\<open>os/drivers/timer.c\<close>, and the dispatch of interrupts in
  \<^verbatim>\<open>irq_handler_asm\<close>, which is where the handlers of this theory and of the UART are called.

  The callback of a timer is a function pointer: the type \<open>'f\<close> names the callbacks and the argument
  \<open>call\<close> says what each of them does to the state. The tables indexed by the timer number are lists;
  their first two entries stand for timers the driver does not support. The state extends the one of the
  motor driver, so that the kernel as a whole has one state.
\<close>

section \<open>Registers and tables\<close>

definition TIMER_MAX_COUNT :: u32 where [c_consts]: "TIMER_MAX_COUNT = 0xFFFFFFFF"

definition CM_DPLL_BASE :: u32 where [c_consts]: "CM_DPLL_BASE = 0x44E00500"

definition TIOCP_CFG_OFF :: u32 where [c_consts]: "TIOCP_CFG_OFF = 0x10"

definition IRQSTATUS_OFF :: u32 where [c_consts]: "IRQSTATUS_OFF = 0x28"

definition IRQENABLE_SET_OFF :: u32 where [c_consts]: "IRQENABLE_SET_OFF = 0x2C"

definition TCLR_OFF :: u32 where [c_consts]: "TCLR_OFF = 0x38"

definition TCRR_OFF :: u32 where [c_consts]: "TCRR_OFF = 0x3C"

definition TLDR_OFF :: u32 where [c_consts]: "TLDR_OFF = 0x40"

definition TWPS_OFF :: u32 where [c_consts]: "TWPS_OFF = 0x48"

definition timer_base :: "u32 list" where
  "timer_base = [- 1, - 1, 0x48040000, 0x48042000, 0x48044000, 0x48046000, 0x48048000, 0x4804A000]"

definition timer_module_clk_off :: "u32 list" where
  "timer_module_clk_off = [- 1, - 1, 0x80, 0x84, 0x88, 0xEC, 0xF0, 0x7C]"

definition timer_pll_clksel_off :: "u32 list" where
  "timer_pll_clksel_off = [- 1, - 1, 0x08, 0x0C, 0x10, 0x18, 0x1C, 0x04]"

definition timer_irq_num :: "u32 list" where
  "timer_irq_num = [130, 130, 68, 69, 92, 93, 94, 95]"

definition timer_irq_handlers :: "handler list" where
  "timer_irq_handlers = [NULL_handler, NULL_handler, Timer_handler 2, Timer_handler 3, Timer_handler 4,
     Timer_handler 5, Timer_handler 6, Timer_handler 7]"

record ('d, 'f) timer_io = "'d motor_io" +
  timer_tick_funcs :: "'f option list"

section \<open>Operations\<close>

definition timer_wait :: "'d bus \<Rightarrow> nat \<Rightarrow> 'd \<Rightarrow> 'd option" where
  "timer_wait B i d = spin_while B (\<lambda>v. (v AND 0x1F) AND 0x1F \<noteq> 0) (timer_base ! i) TWPS_OFF d"

definition timer_index_ok :: "u16 \<Rightarrow> bool" where
  "timer_index_ok timer_index \<longleftrightarrow> \<not> (timer_index < 2 \<or> timer_index > 7)"

definition timer_setup :: "'d bus \<Rightarrow> nat \<Rightarrow> u32 \<Rightarrow> 'd \<Rightarrow> 'd option" where
  "timer_setup B i timer_tick_ms d = do {
     let d = REG32_write B CM_DPLL_BASE (timer_pll_clksel_off ! i) 0x2 d;
     d \<leftarrow> spin_while B (\<lambda>v. v AND 0x3 \<noteq> 0x2) CM_DPLL_BASE (timer_pll_clksel_off ! i) d;
     let d = REG32_write_masked B CM_PER_BASE (timer_module_clk_off ! i) 0x3 0x2 d;
     d \<leftarrow> spin_while B (\<lambda>v. (v AND 0x30000) AND 0x3 \<noteq> 0) CM_PER_BASE (timer_module_clk_off ! i) d;
     let d = REG32_write_masked B (timer_base ! i) TIOCP_CFG_OFF 0x1 0x1 d;
     d \<leftarrow> spin_while B (\<lambda>v. (v AND 0x1) AND 0x1 \<noteq> 0) (timer_base ! i) TIOCP_CFG_OFF d;
     d \<leftarrow> timer_wait B i (REG32_write_masked B (timer_base ! i) TCLR_OFF 0x1 0x0 d);
     d \<leftarrow> timer_wait B i (REG32_write_masked B (timer_base ! i) TCLR_OFF 0x7FFE (push_bit 1 0x1) d);
     let d = REG32_write B (timer_base ! i) TLDR_OFF (TIMER_MAX_COUNT - timer_tick_ms * 32) d;
     d \<leftarrow> timer_wait B i (REG32_write B (timer_base ! i) TCRR_OFF (TIMER_MAX_COUNT - timer_tick_ms * 32) d);
     timer_wait B i (REG32_write B (timer_base ! i) IRQENABLE_SET_OFF 0x2 d)
   }"

definition timer_init ::
    "'d bus \<Rightarrow> u16 \<Rightarrow> u32 \<Rightarrow> 'f option \<Rightarrow> ('d, 'f, 'm) timer_io_scheme \<Rightarrow>
     (bool \<times> ('d, 'f, 'm) timer_io_scheme) option" where
  "timer_init B timer_index timer_tick_ms timer_tick_func s =
     (if \<not> timer_index_ok timer_index then Some (False, s)
      else do {
        let i = unat timer_index;
        s \<leftarrow> run_dev (timer_setup B i timer_tick_ms) s;
        let s = s\<lparr>timer_tick_funcs := (timer_tick_funcs s)[i := timer_tick_func]\<rparr>;
        Some (True, snd (INTC_register_irq (timer_irq_num ! i) (timer_irq_handlers ! i) s))
      })"

definition timer_start ::
    "'d bus \<Rightarrow> u16 \<Rightarrow> ('d, 'f, 'm) timer_io_scheme \<Rightarrow> (bool \<times> ('d, 'f, 'm) timer_io_scheme) option" where
  "timer_start B timer_index s =
     (if \<not> timer_index_ok timer_index then Some (False, s)
      else do {
        let i = unat timer_index;
        s \<leftarrow> run_dev (\<lambda>d. timer_wait B i (REG32_write_masked B (timer_base ! i) TCLR_OFF 0x1 0x1 d)) s;
        Some (True, snd (INTC_enable_irq B (timer_irq_num ! i) s))
      })"

definition timer_stop ::
    "'d bus \<Rightarrow> u16 \<Rightarrow> ('d, 'f, 'm) timer_io_scheme \<Rightarrow> (bool \<times> ('d, 'f, 'm) timer_io_scheme) option" where
  "timer_stop B timer_index s =
     (if \<not> timer_index_ok timer_index then Some (False, s)
      else do {
        let i = unat timer_index;
        s \<leftarrow> run_dev (\<lambda>d. timer_wait B i (REG32_write_masked B (timer_base ! i) TCLR_OFF 0x1 0x0 d)) s;
        Some (True, snd (INTC_disable_irq B (timer_irq_num ! i) s))
      })"

definition timer_value :: "'d bus \<Rightarrow> u16 \<Rightarrow> 'd \<Rightarrow> u32 \<times> 'd" where
  "timer_value B timer_index d =
     (if \<not> timer_index_ok timer_index then (0, d)
      else REG32_read B (timer_base ! unat timer_index) TCRR_OFF d)"

section \<open>Interrupts\<close>

type_synonym ('d, 'f, 'm) callbacks = "'f \<Rightarrow> ('d, 'f, 'm) timer_io_scheme \<Rightarrow> ('d, 'f, 'm) timer_io_scheme option"

definition handle_timer_irq ::
    "('d, 'f, 'm) callbacks \<Rightarrow> 'd bus \<Rightarrow> u16 \<Rightarrow> ('d, 'f, 'm) timer_io_scheme \<Rightarrow> ('d, 'f, 'm) timer_io_scheme option" where
  "handle_timer_irq call B timer_index s = do {
     let i = unat timer_index;
     s \<leftarrow> (case timer_tick_funcs s ! i of None \<Rightarrow> Some s | Some f \<Rightarrow> call f s);
     run_dev (\<lambda>d. timer_wait B i (REG32_write_masked B (timer_base ! i) IRQSTATUS_OFF 0x1 0x1 d)) s
   }"

definition handle_timer2_irq ::
    "('d, 'f, 'm) callbacks \<Rightarrow> 'd bus \<Rightarrow> ('d, 'f, 'm) timer_io_scheme \<Rightarrow> ('d, 'f, 'm) timer_io_scheme option" where
  "handle_timer2_irq call B = handle_timer_irq call B 2"

definition handle_timer3_irq ::
    "('d, 'f, 'm) callbacks \<Rightarrow> 'd bus \<Rightarrow> ('d, 'f, 'm) timer_io_scheme \<Rightarrow> ('d, 'f, 'm) timer_io_scheme option" where
  "handle_timer3_irq call B = handle_timer_irq call B 3"

definition handle_timer4_irq ::
    "('d, 'f, 'm) callbacks \<Rightarrow> 'd bus \<Rightarrow> ('d, 'f, 'm) timer_io_scheme \<Rightarrow> ('d, 'f, 'm) timer_io_scheme option" where
  "handle_timer4_irq call B = handle_timer_irq call B 4"

definition handle_timer5_irq ::
    "('d, 'f, 'm) callbacks \<Rightarrow> 'd bus \<Rightarrow> ('d, 'f, 'm) timer_io_scheme \<Rightarrow> ('d, 'f, 'm) timer_io_scheme option" where
  "handle_timer5_irq call B = handle_timer_irq call B 5"

definition handle_timer6_irq ::
    "('d, 'f, 'm) callbacks \<Rightarrow> 'd bus \<Rightarrow> ('d, 'f, 'm) timer_io_scheme \<Rightarrow> ('d, 'f, 'm) timer_io_scheme option" where
  "handle_timer6_irq call B = handle_timer_irq call B 6"

definition handle_timer7_irq ::
    "('d, 'f, 'm) callbacks \<Rightarrow> 'd bus \<Rightarrow> ('d, 'f, 'm) timer_io_scheme \<Rightarrow> ('d, 'f, 'm) timer_io_scheme option" where
  "handle_timer7_irq call B = handle_timer_irq call B 7"

text \<open>Calling through the interrupt table; a null pointer has no defined result.\<close>

definition call_handler ::
    "('d, 'f, 'm) callbacks \<Rightarrow> 'd bus \<Rightarrow> handler \<Rightarrow> ('d, 'f, 'm) timer_io_scheme \<Rightarrow> ('d, 'f, 'm) timer_io_scheme option" where
  "call_handler call B h s =
     (case h of
        NULL_handler \<Rightarrow> None
      | Default_handler \<Rightarrow> Some s
      | Uart0_handler \<Rightarrow> handle_uart0_irq B s
      | Uart1_handler \<Rightarrow> handle_uart1_irq B s
      | Timer_handler n \<Rightarrow>
          if n = 2 then handle_timer2_irq call B s
          else if n = 3 then handle_timer3_irq call B s
          else if n = 4 then handle_timer4_irq call B s
          else if n = 5 then handle_timer5_irq call B s
          else if n = 6 then handle_timer6_irq call B s
          else if n = 7 then handle_timer7_irq call B s
          else None)"

text \<open>The dispatch in \<^verbatim>\<open>irq_handler_asm\<close>, from reading the active interrupt to its acknowledgement.\<close>

definition irq_dispatch ::
    "('d, 'f, 'm) callbacks \<Rightarrow> 'd bus \<Rightarrow> ('d, 'f, 'm) timer_io_scheme \<Rightarrow> ('d, 'f, 'm) timer_io_scheme option" where
  "irq_dispatch call B s = do {
     let (v, d) = bus_read B (INTC_BASE_ADDR + INTC_SIR_IRQ_OFF) (dev s);
     s \<leftarrow> call_handler call B (irq_vector s (unat (v AND 0x7F))) (s\<lparr>dev := d\<rparr>);
     Some (on_dev (bus_write B (INTC_BASE_ADDR + INTC_CONTROL_OFF) 1) s)
   }"

section \<open>Properties\<close>

text \<open>The three polls of the driver that depend on the hardware end; the fourth never waits.\<close>

definition timer_ready :: "'d bus \<Rightarrow> nat \<Rightarrow> bool" where
  "timer_ready B i \<longleftrightarrow>
     (\<forall>d. responds B (\<lambda>v. v AND 0x3 \<noteq> 0x2) (CM_DPLL_BASE + timer_pll_clksel_off ! i) d \<and>
          responds B (\<lambda>v. (v AND 0x1) AND 0x1 \<noteq> 0) (timer_base ! i + TIOCP_CFG_OFF) d \<and>
          responds B (\<lambda>v. (v AND 0x1F) AND 0x1F \<noteq> 0) (timer_base ! i + TWPS_OFF) d)"

text \<open>A register that keeps the value written to it.\<close>

definition plain_register :: "'d bus \<Rightarrow> u32 \<Rightarrow> ('d \<Rightarrow> u32) \<Rightarrow> bool" where
  "plain_register B a reg \<longleftrightarrow>
     (\<forall>b v d. reg (bus_write B b v d) = (if b = a then v else reg d)) \<and>
     (\<forall>b d. reg (snd (bus_read B b d)) = reg d)"

text \<open>A status register whose bits are cleared by writing ones.\<close>

definition status_register :: "'d bus \<Rightarrow> u32 \<Rightarrow> ('d \<Rightarrow> u32) \<Rightarrow> bool" where
  "status_register B a reg \<longleftrightarrow>
     (\<forall>b v d. reg (bus_write B b v d) = (if b = a then reg d AND NOT v else reg d)) \<and>
     (\<forall>b d. reg (snd (bus_read B b d)) = reg d) \<and> (\<forall>d. fst (bus_read B a d) = reg d)"

lemma spin_keeps:
  assumes "responds B P (base + offset) d" "\<And>b d. reg (snd (bus_read B b d)) = reg d"
  shows "\<exists>d'. spin_while B P base offset d = Some d' \<and> reg d' = reg d"
  using spin_while_total[OF assms(1), of "\<lambda>d'. reg d' = reg d"] assms(2) by simp

lemma timer_wait_keeps:
  assumes "timer_ready B i" "\<And>b d. reg (snd (bus_read B b d)) = reg d"
  shows "\<exists>d'. timer_wait B i d = Some d' \<and> reg d' = reg d"
  unfolding timer_wait_def using assms(1) by (intro spin_keeps assms(2)) (simp add: timer_ready_def)

lemma timer_index_cases:
  "timer_index_ok i \<longleftrightarrow> unat i \<in> {2, 3, 4, 5, 6, 7}"
  by (auto simp: timer_index_ok_def word_less_nat_alt)

lemma timer_index_words: "timer_index_ok i \<longleftrightarrow> i \<in> {2, 3, 4, 5, 6, 7}"
  by (simp add: timer_index_cases word_unat_eq_iff)

lemma timer_tables:
  assumes "timer_index_ok i"
  shows "unat (timer_irq_num ! unat i) < 128" "timer_irq_handlers ! unat i = Timer_handler (unat i)"
  using assms by (auto simp: timer_index_cases timer_irq_num_def timer_irq_handlers_def)

lemma no_clock_wait: "spin_while B (\<lambda>v. (v AND 0x30000) AND 0x3 \<noteq> 0) base offset d = Some (snd (REG32_read B base offset d))"
proof -
  have "(v AND 0x30000) AND 0x3 = (0::u32)" for v by (simp add: and.assoc)
  then show ?thesis by (subst spin_while.simps) (simp add: split_beta)
qed

lemma timer_setup_load:
  assumes "timer_ready B i" "plain_register B (timer_base ! i + TLDR_OFF) tldr"
  shows "\<exists>d'. timer_setup B i ms d = Some d' \<and> tldr d' = TIMER_MAX_COUNT - ms * 32"
proof -
  have keep: "\<And>b d. tldr (snd (bus_read B b d)) = tldr d" using assms(2) by (simp add: plain_register_def)
  note wait = timer_wait_keeps[OF assms(1), of tldr, OF keep]
  have poll: "\<exists>d'. spin_while B (\<lambda>v. v AND 0x3 \<noteq> 0x2) CM_DPLL_BASE (timer_pll_clksel_off ! i) d = Some d'"
    "\<exists>d'. spin_while B (\<lambda>v. (v AND 0x1) AND 0x1 \<noteq> 0) (timer_base ! i) TIOCP_CFG_OFF d = Some d'" for d
    using spin_keeps[of B _ _ _ _ "\<lambda>_. ()"] assms(1) by (auto simp: timer_ready_def)
  obtain d1 where d1: "spin_while B (\<lambda>v. v AND 0x3 \<noteq> 0x2) CM_DPLL_BASE (timer_pll_clksel_off ! i)
      (REG32_write B CM_DPLL_BASE (timer_pll_clksel_off ! i) 0x2 d) = Some d1" using poll(1) by blast
  define d2 where "d2 = snd (REG32_read B CM_PER_BASE (timer_module_clk_off ! i)
      (REG32_write_masked B CM_PER_BASE (timer_module_clk_off ! i) 0x3 0x2 d1))"
  obtain d3 where d3: "spin_while B (\<lambda>v. (v AND 0x1) AND 0x1 \<noteq> 0) (timer_base ! i) TIOCP_CFG_OFF
      (REG32_write_masked B (timer_base ! i) TIOCP_CFG_OFF 0x1 0x1 d2) = Some d3" using poll(2) by blast
  obtain d4 where d4: "timer_wait B i (REG32_write_masked B (timer_base ! i) TCLR_OFF 0x1 0x0 d3) = Some d4"
    using wait by blast
  obtain d5 where d5: "timer_wait B i (REG32_write_masked B (timer_base ! i) TCLR_OFF 0x7FFE (push_bit 1 0x1) d4) = Some d5"
    using wait by blast
  define d6 where "d6 = REG32_write B (timer_base ! i) TLDR_OFF (TIMER_MAX_COUNT - ms * 32) d5"
  obtain d7 where d7: "timer_wait B i (REG32_write B (timer_base ! i) TCRR_OFF (TIMER_MAX_COUNT - ms * 32) d6) = Some d7"
    "tldr d7 = tldr (REG32_write B (timer_base ! i) TCRR_OFF (TIMER_MAX_COUNT - ms * 32) d6)" using wait by blast
  obtain d8 where d8: "timer_wait B i (REG32_write B (timer_base ! i) IRQENABLE_SET_OFF 0x2 d7) = Some d8"
    "tldr d8 = tldr (REG32_write B (timer_base ! i) IRQENABLE_SET_OFF 0x2 d7)" using wait by blast
  have "tldr d8 = TIMER_MAX_COUNT - ms * 32"
    using assms(2) by (simp add: d7 d8 d6_def plain_register_def REG32_write_def TCRR_OFF_def IRQENABLE_SET_OFF_def TLDR_OFF_def)
  moreover have "timer_setup B i ms d = Some d8"
    unfolding timer_setup_def
    using d1 d3 d4 d5 d7(1) d8(1) by (simp add: no_clock_wait d2_def d6_def)
  ultimately show ?thesis by blast
qed

text \<open>
  Setting up a timer: for the timers 2 to 7 \<^verbatim>\<open>timer_init\<close> returns true with the load register set so
  that the 32 kHz counter overflows after \<open>32 * ms + 1\<close> ticks (for every period below 2^27 ms), the
  callback stored and the timer's interrupt routed to its handler; for any other index it returns false
  and changes nothing.
\<close>

theorem timer_init_programs_period:
  assumes "timer_ready B (unat i)" "plain_register B (timer_base ! unat i + TLDR_OFF) tldr"
    and "length (timer_tick_funcs s) = 8" "table_ok s"
  shows "(timer_index_ok i \<longrightarrow> (\<exists>s'. timer_init B i ms f s = Some (True, s') \<and>
      (unat ms < 2 ^ 27 \<longrightarrow> 2 ^ 32 - unat (tldr (dev s')) = 32 * unat ms + 1) \<and>
      timer_tick_funcs s' ! unat i = f \<and>
      irq_vector s' (unat (timer_irq_num ! unat i)) = Timer_handler (unat i))) \<and>
    (\<not> timer_index_ok i \<longrightarrow> timer_init B i ms f s = Some (False, s))"
proof (intro conjI impI)
  assume i: "timer_index_ok i"
  obtain d where d: "timer_setup B (unat i) ms (dev s) = Some d" "tldr d = TIMER_MAX_COUNT - ms * 32"
    using timer_setup_load[OF assms(1,2)] by blast
  have "2 ^ 32 - unat (tldr d) = 32 * unat ms + 1" if "unat ms < 2 ^ 27"
  proof -
    have m: "unat (ms * 32) = unat ms * 32" using that by (simp add: unat_word_ariths)
    then have "unat (tldr d) = 4294967295 - unat ms * 32"
      unfolding d(2) using that by (subst unat_sub) (simp_all add: TIMER_MAX_COUNT_def word_le_nat_alt)
    then show ?thesis using that by simp
  qed
  moreover have "unat i < 8" using i by (auto simp: timer_index_cases)
  ultimately show "\<exists>s'. timer_init B i ms f s = Some (True, s') \<and>
      (unat ms < 2 ^ 27 \<longrightarrow> 2 ^ 32 - unat (tldr (dev s')) = 32 * unat ms + 1) \<and>
      timer_tick_funcs s' ! unat i = f \<and>
      irq_vector s' (unat (timer_irq_num ! unat i)) = Timer_handler (unat i)"
    using i d(1) timer_tables[OF i] assms(3,4)
    by (simp add: timer_init_def run_dev_def INTC_register_irq_def table_ok_def irq_vector_def NUM_INTERRUPTS_def Let_def)
next
  assume "\<not> timer_index_ok i"
  then show "timer_init B i ms f s = Some (False, s)" by (simp add: timer_init_def)
qed

text \<open>Timer 2 with a load register, all waits short.\<close>

definition ex_timer :: "u32 bus" where
  "ex_timer = \<lparr>bus_read = (\<lambda>a d. (if a = CM_DPLL_BASE + 0x08 then 2 else 0, d)),
     bus_write = (\<lambda>a v d. if a = 0x48040000 + TLDR_OFF then v else d)\<rparr>"

definition ex_timer_state :: "(u32, nat) timer_io" where
  "ex_timer_state = \<lparr>dev = 0, intc_vector_table = replicate 128 Default_handler, cpsr = 0, vbar = 0, ram = (\<lambda>_. 0),
     uart0_rx_buffer = ex_typed, uart1_rx_buffer = ex_typed, motors = [], timer_tick_funcs = replicate 8 None\<rparr>"

lemma ex_timer_ready: "timer_ready ex_timer 2" "plain_register ex_timer (timer_base ! 2 + TLDR_OFF) (\<lambda>d. d)"
  by (auto simp: timer_ready_def plain_register_def timer_base_def ex_timer_def timer_pll_clksel_off_def
      c_consts intro!: responds_0)

theorem timer_init_programs_period_witness:
  "\<exists>s'. timer_init ex_timer 2 100 (Some 7) ex_timer_state = Some (True, s') \<and>
        2 ^ 32 - unat (dev s') = 3201 \<and> irq_vector s' 68 = Timer_handler 2"
  using timer_init_programs_period[of ex_timer 2 "\<lambda>d. d" ex_timer_state 100 "Some 7"] ex_timer_ready
  by (auto simp: ex_timer_state_def table_ok_def NUM_INTERRUPTS_def timer_index_ok_def timer_irq_num_def)

text \<open>
  C26. Serving a timer interrupt: when the controller reports the interrupt of timer \<open>i\<close>, the dispatcher
  runs the callback given to \<^verbatim>\<open>timer_init\<close> exactly once and then acknowledges every pending event of
  the timer (its status register, whose bits are cleared by writing ones, is zero), changing nothing
  else of what the callback left.
\<close>

theorem timer_interrupt_is_served:
  assumes "timer_ready B (unat i)" "timer_index_ok i"
    and "status_register B (timer_base ! unat i + IRQSTATUS_OFF) status"
    and "bus_read B (INTC_BASE_ADDR + INTC_SIR_IRQ_OFF) (dev s) = (v, d)" "v AND 0x7F = timer_irq_num ! unat i"
    and "irq_vector s (unat (timer_irq_num ! unat i)) = Timer_handler (unat i)"
    and "timer_tick_funcs s ! unat i = Some f" "call f (s\<lparr>dev := d\<rparr>) = Some s1"
  shows "\<exists>d'. irq_dispatch call B s = Some (s1\<lparr>dev := d'\<rparr>) \<and> status d' = 0"
proof -
  let ?b = "timer_base ! unat i" and ?h = "handle_timer_irq call B i"
  have keep: "\<And>b d. status (snd (bus_read B b d)) = status d"
    using assms(3) by (simp add: status_register_def)
  obtain d2 where d2: "timer_wait B (unat i) (REG32_write_masked B ?b IRQSTATUS_OFF 0x1 0x1 (dev s1)) = Some d2"
    "status d2 = status (REG32_write_masked B ?b IRQSTATUS_OFF 0x1 0x1 (dev s1))"
    using timer_wait_keeps[OF assms(1), of status, OF keep] by blast
  have "status d2 = 0"
  proof -
    have "w AND NOT ((w AND NOT 1) OR (1 AND 1)) = 0" for w :: u32
      by (rule bit_word_eqI) (auto simp: bit_simps)
    then show ?thesis
      using assms(3) by (simp add: d2(2) REG32_write_masked_def status_register_def split_beta)
  qed
  then have ack: "status (bus_write B (INTC_BASE_ADDR + INTC_CONTROL_OFF) 1 d2) = 0"
    using assms(2,3) by (auto simp: status_register_def timer_index_cases timer_base_def c_consts)
  have "call_handler call B (Timer_handler (unat i)) = ?h"
    using assms(2)
    by (auto simp: timer_index_words call_handler_def fun_eq_iff handle_timer2_irq_def handle_timer3_irq_def
        handle_timer4_irq_def handle_timer5_irq_def handle_timer6_irq_def handle_timer7_irq_def)
  then show ?thesis
    using assms(4-8) d2(1) ack
    by (auto simp: irq_dispatch_def handle_timer_irq_def run_dev_def on_dev_def)
qed

definition ex_timer_irq :: "u32 bus" where
  "ex_timer_irq = \<lparr>
     bus_read = (\<lambda>a d. (if a = CM_DPLL_BASE + 0x08 then 2 else if a = 0x48040000 + IRQSTATUS_OFF then d
                        else if a = INTC_BASE_ADDR + INTC_SIR_IRQ_OFF then 68 else 0, d)),
     bus_write = (\<lambda>a v d. if a = 0x48040000 + IRQSTATUS_OFF then d AND NOT v else d)\<rparr>"

lemma ex_timer_irq_ready:
  "timer_ready ex_timer_irq 2" "status_register ex_timer_irq (timer_base ! 2 + IRQSTATUS_OFF) (\<lambda>d. d)"
  by (auto simp: timer_ready_def status_register_def timer_base_def ex_timer_irq_def timer_pll_clksel_off_def
      c_consts intro!: responds_0)

theorem timer_interrupt_is_served_witness:
  "irq_dispatch (\<lambda>f s. Some (s\<lparr>cpsr := of_nat f\<rparr>)) ex_timer_irq
     (ex_timer_state\<lparr>dev := 0x2, intc_vector_table := (replicate 128 Default_handler)[68 := Timer_handler 2],
        timer_tick_funcs := (replicate 8 None)[2 := Some 7]\<rparr>) =
   Some (ex_timer_state\<lparr>dev := 0, intc_vector_table := (replicate 128 Default_handler)[68 := Timer_handler 2],
        timer_tick_funcs := (replicate 8 None)[2 := Some 7], cpsr := 7\<rparr>)"
proof -
  let ?s = "ex_timer_state\<lparr>dev := 0x2, intc_vector_table := (replicate 128 Default_handler)[68 := Timer_handler 2],
        timer_tick_funcs := (replicate 8 None)[2 := Some (7::nat)]\<rparr>"
  have "timer_index_ok 2" "unat (2::u16) = 2" "timer_irq_num ! 2 = 68"
    by (simp_all add: timer_index_ok_def timer_irq_num_def)
  moreover have "bus_read ex_timer_irq (INTC_BASE_ADDR + INTC_SIR_IRQ_OFF) (dev ?s) = (68, 2)"
    by (simp add: ex_timer_irq_def c_consts)
  moreover have "irq_vector ?s 68 = Timer_handler 2" "timer_tick_funcs ?s ! 2 = Some 7"
    by (simp_all add: irq_vector_def)
  ultimately show ?thesis
    using timer_interrupt_is_served[of ex_timer_irq 2 "\<lambda>d. d" ?s 68 2 7
        "\<lambda>f s. Some (s\<lparr>cpsr := of_nat f\<rparr>)" "?s\<lparr>cpsr := 7\<rparr>"] ex_timer_irq_ready
    by (simp add: ex_timer_state_def)
qed

end
