(* ===== verification/Syscalls.thy ===== *)
theory Syscalls
  imports Motor
begin

text \<open>
  The system calls of \<^verbatim>\<open>os/interrupts/syscall.c\<close>: the table of routines, its set-up and the
  dispatcher. The table has four slots; a null pointer is \<open>None\<close>. The table provides the interface
  \<open>handler_table\<close> of the interrupt table, without its range check.
\<close>

section \<open>Routines and table\<close>

definition SYS_YIELD :: nat where [c_consts]: "SYS_YIELD = 0"

definition SYS_READ :: nat where [c_consts]: "SYS_READ = 1"

definition SYS_WRITE :: nat where [c_consts]: "SYS_WRITE = 3"

definition NUM_SYSCALLS :: nat where [c_consts]: "NUM_SYSCALLS = SYS_WRITE + 1"

definition ENOSYSCALL :: int where [c_consts]: "ENOSYSCALL = 1"

datatype syscall_func = Sys_default | Sys_read | Sys_write

type_synonym syscall_table = "syscall_func option list"

definition SYSCALL :: "nat \<Rightarrow> syscall_func option \<Rightarrow> syscall_table \<Rightarrow> bool \<times> syscall_table" where
  "SYSCALL n swi_routine t = (True, t[n := swi_routine])"

definition setup_syscall_table :: "syscall_table \<Rightarrow> syscall_table" where
  "setup_syscall_table t =
     install_all SYSCALL [(SYS_YIELD, Some Sys_default), (SYS_READ, Some Sys_read), (SYS_WRITE, Some Sys_write)] t"

text \<open>Both routines take a descriptor, a buffer address and a length; the arguments are read and dropped.\<close>

fun take_rw_args :: "va list \<Rightarrow> (u8 \<times> u32 \<times> u32) option" where
  "take_rw_args (VInt fd # VInt buffer # VInt len # args) = Some (ucast fd, buffer, len)"
| "take_rw_args _ = None"

definition sys_default :: "va list \<Rightarrow> 'd \<Rightarrow> (int \<times> 'd) option" where
  "sys_default args d = Some (0, d)"

definition sys_read :: "'d bus \<Rightarrow> va list \<Rightarrow> 'd \<Rightarrow> (int \<times> 'd) option" where
  "sys_read B args d = do { (fd, buffer, len) \<leftarrow> take_rw_args args; Some (0, GPIO_set B GPIO1_BASE LED3 d) }"

definition sys_write :: "va list \<Rightarrow> 'd \<Rightarrow> (int \<times> 'd) option" where
  "sys_write args d = do { (fd, buffer, len) \<leftarrow> take_rw_args args; Some (0, d) }"

definition run_syscall :: "'d bus \<Rightarrow> syscall_func \<Rightarrow> va list \<Rightarrow> 'd \<Rightarrow> (int \<times> 'd) option" where
  "run_syscall B f args d =
     (case f of Sys_default \<Rightarrow> sys_default args d | Sys_read \<Rightarrow> sys_read B args d | Sys_write \<Rightarrow> sys_write args d)"

text \<open>The number one past the table passes the range check; the slot read there is not part of the table.\<close>

definition handle_syscall :: "'d bus \<Rightarrow> syscall_table \<Rightarrow> u16 \<Rightarrow> va list \<Rightarrow> 'd \<Rightarrow> (int \<times> 'd) option" where
  "handle_syscall B t syscall_num args d =
     (let d = GPIO_set B GPIO1_BASE LED2 d in
      if NUM_SYSCALLS < unat syscall_num then Some (- ENOSYSCALL, d)
      else if length t \<le> unat syscall_num then None
      else case t ! unat syscall_num of
          Some f \<Rightarrow> run_syscall B f args d
        | None \<Rightarrow> Some (- ENOSYSCALL, d))"

section \<open>Properties\<close>

interpretation syscalls: handler_table NUM_SYSCALLS "\<lambda>n. n" "\<lambda>t. length t = NUM_SYSCALLS" SYSCALL "(!)"
  by unfold_locales (auto simp: SYSCALL_def nth_list_update)

lemma setup_lookup:
  assumes "length t = NUM_SYSCALLS"
  shows "length (setup_syscall_table t) = 4" "setup_syscall_table t ! 0 = Some Sys_default"
    "setup_syscall_table t ! 1 = Some Sys_read" "setup_syscall_table t ! 2 = t ! 2"
    "setup_syscall_table t ! 3 = Some Sys_write"
proof -
  let ?rs = "[(SYS_YIELD, Some Sys_default), (SYS_READ, Some Sys_read), (SYS_WRITE, Some Sys_write)]"
  have r: "\<forall>(i, h) \<in> set ?rs. i < NUM_SYSCALLS" by (simp add: c_consts)
  note all = syscalls.lookup_install_all[OF assms r, folded setup_syscall_table_def]
  show "length (setup_syscall_table t) = 4" using all by (simp add: c_consts)
  show "setup_syscall_table t ! 0 = Some Sys_default" "setup_syscall_table t ! 1 = Some Sys_read"
    "setup_syscall_table t ! 2 = t ! 2" "setup_syscall_table t ! 3 = Some Sys_write"
    using all by (simp_all add: c_consts)
qed

lemma handle_syscall_table:
  assumes "length t = 4" "t ! 0 = Some Sys_default" "t ! 1 = Some Sys_read" "t ! 2 = None" "t ! 3 = Some Sys_write"
  shows "map_option fst (handle_syscall B t n args d) =
    (if n = 0 then Some 0
     else if n = 1 \<or> n = 3 then map_option (\<lambda>_. 0) (take_rw_args args)
     else if n = 4 then None
     else Some (- 1))"
proof -
  have result: "map_option fst (Option.bind x (\<lambda>(a, b, c). Some (0, z))) = map_option (\<lambda>_. 0) x"
    for x :: "(u8 \<times> u32 \<times> u32) option" and z :: 'a
    by (cases x) auto
  note defs = handle_syscall_def Let_def run_syscall_def sys_default_def sys_read_def sys_write_def
    NUM_SYSCALLS_def SYS_WRITE_def ENOSYSCALL_def
  have "unat n \<in> {0, 1, 2, 3, 4} \<or> 4 < unat n" by auto
  then consider "n = 0" | "n = 1" | "n = 2" | "n = 3" | "n = 4" | "4 < unat n"
    by (auto simp: word_unat_eq_iff)
  then show ?thesis
  proof cases
    case 6
    then have "n \<noteq> 0" "n \<noteq> 1" "n \<noteq> 3" "n \<noteq> 4" by auto
    then show ?thesis using 6 by (simp add: defs)
  qed (use assms in \<open>simp_all add: defs result\<close>)
qed

text \<open>
  C34. System call results: with the table of \<^verbatim>\<open>setup_syscall_table\<close> over a zeroed array, yield returns 0
  for any arguments, read and write return 0 for three arguments, number 2 and every number above 4
  return \<^verbatim>\<open>-ENOSYSCALL\<close>, and number 4, which the range check lets through, reads a slot past the
  end of the table.
\<close>

theorem syscall_results:
  "map_option fst (handle_syscall B (setup_syscall_table (replicate 4 None)) n args d) =
    (if n = 0 then Some 0
     else if n = 1 \<or> n = 3 then map_option (\<lambda>_. 0) (take_rw_args args)
     else if n = 4 then None
     else Some (- 1))"
proof -
  have len: "length (replicate 4 (None :: syscall_func option)) = NUM_SYSCALLS" by (simp add: c_consts)
  show ?thesis using setup_lookup[OF len] by (intro handle_syscall_table) simp_all
qed

end
