(* ===== verification/Mmc.thy ===== *)
theory Mmc
  imports Uart
begin

text \<open>
  The SD card controller, \<^verbatim>\<open>boot/mmc.c\<close>: controller set-up, commands, and the sector read that the boot
  loader hands to the file system.

  The controller and the card are behind the bus. Waits with a countdown are \<open>poll_timeout\<close>; the two
  waits without one (for permission to send, for the end of a command) may never end and are then
  \<open>None\<close>. What a read relies on is \<open>sd_card\<close>: the sets of states in which the controller accepts a
  command and in which it delivers data, with the words still to come as \<open>fifo\<close>.
\<close>

section \<open>Registers\<close>

definition MMCHS0_BASE :: u32 where [c_consts]: "MMCHS0_BASE = 0x48060000"

definition CM_PER_MMC0_CLKCTRL :: u32 where [c_consts]: "CM_PER_MMC0_CLKCTRL = 0x3C"

definition SD_SYSCONFIG :: u32 where [c_consts]: "SD_SYSCONFIG = 0x110"

definition SD_CON :: u32 where [c_consts]: "SD_CON = 0x12C"

definition SD_BLK :: u32 where [c_consts]: "SD_BLK = 0x204"

definition SD_ARG :: u32 where [c_consts]: "SD_ARG = 0x208"

definition SD_CMD :: u32 where [c_consts]: "SD_CMD = 0x20C"

definition SD_RSP10 :: u32 where [c_consts]: "SD_RSP10 = 0x210"

definition SD_RSP32 :: u32 where [c_consts]: "SD_RSP32 = 0x214"

definition SD_RSP54 :: u32 where [c_consts]: "SD_RSP54 = 0x218"

definition SD_RSP76 :: u32 where [c_consts]: "SD_RSP76 = 0x21C"

definition SD_DATA :: u32 where [c_consts]: "SD_DATA = 0x220"

definition SD_PSTATE :: u32 where [c_consts]: "SD_PSTATE = 0x224"

definition SD_HCTL :: u32 where [c_consts]: "SD_HCTL = 0x228"

definition SD_SYSCTL :: u32 where [c_consts]: "SD_SYSCTL = 0x22C"

definition SD_STAT :: u32 where [c_consts]: "SD_STAT = 0x230"

definition SD_CAPA :: u32 where [c_consts]: "SD_CAPA = 0x240"

definition SD_CAPA_VS :: u32 where [c_consts]: "SD_CAPA_VS = 0x7000000"

definition SD_CAPA_VS_1P8 :: u32 where [c_consts]: "SD_CAPA_VS_1P8 = 0x4000000"

definition SD_SYSCTL_LINES_RESET :: u32 where [c_consts]: "SD_SYSCTL_LINES_RESET = 0x1"

definition SD_SYSCTL_SRD :: nat where [c_consts]: "SD_SYSCTL_SRD = 26"

definition SD_SYSCTL_SRC :: nat where [c_consts]: "SD_SYSCTL_SRC = 25"

definition SD_SYSCTL_ICE :: u32 where [c_consts]: "SD_SYSCTL_ICE = 0x1"

definition SD_SYSCTL_ICS :: u32 where [c_consts]: "SD_SYSCTL_ICS = 0x2"

definition SD_SYSCTL_CEN :: u32 where [c_consts]: "SD_SYSCTL_CEN = 0x4"

definition SD_SYSCTL_DTO :: u32 where [c_consts]: "SD_SYSCTL_DTO = 0xF0000"

definition SD_HCTL_SDVS :: u32 where [c_consts]: "SD_HCTL_SDVS = 0xE00"

definition SD_HCTL_SDVS_SHIFT :: nat where [c_consts]: "SD_HCTL_SDVS_SHIFT = 9"

definition SD_HCTL_SDBP :: u32 where [c_consts]: "SD_HCTL_SDBP = 0x100"

definition SD_HCTL_SDBP_ON :: u32 where [c_consts]: "SD_HCTL_SDBP_ON = 0x100"

definition SD_HCTL_SDBV_1P8 :: u32 where [c_consts]: "SD_HCTL_SDBV_1P8 = 0x5"

definition SD_PSTATE_CC :: u32 where [c_consts]: "SD_PSTATE_CC = 0x1"

definition SD_PSTATE_C_ALLOWED :: u32 where [c_consts]: "SD_PSTATE_C_ALLOWED = 0"

definition SD_STAT_CLEAR :: u32 where [c_consts]: "SD_STAT_CLEAR = 0xFFFFFFFF"

definition SD_STAT_CC :: u32 where [c_consts]: "SD_STAT_CC = 0x1"

definition SD_STAT_CTO :: u32 where [c_consts]: "SD_STAT_CTO = 0x10000"

definition SD_STAT_CC_CLEAR :: u32 where [c_consts]: "SD_STAT_CC_CLEAR = 0x1"

definition SD_CMD_RSPTYPE_SHIFT :: nat where [c_consts]: "SD_CMD_RSPTYPE_SHIFT = 16"

definition SD_CMD_CCCE_CICE_ENABLE :: u32 where [c_consts]: "SD_CMD_CCCE_CICE_ENABLE = 0x180000"

definition SD_CMD_INDX_SHIFT :: nat where [c_consts]: "SD_CMD_INDX_SHIFT = 24"

definition SD_CMD_CMDTYPE_NORMAL :: u32 where [c_consts]: "SD_CMD_CMDTYPE_NORMAL = 0"

definition SD_CMD_DP :: u32 where [c_consts]: "SD_CMD_DP = 0x200000"

definition SD_CMD_DDIR_READ :: u32 where [c_consts]: "SD_CMD_DDIR_READ = 0x10"

definition SD_CMD_48BITRSP :: u32 where [c_consts]: "SD_CMD_48BITRSP = 0x2"

definition SD_SYSCONFIG_AUTOIDLE :: u32 where [c_consts]: "SD_SYSCONFIG_AUTOIDLE = 0x1"

definition SD_SYSCONFIG_AUTOIDLE_DISABLE :: u32 where [c_consts]: "SD_SYSCONFIG_AUTOIDLE_DISABLE = 0x0"

definition SD_CON_DDR :: u32 where [c_consts]: "SD_CON_DDR = push_bit 19 0"

definition SD_CON_DDR_DISABLE :: u32 where [c_consts]: "SD_CON_DDR_DISABLE = 0"

definition SD_BLK_512 :: u32 where [c_consts]: "SD_BLK_512 = 0x200"

definition CTO_ERROR :: int where [c_consts]: "CTO_ERROR = - 16"

definition CC :: int where [c_consts]: "CC = 0"

definition CMD17 :: u32 where [c_consts]: "CMD17 = 0x11"

section \<open>Controller set-up\<close>

text \<open>A wait with a countdown that reports its failure on the console and returns -1.\<close>

definition wait_or_report ::
    "'d bus \<Rightarrow> (u32 \<Rightarrow> bool) \<Rightarrow> u32 \<Rightarrow> u32 \<Rightarrow> u32 \<Rightarrow> string \<Rightarrow> 'd \<Rightarrow> (int \<times> 'd) option" where
  "wait_or_report B P base offset timeout msg d =
     (case poll_timeout B P base offset timeout d of
        (True, d) \<Rightarrow> Some (0, d)
      | (False, d) \<Rightarrow> do { d \<leftarrow> uart_puts B (line msg) d; Some (- 1, d) })"

definition enableClocks :: "'d bus \<Rightarrow> 'd \<Rightarrow> (int \<times> 'd) option" where
  "enableClocks B d =
     wait_or_report B (\<lambda>v. v AND 0x30000 \<noteq> 0x0) CM_PER_BASE CM_PER_MMC0_CLKCTRL 100000
       ''Timeout waiting for MMC module clock''
       (REG32_write_masked B CM_PER_BASE CM_PER_MMC0_CLKCTRL 0x3 0x2 d)"

definition linesReset :: "'d bus \<Rightarrow> nat \<Rightarrow> 'd \<Rightarrow> (int \<times> 'd) option" where
  "linesReset B LINE_SHIFT d = do {
     d \<leftarrow> uart_puts B (line ''waiting for lines reset'') d;
     let bt = push_bit LINE_SHIFT SD_SYSCTL_LINES_RESET;
     let d = REG32_write_masked B MMCHS0_BASE SD_SYSCTL bt bt d;
     wait_or_report B (\<lambda>v. v AND bt \<noteq> 0) MMCHS0_BASE SD_SYSCTL 100000 ''Timeout waiting for lines reset'' d
   }"

definition setBusSupportedVoltage :: "'d bus \<Rightarrow> 'd \<Rightarrow> 'd" where
  "setBusSupportedVoltage B d = REG32_write_masked B MMCHS0_BASE SD_CAPA SD_CAPA_VS SD_CAPA_VS_1P8 d"

definition setBusVoltage :: "'d bus \<Rightarrow> u32 \<Rightarrow> 'd \<Rightarrow> 'd" where
  "setBusVoltage B voltage d =
     REG32_write_masked B MMCHS0_BASE SD_HCTL SD_HCTL_SDVS (push_bit SD_HCTL_SDVS_SHIFT voltage) d"

definition setBusPowerOn :: "'d bus \<Rightarrow> 'd \<Rightarrow> (int \<times> 'd) option" where
  "setBusPowerOn B d =
     wait_or_report B (\<lambda>v. v AND SD_HCTL_SDBP \<noteq> SD_HCTL_SDBP_ON) MMCHS0_BASE SD_HCTL 100000000
       ''Timeout waiting for SD bus power on''
       (REG32_write_masked B MMCHS0_BASE SD_HCTL SD_HCTL_SDBP SD_HCTL_SDBP_ON d)"

definition enableInternalClock :: "'d bus \<Rightarrow> 'd \<Rightarrow> (int \<times> 'd) option" where
  "enableInternalClock B d =
     wait_or_report B (\<lambda>v. v AND SD_SYSCTL_ICS \<noteq> SD_SYSCTL_ICS) MMCHS0_BASE SD_SYSCTL 100000
       ''Timeout waiting for MMC clock to be stable''
       (REG32_write_masked B MMCHS0_BASE SD_SYSCTL SD_SYSCTL_ICE SD_SYSCTL_ICE d)"

abbreviation debug :: "'d bus \<Rightarrow> string \<Rightarrow> 'd \<Rightarrow> 'd option" where
  "debug B msg \<equiv> log_message B LOG_LEVEL_DEBUG (line msg) []"

definition check_sysctl :: "'d bus \<Rightarrow> u32 \<Rightarrow> u32 \<Rightarrow> string \<Rightarrow> 'd \<Rightarrow> 'd option" where
  "check_sysctl B reg msk msg d = (if reg AND msk \<noteq> msk then uart_puts B (cstr msg) d else Some d)"

text \<open>The settings after the module and internal clocks run, up to the check of the clock bits.\<close>

definition mmc_settings :: "'d bus \<Rightarrow> 'd \<Rightarrow> 'd option" where
  "mmc_settings B d = do {
     d \<leftarrow> debug B ''setting interface and functional clocks to remain on'' d;
     let d = REG32_write_masked B MMCHS0_BASE SD_SYSCTL SD_SYSCTL_ICE SD_SYSCTL_ICE d;
     d \<leftarrow> debug B ''setting power and clocks to remain on'' d;
     let d = REG32_write_masked B MMCHS0_BASE SD_SYSCTL SD_SYSCTL_CEN SD_SYSCTL_CEN d;
     d \<leftarrow> debug B ''setting MMC to never enter low power mode'' d;
     let d = REG32_write_masked B MMCHS0_BASE SD_SYSCTL SD_SYSCTL_DTO SD_SYSCTL_DTO d;
     d \<leftarrow> debug B ''check to make sure settings applied'' d;
     let (reg, d) = REG32_read B MMCHS0_BASE SD_SYSCTL d;
     d \<leftarrow> check_sysctl B reg SD_SYSCTL_ICE ''Failed to set internal clock'' d;
     d \<leftarrow> check_sysctl B reg SD_SYSCTL_CEN ''Failed to set clock always on'' d;
     d \<leftarrow> check_sysctl B reg SD_SYSCTL_DTO ''Failed to set MMC to never enter low-power mode'' d;
     d \<leftarrow> debug B ''setting supported voltage'' d;
     let d = setBusVoltage B SD_HCTL_SDBV_1P8 (setBusSupportedVoltage B d);
     debug B ''setting and checking bus power'' d
   }"

definition mmc_reset_lines :: "'d bus \<Rightarrow> 'd \<Rightarrow> (int \<times> 'd) option" where
  "mmc_reset_lines B d = do {
     d \<leftarrow> debug B ''disabling DDR'' d;
     let d = REG32_write_masked B MMCHS0_BASE SD_CON SD_CON_DDR SD_CON_DDR_DISABLE d;
     d \<leftarrow> debug B ''setting functional mode'' d;
     let d = REG32_write_masked B MMCHS0_BASE SD_HCTL 0 0 d;
     d \<leftarrow> debug B ''resetting MMC_DAT line'' d;
     (r, d) \<leftarrow> linesReset B SD_SYSCTL_SRD d;
     if r \<noteq> 0 then Some (r, d)
     else do {
       d \<leftarrow> debug B ''resetting MMC_CMD line'' d;
       linesReset B SD_SYSCTL_SRC d
     }
   }"

definition mmc_finish :: "'d bus \<Rightarrow> 'd \<Rightarrow> 'd option" where
  "mmc_finish B d = do {
     d \<leftarrow> debug B ''checking MMC0 clocks'' d;
     let (v, d) = REG32_read_masked B MMCHS0_BASE SD_SYSCTL SD_SYSCTL_CEN d;
     if v \<noteq> SD_SYSCTL_CEN then uart_puts B (line ''MMC clocks not on'') d
     else do {
       d \<leftarrow> debug B ''clearing all status flags'' d;
       let d = REG32_write B MMCHS0_BASE SD_STAT 0xFFFFFFFF d;
       d \<leftarrow> debug B ''setting block size to 512 bytes and 1 block transfer mode'' d;
       let d = REG32_write B MMCHS0_BASE SD_BLK (push_bit 16 1 OR SD_BLK_512) d;
       log_message B LOG_LEVEL_INFO (line ''MMC init successful'') [] d
     }
   }"

definition mmc_controller_init :: "'d bus \<Rightarrow> 'd \<Rightarrow> 'd option" where
  "mmc_controller_init B d = do {
     d \<leftarrow> log_message B LOG_LEVEL_INFO (line ''init mmc controller'') [] d;
     d \<leftarrow> debug B ''Enabling module clocks'' d;
     (r, d) \<leftarrow> enableClocks B d;
     if r \<noteq> 0 then uart_puts B (line ''Failed to enable clocks'') d
     else do {
       d \<leftarrow> debug B ''Enabling internal clocks'' d;
       (r, d) \<leftarrow> enableInternalClock B d;
       if r \<noteq> 0 then uart_puts B (line ''Failed to enable internal clocks'') d
       else do {
         d \<leftarrow> debug B ''setting system config'' d;
         let d = REG32_write_masked B MMCHS0_BASE SD_SYSCONFIG SD_SYSCONFIG_AUTOIDLE SD_SYSCONFIG_AUTOIDLE_DISABLE d;
         (r, d) \<leftarrow> wait_or_report B (\<lambda>v. v AND SD_SYSCONFIG_AUTOIDLE \<noteq> SD_SYSCONFIG_AUTOIDLE_DISABLE)
             MMCHS0_BASE SD_SYSCONFIG 100000 ''Timeout waiting to disable autoidle'' d;
         if r \<noteq> 0 then Some d
         else do {
           d \<leftarrow> mmc_settings B d;
           (r, d) \<leftarrow> setBusPowerOn B d;
           if r \<noteq> 0 then Some d
           else do {
             (r, d) \<leftarrow> mmc_reset_lines B d;
             if r \<noteq> 0 then Some d else mmc_finish B d
           }
         }
       }
     }
   }"

section \<open>Commands and data\<close>

text \<open>Waiting for the end of a command: true when it completed, false on a command timeout.\<close>

partial_function (option) command_wait :: "'d bus \<Rightarrow> 'd \<Rightarrow> (bool \<times> 'd) option" where
  [code]: "command_wait B d =
     (case REG32_read_masked B MMCHS0_BASE SD_STAT SD_STAT_CC d of
        (v, d) \<Rightarrow>
          if v = SD_STAT_CC then Some (True, d)
          else case REG32_read_masked B MMCHS0_BASE SD_STAT SD_STAT_CTO d of
              (v, d) \<Rightarrow> if v = SD_STAT_CTO then Some (False, d) else command_wait B d)"

definition command_word :: "u32 \<Rightarrow> u32 \<Rightarrow> u32" where
  "command_word cmdNum rspType =
     (let reg = push_bit SD_CMD_RSPTYPE_SHIFT rspType OR SD_CMD_CCCE_CICE_ENABLE OR
                push_bit SD_CMD_INDX_SHIFT cmdNum OR SD_CMD_CMDTYPE_NORMAL
      in if cmdNum = CMD17 then reg OR SD_CMD_DP OR SD_CMD_DDIR_READ else reg)"

text \<open>The commands with a one-word response: types R1, R1b, R3 and R7.\<close>

definition one_word_commands :: "u32 set" where
  "one_word_commands = {1, 6, 9, 10, 16, 17, 18, 24, 25, 27, 30, 32, 33, 42, 55, 56, 59, 41} \<union> {12, 28, 29, 38} \<union> {58} \<union> {8}"

definition read_response :: "'d bus \<Rightarrow> u32 \<Rightarrow> u32 list \<Rightarrow> 'd \<Rightarrow> (int \<times> u32 list \<times> 'd) option" where
  "read_response B cmdNum response d =
     (if cmdNum \<in> one_word_commands then
        let (v, d) = REG32_read B MMCHS0_BASE SD_RSP10 d in Some (CC, response[0 := v], d)
      else if cmdNum = 13 then
        let (v0, d) = REG32_read B MMCHS0_BASE SD_RSP10 d;
            (v1, d) = REG32_read B MMCHS0_BASE SD_RSP32 d;
            (v2, d) = REG32_read B MMCHS0_BASE SD_RSP54 d;
            (v3, d) = REG32_read B MMCHS0_BASE SD_RSP76 d
        in Some (CC, response[0 := v0, 1 := v1, 2 := v2, 3 := v3], d)
      else if cmdNum = 0 then Some (CC, response, d)
      else do { d \<leftarrow> uart_puts B (line ''command type not listed'') d; Some (- 1, response, d) })"

definition sendCommand ::
    "'d bus \<Rightarrow> u32 \<Rightarrow> u32 \<Rightarrow> u32 \<Rightarrow> u32 list \<Rightarrow> 'd \<Rightarrow> (int \<times> u32 list \<times> 'd) option" where
  "sendCommand B cmdNum args rspType response d = do {
     d \<leftarrow> spin_while B (\<lambda>v. v AND SD_PSTATE_CC \<noteq> SD_PSTATE_C_ALLOWED) MMCHS0_BASE SD_PSTATE d;
     let d = REG32_write B MMCHS0_BASE SD_STAT SD_STAT_CLEAR d;
     let d = REG32_write B MMCHS0_BASE SD_ARG args d;
     d \<leftarrow> log_message B LOG_LEVEL_DEBUG (line ''sending command %d'') [VInt cmdNum] d;
     let d = REG32_write B MMCHS0_BASE SD_CMD (command_word cmdNum rspType) d;
     d \<leftarrow> log_message B LOG_LEVEL_DEBUG (line ''waiting for command to complete'') [] d;
     (ok, d) \<leftarrow> command_wait B d;
     if \<not> ok then do {
       let d = REG32_write B MMCHS0_BASE SD_STAT SD_STAT_CLEAR d;
       d \<leftarrow> log_message B LOG_LEVEL_ERROR (line ''Command Timeout error on cmd %d'') [VInt cmdNum] d;
       Some (CTO_ERROR, response, d)
     }
     else do {
       let d = (if cmdNum \<noteq> CMD17
                then REG32_write_masked B MMCHS0_BASE SD_STAT SD_STAT_CC_CLEAR SD_STAT_CC_CLEAR d else d);
       read_response B cmdNum response d
     }
   }"

text \<open>The wait for data: true when the words may be read, false when the read failed.\<close>

fun data_wait :: "'d bus \<Rightarrow> nat \<Rightarrow> 'd \<Rightarrow> (bool \<times> 'd) option" where
  "data_wait B 0 d = None"
| "data_wait B (Suc timeout) d =
     (let (stat, d) = REG32_read B MMCHS0_BASE SD_STAT d in
      if bit stat 5 then Some (True, d)
      else if stat = 0 then do {
        d \<leftarrow> log_message B LOG_LEVEL_ERROR (line ''No response from card (SD_STAT = 0 after cmd17)'') [] d;
        Some (True, d) }
      else if bit stat 20 then do {
        d \<leftarrow> log_message B LOG_LEVEL_ERROR (line ''Data timeout error after cmd17'') [] d;
        Some (False, d) }
      else if stat AND 0x78000 \<noteq> 0 then do {
        d \<leftarrow> log_message B LOG_LEVEL_ERROR (cstr ''Some other error..cmd17 stat raw: %d'') [VInt stat] d;
        Some (False, d) }
      else if timeout = 0 then do {
        d \<leftarrow> log_message B LOG_LEVEL_ERROR (line ''Timeout waiting for BRR bit'') [] d;
        Some (False, d) }
      else data_wait B timeout d)"

definition word_bytes :: "u32 \<Rightarrow> u8 list" where
  "word_bytes w = [ucast (w AND 0xFF), ucast (drop_bit 8 w AND 0xFF), ucast (drop_bit 16 w AND 0xFF),
     ucast (drop_bit 24 w AND 0xFF)]"

fun read_words :: "'d bus \<Rightarrow> nat \<Rightarrow> 'd \<Rightarrow> u8 list \<times> 'd" where
  "read_words B 0 d = ([], d)"
| "read_words B (Suc n) d =
     (let (w, d) = REG32_read B MMCHS0_BASE SD_DATA d; (bs, d) = read_words B n d in (word_bytes w @ bs, d))"

text \<open>The result: a code and, after a successful read, the bytes stored in the caller's buffer.\<close>

definition mmc_read_sector :: "'d bus \<Rightarrow> u32 \<Rightarrow> 'd \<Rightarrow> (int \<times> u8 list option \<times> 'd) option" where
  "mmc_read_sector B sector d = do {
     (r, responses, d) \<leftarrow> sendCommand B CMD17 sector SD_CMD_48BITRSP (replicate 4 0) d;
     if r \<noteq> CC then do {
       d \<leftarrow> log_message B LOG_LEVEL_WARN (line ''CMD17 CTO'') [] d;
       Some (- 1, None, d)
     }
     else do {
       (ok, d) \<leftarrow> data_wait B 1000000 d;
       if \<not> ok then Some (- 1, None, d)
       else do {
         let (bs, d) = read_words B 128 d;
         let d = REG32_write B MMCHS0_BASE SD_STAT SD_STAT_CC_CLEAR d;
         let (v, d) = REG32_read B MMCHS0_BASE SD_CON d;
         let d = REG32_write B MMCHS0_BASE SD_CON (v AND NOT 0x2) d;
         Some (0, Some bs, d)
       }
     }
   }"

section \<open>Countdowns\<close>

lemma poll_rounds_iff:
  "fst (poll_rounds B P base offset n d) \<longleftrightarrow> (\<exists>k < n. answers_at B P (base + offset) d k)"
proof (induction n arbitrary: d)
  case (Suc n)
  let ?d = "snd (bus_read B (base + offset) d)"
  have split: "(\<exists>k < Suc n. answers_at B P (base + offset) d k) \<longleftrightarrow>
      answers_at B P (base + offset) d 0 \<or> (\<exists>k < n. answers_at B P (base + offset) ?d k)"
    by (auto simp: Ex_less_Suc2 answers_at_def)
  show ?case
    unfolding split using Suc.IH[of ?d]
    by (cases n) (auto simp: REG32_read_def split_beta answers_at_def)
qed simp

lemma poll_rounds_inv:
  assumes "\<And>d. I d \<Longrightarrow> I (snd (bus_read B (base + offset) d))" "I d"
  shows "I (snd (poll_rounds B P base offset n d))"
  using assms(2) by (induction n arbitrary: d) (auto simp: REG32_read_def split_beta assms(1))

lemma wait_or_report_result:
  assumes "console B S tx" "\<And>d. d \<in> S \<Longrightarrow> snd (bus_read B (base + offset) d) \<in> S" "d \<in> S" "timeout \<noteq> 0"
  shows "\<exists>d' \<in> S. wait_or_report B P base offset timeout msg d =
    Some (if \<exists>k < unat timeout. answers_at B P (base + offset) d k then 0 else - 1, d')"
proof -
  let ?p = "poll_rounds B P base offset (unat timeout) d"
  have in_S: "snd ?p \<in> S" using poll_rounds_inv[of "\<lambda>d. d \<in> S", OF assms(2,3)] by blast
  obtain d1 where "uart_puts B (line msg) (snd ?p) = Some d1" "d1 \<in> S"
    by (rule emitsE[OF uart_puts_emits[OF assms(1)] in_S])
  then show ?thesis
    using in_S assms(4) poll_rounds_iff[of B P base offset "unat timeout" d]
    by (cases ?p) (auto simp: wait_or_report_def poll_timeout_def split: bool.split)
qed

lemma no_debug_output: "log_message B LOG_LEVEL_DEBUG fmt ap d = Some d"
  by (simp add: log_message_def c_consts)

text \<open>The set-up always returns: every wait in it has a countdown and every report reaches the line.\<close>

lemma setup_parts_return:
  assumes "console B UNIV tx"
  shows "uart_puts B m d \<noteq> None" "timeout \<noteq> 0 \<Longrightarrow> wait_or_report B P base offset timeout msg d \<noteq> None"
    "log_message B LOG_LEVEL_INFO (line ''init mmc controller'') [] d \<noteq> None"
    "log_message B LOG_LEVEL_INFO (line ''MMC init successful'') [] d \<noteq> None"
proof -
  show puts: "uart_puts B m d \<noteq> None" using uart_puts_emits[OF assms, of m] by (auto simp: emits_def)
  show "timeout \<noteq> 0 \<Longrightarrow> wait_or_report B P base offset timeout msg d \<noteq> None"
    using wait_or_report_result[OF assms, of base offset d timeout P msg] by auto
  have say: "render msg [] = Some out \<Longrightarrow> log_message B LOG_LEVEL_INFO msg [] d \<noteq> None" for msg out d
    using vprintf_emits[OF assms UNIV_I, of msg "[]" out d] by (auto simp: log_message_def LOG_LEVEL_def)
  show "log_message B LOG_LEVEL_INFO (line ''init mmc controller'') [] d \<noteq> None"
    "log_message B LOG_LEVEL_INFO (line ''MMC init successful'') [] d \<noteq> None"
    by (rule say, rule render_plain, simp add: NEWLINE_def)+
qed

lemma mmc_controller_init_returns:
  assumes "console B UNIV tx"
  shows "mmc_controller_init B d \<noteq> None"
proof -
  note parts = setup_parts_return[OF assms] returns
  have debug: "debug B m d \<noteq> None" for m d by (simp only: no_debug_output option.distinct not_False_eq_True)
  have "linesReset B n d \<noteq> None" for n d unfolding linesReset_def by (intro parts) simp
  moreover have "mmc_settings B d \<noteq> None" for d
    unfolding mmc_settings_def check_sysctl_def by (intro parts debug)
  moreover have "mmc_finish B d \<noteq> None" for d unfolding mmc_finish_def by (intro parts debug)
  moreover have "enableClocks B d \<noteq> None" "enableInternalClock B d \<noteq> None" "setBusPowerOn B d \<noteq> None" for d
    unfolding enableClocks_def enableInternalClock_def setBusPowerOn_def by (intro parts; simp)+
  ultimately show ?thesis
    unfolding mmc_controller_init_def mmc_reset_lines_def by (intro parts debug) simp_all
qed

text \<open>
  The clock wait is bounded and its result is right: \<^verbatim>\<open>enableClocks\<close> always returns, with 0 exactly
  when the module clock reports itself running within the first 100000 reads after it was enabled, and
  with -1 otherwise.
\<close>

theorem enableClocks_result:
  assumes "console B S tx" "\<forall>d \<in> S. snd (bus_read B (CM_PER_BASE + CM_PER_MMC0_CLKCTRL) d) \<in> S"
    and "d1 = REG32_write_masked B CM_PER_BASE CM_PER_MMC0_CLKCTRL 0x3 0x2 d" "d1 \<in> S"
  shows "\<exists>d' \<in> S. enableClocks B d =
    Some (if \<exists>k < 100000. answers_at B (\<lambda>v. v AND 0x30000 \<noteq> 0) (CM_PER_BASE + CM_PER_MMC0_CLKCTRL) d1 k
          then 0 else - 1, d')"
  using wait_or_report_result[OF assms(1), of CM_PER_BASE CM_PER_MMC0_CLKCTRL d1 100000] assms
  by (simp add: enableClocks_def)

theorem enableClocks_result_witness: "\<exists>d'. enableClocks ex_line ex_idle_line = Some (0, d')"
proof -
  have "answers_at ex_line (\<lambda>v. v AND 0x30000 \<noteq> 0) (CM_PER_BASE + CM_PER_MMC0_CLKCTRL) d 0" for d
    by (simp add: answers_at_def ex_line_def c_consts)
  then have "\<exists>k < 100000. answers_at ex_line (\<lambda>v. v AND 0x30000 \<noteq> 0) (CM_PER_BASE + CM_PER_MMC0_CLKCTRL) d k" for d
    by (intro exI[of _ 0]) simp
  then show ?thesis using enableClocks_result[OF ex_console _ refl UNIV_I, of ex_idle_line] by simp
qed

section \<open>Reading a sector\<close>

fun le_words :: "u8 list \<Rightarrow> u32 list" where
  "le_words (a # b # c # d # bs) =
     (u32_of_u8 a OR push_bit 8 (u32_of_u8 b) OR push_bit 16 (u32_of_u8 c) OR push_bit 24 (u32_of_u8 d)) # le_words bs"
| "le_words _ = []"

lemma word_bytes_le: "word_bytes (u32_of_u8 a OR push_bit 8 (u32_of_u8 b) OR push_bit 16 (u32_of_u8 c) OR push_bit 24 (u32_of_u8 d)) = [a, b, c, d]"
proof -
  have m: "(ucast (w AND 0xFF) :: u8) = ucast w" for w :: u32
  proof -
    have "w AND 0xFF = take_bit 8 w" by (simp add: take_bit_eq_mask mask_eq_exp_minus_1)
    then show ?thesis by (intro bit_word_eqI) (simp add: bit_simps)
  qed
  show ?thesis
    using le_bytes_eq_iff[of a b c d "u32_of_u8 a OR push_bit 8 (u32_of_u8 b) OR push_bit 16 (u32_of_u8 c) OR push_bit 24 (u32_of_u8 d)"]
    by (simp add: word_bytes_def m)
qed

lemma bytes_of_le_words: "4 dvd length bs \<Longrightarrow> concat (map word_bytes (le_words bs)) = bs"
proof (induction bs rule: le_words.induct)
  case (1 a b c d bs)
  have "4 dvd length bs" using 1(2) by simp presburger
  then show ?case using 1(1) by (simp add: word_bytes_le)
qed (auto dest: dvd_imp_le)

lemma length_le_words: "length (le_words bs) = length bs div 4"
  by (induction bs rule: le_words.induct) auto

text \<open>
  A card behind the controller, as its documentation describes it. It is idle in the states \<open>I\<close>. A word in the
  command register starts a read of the sector in the argument register when it has the index 17,
  announces data in the direction of the processor and asks for a response of 48 bits. In the states \<open>T c r\<close>
  the read is under way: the status shows the completion of the command after \<open>c\<close> more reads and the
  words ready in the buffer after \<open>r\<close> more, and no error; only then does the data register yield the words.
\<close>

definition read_command :: "u32 \<Rightarrow> bool" where
  "read_command w \<longleftrightarrow> drop_bit 24 w AND 0x3F = 17 \<and> bit w 21 \<and> bit w 4 \<and> drop_bit 16 w AND 3 = 2"

definition sd_card :: "'d bus \<Rightarrow> 'd set \<Rightarrow> (nat \<Rightarrow> nat \<Rightarrow> 'd set) \<Rightarrow> ('d \<Rightarrow> u32) \<Rightarrow> ('d \<Rightarrow> u32 list) \<Rightarrow>
    (u32 \<Rightarrow> u8 list) \<Rightarrow> bool" where
  "sd_card B I T arg fifo sectors \<longleftrightarrow>
     (\<forall>d \<in> I. responds B (\<lambda>v. v AND SD_PSTATE_CC \<noteq> SD_PSTATE_C_ALLOWED) (MMCHS0_BASE + SD_PSTATE) d \<and>
        snd (bus_read B (MMCHS0_BASE + SD_PSTATE) d) \<in> I \<and> snd (bus_read B (MMCHS0_BASE + SD_CON) d) \<in> I \<and>
        (\<forall>v. bus_write B (MMCHS0_BASE + SD_STAT) v d \<in> I \<and> bus_write B (MMCHS0_BASE + SD_CON) v d \<in> I \<and>
             bus_write B (MMCHS0_BASE + SD_ARG) v d \<in> I \<and> arg (bus_write B (MMCHS0_BASE + SD_ARG) v d) = v) \<and>
        (\<forall>w. read_command w \<longrightarrow> (\<exists>c r. r < 1000000 \<and> bus_write B (MMCHS0_BASE + SD_CMD) w d \<in> T c r) \<and>
           fifo (bus_write B (MMCHS0_BASE + SD_CMD) w d) = le_words (sectors (arg d)))) \<and>
     (\<forall>c r. \<forall>d \<in> T c r. (let (v, d') = bus_read B (MMCHS0_BASE + SD_STAT) d in
        (bit v 0 \<longleftrightarrow> c = 0) \<and> (bit v 5 \<longleftrightarrow> r = 0) \<and> \<not> bit v 16 \<and> \<not> bit v 20 \<and> v AND 0x78000 = 0 \<and>
        d' \<in> T (c - 1) (r - 1) \<and> fifo d' = fifo d)) \<and>
     (\<forall>r. \<forall>d \<in> T 0 r. snd (bus_read B (MMCHS0_BASE + SD_RSP10) d) \<in> T 0 r \<and>
        fifo (snd (bus_read B (MMCHS0_BASE + SD_RSP10) d)) = fifo d) \<and>
     (\<forall>d \<in> T 0 0.
        (\<forall>w ws. fifo d = w # ws \<longrightarrow> (\<exists>d'. bus_read B (MMCHS0_BASE + SD_DATA) d = (w, d') \<and> d' \<in> T 0 0 \<and> fifo d' = ws)) \<and>
        (\<forall>v. fifo d = [] \<longrightarrow> bus_write B (MMCHS0_BASE + SD_STAT) v d \<in> I))"

lemma card_idle:
  assumes "sd_card B I T arg fifo sectors" "d \<in> I"
  shows "responds B (\<lambda>v. v AND SD_PSTATE_CC \<noteq> SD_PSTATE_C_ALLOWED) (MMCHS0_BASE + SD_PSTATE) d"
    and "snd (bus_read B (MMCHS0_BASE + SD_PSTATE) d) \<in> I" "snd (bus_read B (MMCHS0_BASE + SD_CON) d) \<in> I"
    and "bus_write B (MMCHS0_BASE + SD_STAT) v d \<in> I" "bus_write B (MMCHS0_BASE + SD_CON) v d \<in> I"
    and "bus_write B (MMCHS0_BASE + SD_ARG) v d \<in> I" "arg (bus_write B (MMCHS0_BASE + SD_ARG) v d) = v"
    and "read_command w \<Longrightarrow> \<exists>c r. r < 1000000 \<and> bus_write B (MMCHS0_BASE + SD_CMD) w d \<in> T c r"
    and "read_command w \<Longrightarrow> fifo (bus_write B (MMCHS0_BASE + SD_CMD) w d) = le_words (sectors (arg d))"
  using assms unfolding sd_card_def by blast+

lemma card_status:
  assumes "sd_card B I T arg fifo sectors" "d \<in> T c r" "bus_read B (MMCHS0_BASE + SD_STAT) d = (v, d')"
  shows "bit v 0 \<longleftrightarrow> c = 0" "bit v 5 \<longleftrightarrow> r = 0" "\<not> bit v 16" "\<not> bit v 20" "v AND 0x78000 = 0"
    "d' \<in> T (c - 1) (r - 1)" "fifo d' = fifo d"
proof -
  have "\<forall>c r. \<forall>d \<in> T c r. (let (v, d') = bus_read B (MMCHS0_BASE + SD_STAT) d in
        (bit v 0 \<longleftrightarrow> c = 0) \<and> (bit v 5 \<longleftrightarrow> r = 0) \<and> \<not> bit v 16 \<and> \<not> bit v 20 \<and> v AND 0x78000 = 0 \<and>
        d' \<in> T (c - 1) (r - 1) \<and> fifo d' = fifo d)" using assms(1) unfolding sd_card_def by blast
  from this[rule_format, OF assms(2)] show "bit v 0 \<longleftrightarrow> c = 0" "bit v 5 \<longleftrightarrow> r = 0" "\<not> bit v 16" "\<not> bit v 20" "v AND 0x78000 = 0"
    "d' \<in> T (c - 1) (r - 1)" "fifo d' = fifo d" by (simp_all add: assms(3))
qed

lemma card_ready:
  assumes "sd_card B I T arg fifo sectors"
  shows "d \<in> T 0 r \<Longrightarrow> snd (bus_read B (MMCHS0_BASE + SD_RSP10) d) \<in> T 0 r"
    and "d \<in> T 0 r \<Longrightarrow> fifo (snd (bus_read B (MMCHS0_BASE + SD_RSP10) d)) = fifo d"
    and "d \<in> T 0 0 \<Longrightarrow> fifo d = w # ws \<Longrightarrow> \<exists>d'. bus_read B (MMCHS0_BASE + SD_DATA) d = (w, d') \<and> d' \<in> T 0 0 \<and> fifo d' = ws"
    and "d \<in> T 0 0 \<Longrightarrow> fifo d = [] \<Longrightarrow> bus_write B (MMCHS0_BASE + SD_STAT) v d \<in> I"
  using assms unfolding sd_card_def by blast+

lemma read_words_fifo:
  assumes "sd_card B I T arg fifo sectors" "d \<in> T 0 0" "fifo d = ws @ rest"
  shows "\<exists>d'. read_words B (length ws) d = (concat (map word_bytes ws), d') \<and> d' \<in> T 0 0 \<and> fifo d' = rest"
  using assms(2,3)
proof (induction ws arbitrary: d)
  case (Cons w ws)
  obtain d1 where d1: "bus_read B (MMCHS0_BASE + SD_DATA) d = (w, d1)" "d1 \<in> T 0 0" "fifo d1 = ws @ rest"
    using card_ready(3)[OF assms(1) Cons.prems(1)] Cons.prems(2) by fastforce
  then show ?case using Cons.IH[OF d1(2,3)] by (auto simp: REG32_read_def)
qed simp

lemma and_1_bit: "w AND 0x1 = 1 \<longleftrightarrow> bit w 0" for w :: u32
  using and_exp_word[of w 0] by auto

lemma command_wait_done:
  "bit (fst (bus_read B (MMCHS0_BASE + SD_STAT) d)) 0 \<Longrightarrow>
   command_wait B d = Some (True, snd (bus_read B (MMCHS0_BASE + SD_STAT) d))"
  by (subst command_wait.simps) (simp add: REG32_read_masked_def split_beta SD_STAT_CC_def and_1_bit)

lemma command_wait_completes:
  assumes "sd_card B I T arg fifo sectors"
  shows "d \<in> T c r \<Longrightarrow> \<exists>d' r'. command_wait B d = Some (True, d') \<and> d' \<in> T 0 r' \<and> r' \<le> r \<and> fifo d' = fifo d"
proof (induction c arbitrary: d r rule: less_induct)
  case (less c)
  obtain v1 d1 where r1: "bus_read B (MMCHS0_BASE + SD_STAT) d = (v1, d1)" by fastforce
  obtain v2 d2 where r2: "bus_read B (MMCHS0_BASE + SD_STAT) d1 = (v2, d2)" by fastforce
  note s1 = card_status[OF assms less.prems r1]
  note s2 = card_status[OF assms s1(6) r2]
  show ?case
  proof (cases "c = 0")
    case True
    then have "command_wait B d = Some (True, d1)" using command_wait_done[of B d] r1 s1(1) by simp
    then show ?thesis using s1(6,7) True by (intro exI[of _ d1] exI[of _ "r - 1"]) simp
  next
    case False
    have cto: "v2 AND 0x10000 \<noteq> 0x10000" using s2(3) and_exp_word[of v2 16] by auto
    have "command_wait B d = command_wait B d2"
      using s1(1) False cto r1 r2
      by (subst command_wait.simps) (simp add: REG32_read_masked_def SD_STAT_CC_def SD_STAT_CTO_def and_1_bit)
    moreover have "c - 1 - 1 < c" using False by simp
    from less.IH[OF this s2(6)] obtain d' r' where
      "command_wait B d2 = Some (True, d')" "d' \<in> T 0 r'" "r' \<le> r - 1 - 1" "fifo d' = fifo d2" by blast
    ultimately show ?thesis using s1(7) s2(7) by (intro exI[of _ d'] exI[of _ r']) simp
  qed
qed

lemma data_wait_completes:
  assumes "sd_card B I T arg fifo sectors"
  shows "d \<in> T 0 r \<Longrightarrow> r < n \<Longrightarrow> \<exists>d'. data_wait B n d = Some (True, d') \<and> d' \<in> T 0 0 \<and> fifo d' = fifo d"
proof (induction n arbitrary: d r)
  case (Suc n)
  obtain v d1 where r1: "bus_read B (MMCHS0_BASE + SD_STAT) d = (v, d1)" by fastforce
  note s = card_status[OF assms Suc.prems(1) r1]
  show ?case
  proof (cases "r = 0")
    case True
    then show ?thesis using s by (simp add: REG32_read_def r1)
  next
    case False
    have "v \<noteq> 0" using s(1) by auto
    moreover have "n \<noteq> 0" using False Suc.prems(2) by simp
    ultimately have "data_wait B (Suc n) d = data_wait B n d1"
      using False s(2,4,5) by (simp add: REG32_read_def r1)
    then show ?thesis using Suc.IH[of d1 "r - 1"] s(6,7) Suc.prems(2) False by auto
  qed
qed simp

lemma read_command_word: "read_command (command_word CMD17 SD_CMD_48BITRSP)"
  by (simp add: read_command_def command_word_def c_consts)

lemma send_read_command:
  assumes "sd_card B I T arg fifo sectors" "d \<in> I"
  shows "\<exists>r d'. sendCommand B CMD17 sector SD_CMD_48BITRSP (replicate 4 0) d = Some (CC, r, d') \<and>
    (\<exists>r' < 1000000. d' \<in> T 0 r') \<and> fifo d' = le_words (sectors sector)"
proof -
  have "\<exists>d'. spin_while B (\<lambda>v. v AND SD_PSTATE_CC \<noteq> SD_PSTATE_C_ALLOWED) MMCHS0_BASE SD_PSTATE d = Some d' \<and> d' \<in> I"
    using card_idle(1,2)[OF assms(1)] assms(2) by (intro spin_while_total)
  then obtain d0 where d0: "spin_while B (\<lambda>v. v AND SD_PSTATE_CC \<noteq> SD_PSTATE_C_ALLOWED) MMCHS0_BASE SD_PSTATE d = Some d0"
    "d0 \<in> I" by blast
  define d1 where "d1 = REG32_write B MMCHS0_BASE SD_ARG sector (REG32_write B MMCHS0_BASE SD_STAT SD_STAT_CLEAR d0)"
  have d1: "d1 \<in> I" "arg d1 = sector" using card_idle[OF assms(1)] d0(2) by (simp_all add: d1_def REG32_write_def)
  define d2 where "d2 = REG32_write B MMCHS0_BASE SD_CMD (command_word CMD17 SD_CMD_48BITRSP) d1"
  obtain c r where d2: "d2 \<in> T c r" "r < 1000000" "fifo d2 = le_words (sectors sector)"
    using card_idle(8,9)[OF assms(1) d1(1) read_command_word] d1(2) unfolding d2_def REG32_write_def by metis
  obtain d3 r' where d3: "command_wait B d2 = Some (True, d3)" "d3 \<in> T 0 r'" "r' \<le> r" "fifo d3 = fifo d2"
    using command_wait_completes[OF assms(1) d2(1)] by blast
  define d4 where "d4 = snd (bus_read B (MMCHS0_BASE + SD_RSP10) d3)"
  have d4: "d4 \<in> T 0 r'" "fifo d4 = fifo d3" using card_ready(1,2)[OF assms(1) d3(2)] by (simp_all add: d4_def)
  have "17 \<in> one_word_commands" by (simp add: one_word_commands_def)
  then have "sendCommand B CMD17 sector SD_CMD_48BITRSP (replicate 4 0) d =
      Some (CC, (replicate 4 0)[0 := fst (bus_read B (MMCHS0_BASE + SD_RSP10) d3)], d4)"
    using d0(1) d3(1)
    by (simp add: sendCommand_def no_debug_output d1_def[symmetric] d2_def[symmetric] read_response_def
        d4_def REG32_read_def split_beta) (simp add: CMD17_def)
  moreover have "r' < 1000000" using d2(2) d3(3) by simp
  ultimately show ?thesis using d2(3) d3(4) d4 by auto
qed

lemma card_read:
  assumes "sd_card B I T arg fifo sectors" "d \<in> I" "length (sectors sector) = 512"
  shows "\<exists>d' \<in> I. mmc_read_sector B sector d = Some (0, Some (sectors sector), d')"
proof -
  obtain r d1 where d1: "sendCommand B CMD17 sector SD_CMD_48BITRSP (replicate 4 0) d = Some (CC, r, d1)"
    "\<exists>r' < 1000000. d1 \<in> T 0 r'" "fifo d1 = le_words (sectors sector)" using send_read_command[OF assms(1,2)] by blast
  then obtain d2 where wait: "data_wait B 1000000 d1 = Some (True, d2)" and d2: "d2 \<in> T 0 0" "fifo d2 = fifo d1"
    using data_wait_completes[OF assms(1), of d1 _ 1000000] by blast
  have n: "length (le_words (sectors sector)) = 128" using assms(3) by (simp add: length_le_words)
  obtain d3 where d3: "read_words B 128 d2 = (sectors sector, d3)" "d3 \<in> T 0 0" "fifo d3 = []"
    using read_words_fifo[OF assms(1) d2(1), of "le_words (sectors sector)" "[]"] d1(3) d2(2) n
      bytes_of_le_words[of "sectors sector"] assms(3) by auto
  define d4 where "d4 = REG32_write B MMCHS0_BASE SD_STAT SD_STAT_CC_CLEAR d3"
  have "d4 \<in> I" using card_ready(4)[OF assms(1) d3(2,3)] by (simp add: d4_def REG32_write_def)
  then have "REG32_write B MMCHS0_BASE SD_CON v (snd (REG32_read B MMCHS0_BASE SD_CON d4)) \<in> I" for v
    using card_idle(3,5)[OF assms(1)] by (simp add: REG32_write_def REG32_read_def)
  then show ?thesis
    using d1(1) wait d3(1) by (simp add: mmc_read_sector_def split_beta d4_def[symmetric] del: data_wait.simps read_words.simps)
qed

text \<open>
  C20. Sector reads: on a card with the given sector contents, however many polls it takes to complete the
  command and, below the limit of 1000000, to have the data ready, \<^verbatim>\<open>mmc_read_sector\<close> returns 0 and stores
  exactly the 512 bytes of the sector, whatever sector is asked for, and leaves the controller ready
  for the next command.
\<close>

theorem mmc_reads_sector:
  assumes "sd_card B I T arg fifo sectors" "d \<in> I" "length (sectors sector) = 512"
  shows "\<exists>d' \<in> I. mmc_read_sector B sector d = Some (0, Some (sectors sector), d')"
  using assms by (rule card_read)

text \<open>
  A silent card is taken for a good one: when the read command completes but the status register
  then shows nothing at all, the code reports an error on the console and still returns 0, with
  whatever the data register yields as the sector.
\<close>

theorem silent_card_counts_as_success:
  assumes "sendCommand B CMD17 sector SD_CMD_48BITRSP (replicate 4 0) d = Some (CC, r, d1)"
    and "bus_read B (MMCHS0_BASE + SD_STAT) d1 = (0, d2)" "console B S tx" "d2 \<in> S"
  shows "\<exists>d3 d'. mmc_read_sector B sector d = Some (0, Some (fst (read_words B 128 d3)), d') \<and>
    tx d3 = tx d2 @ crlf (line ''No response from card (SD_STAT = 0 after cmd17)'')"
proof -
  define msg where "msg = line ''No response from card (SD_STAT = 0 after cmd17)''"
  have "render msg [] = Some (crlf msg)" by (rule render_plain) (simp add: msg_def NEWLINE_def)
  from vprintf_emits[OF assms(3,4) this]
  obtain d3 where d3: "log_message B LOG_LEVEL_ERROR msg [] d2 = Some d3" "tx d3 = tx d2 @ crlf msg"
    by (auto simp: log_message_def LOG_LEVEL_ERROR_def LOG_LEVEL_def LOG_LEVEL_INFO_def)
  have "data_wait B 1000000 d1 = Some (True, d3)"
    using data_wait.simps(2)[of B 999999 d1, folded msg_def] assms(2) d3(1) by (simp add: REG32_read_def)
  then show ?thesis
    unfolding msg_def[symmetric]
    using assms(1) d3(2)
    by - (rule exI[of _ d3], simp add: mmc_read_sector_def split_beta Let_def del: data_wait.simps read_words.simps)
qed

section \<open>Examples\<close>

text \<open>
  A card whose sectors repeat the low byte of their number: the argument register, the polls until the
  command is complete and until the data are ready, and the words to come. Both take some polls.
\<close>

definition ex_sectors :: "u32 \<Rightarrow> u8 list" where
  "ex_sectors sector = replicate 512 (ucast sector)"

definition ex_card :: "(u32 \<times> nat \<times> nat \<times> u32 list) bus" where
  "ex_card = \<lparr>
     bus_read = (\<lambda>a (g, c, r, ws).
       if a = MMCHS0_BASE + SD_STAT then ((if c = 0 then 1 else 0) OR (if r = 0 then 0x20 else 0), (g, c - 1, r - 1, ws))
       else if a = MMCHS0_BASE + SD_DATA then (case ws of [] \<Rightarrow> (0, (g, c, r, [])) | w # ws \<Rightarrow> (w, (g, c, r, ws)))
       else (0, (g, c, r, ws))),
     bus_write = (\<lambda>a v (g, c, r, ws).
       if a = MMCHS0_BASE + SD_ARG then (v, c, r, ws)
       else if a = MMCHS0_BASE + SD_CMD \<and> read_command v then (g, 3, 40, le_words (ex_sectors g))
       else (g, c, r, ws))\<rparr>"

lemma ex_card_ok:
  "sd_card ex_card {d. snd (snd (snd d)) = []} (\<lambda>c r. {d. fst (snd d) = c \<and> fst (snd (snd d)) = r}) fst (snd \<circ> snd \<circ> snd) ex_sectors"
proof -
  have "responds ex_card (\<lambda>v. v AND SD_PSTATE_CC \<noteq> SD_PSTATE_C_ALLOWED) (MMCHS0_BASE + SD_PSTATE) d" for d
    by (intro responds_0) (simp add: ex_card_def c_consts split_beta)
  moreover have "bit (0x21::u32) 0" "bit (0x21::u32) 5" "\<not> bit (0x21::u32) 16" "\<not> bit (0x21::u32) 20"
    "bit (0x20::u32) 5" "\<not> bit (0x20::u32) 0" "\<not> bit (0x20::u32) 16" "\<not> bit (0x20::u32) 20"
    "\<not> bit (1::u32) 5" "\<not> bit (1::u32) 16" "\<not> bit (1::u32) 20" by simp_all
  ultimately show ?thesis
    by (simp add: sd_card_def) (simp add: ex_card_def c_consts split_beta)
qed

theorem mmc_reads_sector_witness:
  "\<exists>d'. mmc_read_sector ex_card 7 (0, 0, 0, []) = Some (0, Some (replicate 512 7), d')"
  using mmc_reads_sector[OF ex_card_ok, of "(0, 0, 0, [])" 7] by (auto simp: ex_sectors_def)

text \<open>A card that accepts the command and then shows an empty status.\<close>

definition ex_silent :: "(bool \<times> line_device) bus" where
  "ex_silent = \<lparr>
     bus_read = (\<lambda>a (b, d).
       if a = MMCHS0_BASE + SD_STAT then (of_bool b, (False, d))
       else let (v, d') = bus_read ex_line a d in (v, (b, d'))),
     bus_write = (\<lambda>a v (b, d). (a = MMCHS0_BASE + SD_CMD \<or> b, bus_write ex_line a v d))\<rparr>"

lemma ex_silent_lsr:
  "bus_read ex_silent (UART0_BASE + UART_LSR_UART_OFF) (b, d) =
     (fst (bus_read ex_line (UART0_BASE + UART_LSR_UART_OFF) d), (b, d\<lparr>busy := busy d - 1\<rparr>))"
  by (simp add: ex_silent_def ex_line_ops(1) split_beta) (simp add: c_consts)

lemma ex_silent_responds: "responds ex_silent (\<lambda>v. v AND 0x20 = 0) (UART0_BASE + UART_LSR_UART_OFF) (b, d)"
proof (induction "busy d" arbitrary: d)
  case 0
  then show ?case by (intro responds_0) (simp add: ex_silent_lsr ex_line_ops(1))
next
  case (Suc n)
  have "n = busy (d\<lparr>busy := busy d - 1\<rparr>)" using Suc(2) by simp
  from Suc(1)[OF this] show ?case by - (rule responds_step, simp add: ex_silent_lsr)
qed

lemma ex_silent_console: "console ex_silent UNIV (sent \<circ> snd)"
  using ex_silent_responds
  by (simp add: console_def ex_silent_lsr split_paired_all) (simp add: ex_silent_def split_beta ex_line_ops(2))

lemma ex_silent_command:
  "\<exists>r. sendCommand ex_silent CMD17 0 SD_CMD_48BITRSP (replicate 4 0) (False, ex_idle_line) =
     Some (CC, r, (False, ex_idle_line))"
proof -
  have "spin_while ex_silent (\<lambda>v. v AND SD_PSTATE_CC \<noteq> SD_PSTATE_C_ALLOWED) MMCHS0_BASE SD_PSTATE (False, ex_idle_line) =
      Some (False, ex_idle_line)"
    by (subst spin_while.simps) (simp add: REG32_read_def ex_silent_def ex_line_def c_consts)
  moreover have "REG32_write ex_silent MMCHS0_BASE SD_STAT v (False, ex_idle_line) = (False, ex_idle_line)"
    "REG32_write ex_silent MMCHS0_BASE SD_ARG v (False, ex_idle_line) = (False, ex_idle_line)"
    "REG32_write ex_silent MMCHS0_BASE SD_CMD v (False, ex_idle_line) = (True, ex_idle_line)" for v
    by (simp_all add: REG32_write_def ex_silent_def ex_line_def c_consts)
  moreover have "command_wait ex_silent (True, ex_idle_line) = Some (True, (False, ex_idle_line))"
    by (subst command_wait_done) (simp_all add: ex_silent_def)
  moreover have "REG32_read ex_silent MMCHS0_BASE SD_RSP10 (False, ex_idle_line) = (0, (False, ex_idle_line))"
    by (simp add: REG32_read_def ex_silent_def ex_line_def c_consts)
  ultimately show ?thesis
    by (simp add: sendCommand_def no_debug_output read_response_def) (simp add: CMD17_def one_word_commands_def)
qed

theorem silent_card_counts_as_success_witness:
  "\<exists>bs d'. mmc_read_sector ex_silent 0 (False, ex_idle_line) = Some (0, Some bs, d')"
proof -
  obtain r where r: "sendCommand ex_silent CMD17 0 SD_CMD_48BITRSP (replicate 4 0) (False, ex_idle_line) =
      Some (CC, r, (False, ex_idle_line))" using ex_silent_command by blast
  have "bus_read ex_silent (MMCHS0_BASE + SD_STAT) (False, ex_idle_line) = (0, (False, ex_idle_line))"
    by (simp add: ex_silent_def)
  from silent_card_counts_as_success[OF r this ex_silent_console UNIV_I] show ?thesis by blast
qed

end
