(* ===== verification/Ddr.thy ===== *)
theory Ddr
  imports Uart
begin

text \<open>
  DRAM set-up and test, \<^verbatim>\<open>boot/ddr.c\<close>, with the bounded wait macro of \<^verbatim>\<open>common/utils.h\<close>.

  The set-up is a fixed sequence of register accesses and bounded waits, so it always returns. The
  memory test goes through the bus as well: it writes each of four patterns to every word and reads it
  back at once. Its result is compared with the number of words that do not keep a pattern.
\<close>

section \<open>Set-up\<close>

text \<open>\<^verbatim>\<open>WAIT_FOR_REG32\<close>: at most one read more than the timeout.\<close>

fun wait_rounds :: "'d bus \<Rightarrow> u32 \<Rightarrow> u32 \<Rightarrow> u32 \<Rightarrow> u32 \<Rightarrow> nat \<Rightarrow> 'd \<Rightarrow> 'd" where
  "wait_rounds B base offset msk expected timeout d =
     (let (v, d) = REG32_read_masked B base offset msk d
      in if v \<noteq> expected \<and> 0 < timeout then wait_rounds B base offset msk expected (timeout - 1) d else d)"

declare wait_rounds.simps [simp del]

definition WAIT_FOR_REG32 :: "'d bus \<Rightarrow> u32 \<Rightarrow> u32 \<Rightarrow> u32 \<Rightarrow> u32 \<Rightarrow> u32 \<Rightarrow> 'd \<Rightarrow> 'd" where
  "WAIT_FOR_REG32 B base offset msk expected timeout d = wait_rounds B base offset msk expected (unat timeout) d"

definition TIMEOUT :: u32 where [c_consts]: "TIMEOUT = 1000000"

definition SOC_EMIF_0_REGS :: u32 where [c_consts]: "SOC_EMIF_0_REGS = 0x4C000000"

definition DDR_PHY_CTRL_BASE :: u32 where [c_consts]: "DDR_PHY_CTRL_BASE = 0x44E12000"

definition CM_PER_EMIF_CLKCTRL :: u32 where [c_consts]: "CM_PER_EMIF_CLKCTRL = 0x28"

definition CM_CLKMODE_DPLL_DDR :: u32 where [c_consts]: "CM_CLKMODE_DPLL_DDR = 0x94"

definition DPLL_LOCK :: u32 where [c_consts]: "DPLL_LOCK = 0x07"

definition CM_CONTROL_EMIT_SDRAM_CONFIG :: u32 where [c_consts]: "CM_CONTROL_EMIT_SDRAM_CONFIG = 0x110"

definition SDRAM_CONFIG :: u32 where [c_consts]: "SDRAM_CONFIG = 0x08"

text \<open>\<^verbatim>\<open>*a = v\<close>, \<^verbatim>\<open>*a |= v\<close> and \<^verbatim>\<open>*a &= v\<close> on a register.\<close>

definition reg_or :: "'d bus \<Rightarrow> u32 \<Rightarrow> u32 \<Rightarrow> 'd \<Rightarrow> 'd" where
  "reg_or B a v d = (let (r, d) = bus_read B a d in bus_write B a (r OR v) d)"

definition reg_and :: "'d bus \<Rightarrow> u32 \<Rightarrow> u32 \<Rightarrow> 'd \<Rightarrow> 'd" where
  "reg_and B a v d = (let (r, d) = bus_read B a d in bus_write B a (r AND v) d)"

fun pokes :: "'d bus \<Rightarrow> (u32 \<times> u32) list \<Rightarrow> 'd \<Rightarrow> 'd" where
  "pokes B [] d = d"
| "pokes B ((a, v) # rest) d = pokes B rest (bus_write B a v d)"

definition configure_ddr_phy :: "'d bus \<Rightarrow> 'd \<Rightarrow> 'd" where
  "configure_ddr_phy B d =
     WAIT_FOR_REG32 B CONTROL_MODULE_BASE 0xE0C 0x20 0x20 TIMEOUT
       (reg_or B (CONTROL_MODULE_BASE + 0xE0C) 0x01 (reg_or B (CONTROL_MODULE_BASE + 0xE0C) 0x40 d))"

definition configure_ddr_phy_cmd_data :: "'d bus \<Rightarrow> 'd \<Rightarrow> 'd" where
  "configure_ddr_phy_cmd_data B d = pokes B
     [(DDR_PHY_CTRL_BASE + 0x1C, 0x80), (DDR_PHY_CTRL_BASE + 0x2C, 0x00),
      (DDR_PHY_CTRL_BASE + 0x50, 0x80), (DDR_PHY_CTRL_BASE + 0x60, 0x00),
      (DDR_PHY_CTRL_BASE + 0x84, 0x80), (DDR_PHY_CTRL_BASE + 0x94, 0x00),
      (DDR_PHY_CTRL_BASE + 0xC8, 0x38), (DDR_PHY_CTRL_BASE + 0xDC, 0x44),
      (DDR_PHY_CTRL_BASE + 0x108, 0x94), (DDR_PHY_CTRL_BASE + 0x120, 0x7D),
      (DDR_PHY_CTRL_BASE + 0x170, 0x38), (DDR_PHY_CTRL_BASE + 0x184, 0x44),
      (DDR_PHY_CTRL_BASE + 0x1B0, 0x94), (DDR_PHY_CTRL_BASE + 0x1C8, 0x7D)] d"

definition configure_ddr_io :: "'d bus \<Rightarrow> 'd \<Rightarrow> 'd option" where
  "configure_ddr_io B d = do {
     d \<leftarrow> log_message B LOG_LEVEL_DEBUG (line ''Configuring DDR IO...'') [] d;
     let d = pokes B [(CONTROL_MODULE_BASE + 0x1404, 0x16B), (CONTROL_MODULE_BASE + 0x1408, 0x16B),
       (CONTROL_MODULE_BASE + 0x140C, 0x16B), (CONTROL_MODULE_BASE + 0x1440, 0x16B),
       (CONTROL_MODULE_BASE + 0x1444, 0x16B)] d;
     let d = reg_and B (CONTROL_MODULE_BASE + 0xE04) 0xEFFFFFFF d;
     let d = reg_or B (CONTROL_MODULE_BASE + 0x131C) 0x1 d;
     let d = bus_write B (SOC_EMIF_0_REGS + 0xE4) 0x06 d;
     let d = reg_or B (SOC_EMIF_0_REGS + 0xE4) 0x00100000 d;
     let d = bus_write B (SOC_EMIF_0_REGS + 0xE8) 0x06 d;
     let d = reg_or B (SOC_EMIF_0_REGS + 0xE8) 0x00100000 d;
     log_message B LOG_LEVEL_DEBUG (line ''DDR IO Configuration Complete!'') [] d
   }"

definition init_ddr3 :: "'d bus \<Rightarrow> 'd \<Rightarrow> 'd option" where
  "init_ddr3 B d = do {
     d \<leftarrow> log_message B LOG_LEVEL_DEBUG (line ''Initializing DDR...'') [] d;
     d \<leftarrow> configure_ddr_io B (configure_ddr_phy_cmd_data B (configure_ddr_phy B d));
     d \<leftarrow> log_message B LOG_LEVEL_DEBUG (line ''PHY Config successfull.'') [] d;
     let d = pokes B [(0x4C000018, 0x0AAAD4DB), (0x4C00001C, 0x0AAAD4DB), (0x4C000020, 0x266B7FDA),
       (0x4C000024, 0x266B7FDA), (0x4C000028, 0x50074BE4), (0x4C00002C, 0x50074BE4),
       (0x4C000010, 0x00000C30), (0x4C000014, 0x00000C30)] d;
     d \<leftarrow> log_message B LOG_LEVEL_DEBUG (line ''SDRAM Config successfull.'') [] d;
     let d = REG32_write B SOC_EMIF_0_REGS SDRAM_CONFIG 0x61C04BB2 d;
     let d = REG32_write B CONTROL_MODULE_BASE CM_CONTROL_EMIT_SDRAM_CONFIG 0x61C00BB2 d;
     log_message B LOG_LEVEL_DEBUG (line ''DDR Initialization Complete.'') [] d
   }"

definition enable_emif_clocks :: "'d bus \<Rightarrow> 'd \<Rightarrow> 'd" where
  "enable_emif_clocks B d =
     (let d = reg_or B (CM_PER_BASE + 0xE0) 0x2 d;
          d = reg_or B (CM_PER_BASE + 0x60) 0x2 d;
          d = reg_or B (CM_PER_BASE + 0x64) 0x2 d;
          d = reg_or B (CM_PER_BASE + 0xDC) 0x2 d;
          d = reg_or B (CM_PER_BASE + 0x120) 0x2 d;
          d = reg_or B (CM_WKUP_BASE + 0xC) 0x2 d;
          d = WAIT_FOR_REG32 B CM_PER_BASE 0xE0 0x3 0x2 TIMEOUT d;
          d = WAIT_FOR_REG32 B CM_PER_BASE 0x60 0x3 0x2 TIMEOUT d;
          d = WAIT_FOR_REG32 B CM_PER_BASE 0x64 0x3 0x2 TIMEOUT d;
          d = WAIT_FOR_REG32 B CM_PER_BASE 0xDC 0x3 0x2 TIMEOUT d;
          d = WAIT_FOR_REG32 B CM_PER_BASE 0x120 0x3 0x2 TIMEOUT d
      in WAIT_FOR_REG32 B CM_WKUP_BASE 0xC 0x3 0x2 TIMEOUT d)"

definition enable_core_pll :: "'d bus \<Rightarrow> 'd \<Rightarrow> 'd" where
  "enable_core_pll B d =
     (let d = REG32_write_masked B CM_WKUP_BASE 0x90 0x7 0x4 d;
          d = WAIT_FOR_REG32 B CM_WKUP_BASE 0x5C 0x100 0x100 TIMEOUT d;
          d = bus_write B (CM_WKUP_BASE + 0x68) (push_bit 8 1000 OR 23) d;
          d = REG32_write_masked B CM_WKUP_BASE 0x80 0x1F 10 d;
          d = REG32_write_masked B CM_WKUP_BASE 0x84 0x1F 8 d;
          d = REG32_write_masked B CM_WKUP_BASE 0xD8 0x1F 4 d;
          d = reg_or B (CM_WKUP_BASE + 0x90) DPLL_LOCK d
      in WAIT_FOR_REG32 B CM_WKUP_BASE 0x5C 0x1 0x1 TIMEOUT d)"

definition enable_ddr_pll :: "'d bus \<Rightarrow> 'd \<Rightarrow> 'd" where
  "enable_ddr_pll B d =
     (let d = REG32_write_masked B CM_WKUP_BASE 0x94 0x7 0x4 d;
          d = WAIT_FOR_REG32 B CM_WKUP_BASE 0x34 0x100 0x100 TIMEOUT d;
          d = REG32_write_masked B CM_WKUP_BASE 0x40 0x0007FF00 (push_bit 8 303) d;
          d = REG32_write_masked B CM_WKUP_BASE 0x40 0x0000007F 23 d;
          d = reg_or B (CM_WKUP_BASE + CM_CLKMODE_DPLL_DDR) DPLL_LOCK d
      in WAIT_FOR_REG32 B CM_WKUP_BASE 0x34 0x1 0x1 TIMEOUT d)"

definition init_emif :: "'d bus \<Rightarrow> 'd \<Rightarrow> 'd" where
  "init_emif B d =
     (let d = REG32_write_masked B CM_PER_BASE CM_PER_EMIF_CLKCTRL 0x3 0x2 d;
          expected = 0x4 OR 0x10
      in WAIT_FOR_REG32 B CM_PER_BASE 0x0C expected expected TIMEOUT d)"

definition setup_memory :: "'d bus \<Rightarrow> 'd \<Rightarrow> 'd option" where
  "setup_memory B d = init_ddr3 B (init_emif B (enable_emif_clocks B (enable_ddr_pll B (enable_core_pll B d))))"

section \<open>The memory test\<close>

definition DDR_START_ADDR :: u32 where [c_consts]: "DDR_START_ADDR = 0x80000000"

definition DDR_SIZE :: u32 where [c_consts]: "DDR_SIZE = 0x100000"

definition test_patterns :: "u32 list" where
  "test_patterns = [0xAAAAAAAA, 0x55555555, 0x00000000, 0xFFFFFFFF]"

text \<open>The inner loop over \<open>n\<close> words from an address on.\<close>

fun test_words :: "'d bus \<Rightarrow> u32 \<Rightarrow> nat \<Rightarrow> u32 \<Rightarrow> u32 \<Rightarrow> 'd \<Rightarrow> u32 \<times> 'd" where
  "test_words B test_pattern 0 mem_addr errors d = (errors, d)"
| "test_words B test_pattern (Suc n) mem_addr errors d =
     (let d = bus_write B mem_addr test_pattern d;
          (read_back, d) = bus_read B mem_addr d;
          errors = (if read_back \<noteq> test_pattern then errors + 1 else errors)
      in test_words B test_pattern n (mem_addr + 4) errors d)"

fun test_all :: "'d bus \<Rightarrow> u32 list \<Rightarrow> u32 \<Rightarrow> 'd \<Rightarrow> u32 \<times> 'd" where
  "test_all B [] errors d = (errors, d)"
| "test_all B (pat # pats) errors d =
     (let (errors, d) = test_words B pat (unat DDR_SIZE div 4) DDR_START_ADDR errors d in test_all B pats errors d)"

definition test_ddr3_memory :: "'d bus \<Rightarrow> 'd \<Rightarrow> (u32 \<times> 'd) option" where
  "test_ddr3_memory B d = do {
     d \<leftarrow> log_message B LOG_LEVEL_DEBUG (line ''DDR3 Memory Test Start'') [] d;
     let (errors, d) = test_all B test_patterns 0 d;
     d \<leftarrow> (if 0 <s errors
           then log_message B LOG_LEVEL_ERROR (line ''Memory Test Failed! Errors: %d '') [VInt errors] d
           else log_message B LOG_LEVEL_INFO (line ''Memory Test Passed!'') [] d);
     Some (errors, d)
   }"

text \<open>The words of the tested range that do not return a pattern just written to them.\<close>

definition bad_words :: "(u32 \<Rightarrow> u32 \<Rightarrow> u32) \<Rightarrow> u32 \<Rightarrow> nat \<Rightarrow> u32 \<Rightarrow> nat" where
  "bad_words cell pat n a = length (filter (\<lambda>i. cell (a + 4 * of_nat i) pat \<noteq> pat) [0..<n])"

definition test_cells :: "'d bus \<Rightarrow> (u32 \<Rightarrow> u32 \<Rightarrow> u32) \<Rightarrow> bool" where
  "test_cells B cell \<longleftrightarrow> (\<forall>a v d. fst (bus_read B a (bus_write B a v d)) = cell a v)"

lemma bad_words_Suc:
  "bad_words cell pat (Suc n) a = of_bool (cell a pat \<noteq> pat) + bad_words cell pat n (a + 4)"
proof -
  have "[0..<Suc n] = 0 # map Suc [0..<n]" by (simp add: upt_conv_Cons map_Suc_upt del: upt_Suc)
  moreover have "filter (\<lambda>i. cell (a + 4 * of_nat i) pat \<noteq> pat) (map Suc xs) =
      map Suc (filter (\<lambda>i. cell ((a + 4) + 4 * of_nat i) pat \<noteq> pat) xs)" for xs
    by (induction xs) (simp_all add: algebra_simps)
  ultimately show ?thesis by (simp add: bad_words_def del: upt_Suc)
qed

lemma test_words_errors:
  assumes "test_cells B cell"
  shows "fst (test_words B pat n a errors d) = errors + of_nat (bad_words cell pat n a)"
proof (induction n arbitrary: a errors d)
  case 0
  then show ?case by (simp add: bad_words_def)
next
  case (Suc n)
  then show ?case
    using assms by (simp add: split_beta Let_def bad_words_Suc test_cells_def)
qed

lemma test_all_errors:
  assumes "test_cells B cell"
  shows "fst (test_all B pats errors d) =
    errors + of_nat (sum_list (map (\<lambda>pat. bad_words cell pat 0x40000 DDR_START_ADDR) pats))"
proof (induction pats arbitrary: errors d)
  case (Cons pat pats)
  have "unat DDR_SIZE div 4 = 0x40000" by (simp add: DDR_SIZE_def)
  then show ?case using Cons test_words_errors[OF assms] by (simp add: split_beta add.assoc)
qed simp

lemma bad_words_le: "bad_words cell pat n a \<le> n"
  using length_filter_le[of _ "[0..<n]"] by (simp add: bad_words_def)

lemma bad_words_0_iff: "bad_words cell pat n a = 0 \<longleftrightarrow> (\<forall>i < n. cell (a + 4 * of_nat i) pat = pat)"
  by (auto simp: bad_words_def filter_empty_conv)

lemma test_errors_bound:
  "sum_list (map (\<lambda>pat. bad_words cell pat 0x40000 a) test_patterns) \<le> 0x100000"
proof -
  have "bad_words cell pat 0x40000 a \<le> 0x40000" for pat by (rule bad_words_le)
  from this[of "0xAAAAAAAA"] this[of "0x55555555"] this[of 0] this[of "0xFFFFFFFF"]
  show ?thesis by (simp add: test_patterns_def)
qed

lemma log_debug: "log_message B LOG_LEVEL_DEBUG fmt ap d = Some d"
  by (simp add: log_message_def c_consts)

lemma log_total:
  assumes "console B S tx" "d \<in> S" "render fmt ap = Some out" "level \<le> LOG_LEVEL"
  shows "\<exists>d'. log_message B level fmt ap d = Some d' \<and> d' \<in> S \<and> tx d' = tx d @ out"
  using vprintf_emits[OF assms(1-3)] assms(4) by (simp add: log_message_def)

lemma test_report_total:
  assumes "console B S tx" "d \<in> S" "errors \<noteq> 0x80000000"
  shows "\<exists>d'. log_message B LOG_LEVEL_ERROR (line ''Memory Test Failed! Errors: %d '') [VInt errors] d = Some d'"
    "\<exists>d'. log_message B LOG_LEVEL_INFO (line ''Memory Test Passed!'') [] d = Some d'"
proof -
  have "\<exists>out. render (line ''Memory Test Failed! Errors: %d '') [VInt errors] = Some out"
    using assms(3) by (simp add: directive_text_def c_consts)
  then show "\<exists>d'. log_message B LOG_LEVEL_ERROR (line ''Memory Test Failed! Errors: %d '') [VInt errors] d = Some d'"
    using log_total[OF assms(1,2), of _ _ _ LOG_LEVEL_ERROR]
    by (metis LOG_LEVEL_ERROR_def LOG_LEVEL_INFO_def LOG_LEVEL_def zero_le_numeral)
  have "render (line ''Memory Test Passed!'') [] = Some (crlf (line ''Memory Test Passed!''))"
    by (rule render_plain) (simp add: NEWLINE_def)
  then show "\<exists>d'. log_message B LOG_LEVEL_INFO (line ''Memory Test Passed!'') [] d = Some d'"
    using log_total[OF assms(1,2), of _ _ _ LOG_LEVEL_INFO] by (metis LOG_LEVEL_def order_refl)
qed

text \<open>The set-up and the test always return, whatever the memory answers.\<close>

lemma setup_memory_returns: "setup_memory B d \<noteq> None"
  unfolding setup_memory_def init_ddr3_def configure_ddr_io_def log_debug by (intro returns)

lemma test_words_bound:
  "unat errors + n < 2 ^ 32 \<Longrightarrow> unat (fst (test_words B pat n a errors d)) \<le> unat errors + n"
proof (induction n arbitrary: a errors d)
  case (Suc n)
  let ?d = "bus_write B a pat d"
  let ?e = "if fst (bus_read B a ?d) \<noteq> pat then errors + 1 else errors"
  have e: "unat ?e \<le> Suc (unat errors)" using Suc.prems by (simp add: unat_word_ariths)
  then have "unat ?e + n < 2 ^ 32" using Suc.prems by linarith
  from Suc.IH[OF this, of "a + 4" "snd (bus_read B a ?d)"] show ?case using e by (simp add: split_beta Let_def)
qed simp

lemma test_all_bound:
  assumes "unat errors + length pats * 0x40000 < 2 ^ 32"
  shows "unat (fst (test_all B pats errors d)) \<le> unat errors + length pats * 0x40000"
  using assms
proof (induction pats arbitrary: errors d)
  case (Cons pat pats)
  have n: "unat DDR_SIZE div 4 = 0x40000" by (simp add: DDR_SIZE_def)
  define r where "r = test_words B pat 0x40000 DDR_START_ADDR errors d"
  have r: "unat (fst r) \<le> unat errors + 0x40000" using test_words_bound[of errors "0x40000"] Cons.prems unfolding r_def by simp
  then have "unat (fst r) + length pats * 0x40000 < 2 ^ 32" using Cons.prems by simp
  from Cons.IH[OF this, of "snd r"] show ?case using r by (simp add: n r_def[symmetric] split_beta)
qed simp

lemma test_ddr3_memory_returns:
  assumes "console B UNIV tx"
  shows "test_ddr3_memory B d \<noteq> None"
proof -
  define r where "r = test_all B test_patterns 0 d"
  have "unat (fst r) \<le> 0x100000" using test_all_bound[of 0 test_patterns B d] by (simp add: r_def test_patterns_def)
  then have "fst r \<noteq> 0x80000000" by auto
  then have "log_message B LOG_LEVEL_ERROR (line ''Memory Test Failed! Errors: %d '') [VInt (fst r)] (snd r) \<noteq> None"
    "log_message B LOG_LEVEL_INFO (line ''Memory Test Passed!'') [] (snd r) \<noteq> None"
    using test_report_total[OF assms UNIV_I, of "fst r" "snd r"] by (metis option.distinct(1))+
  then show ?thesis
    unfolding test_ddr3_memory_def log_debug Option.bind.bind_lunit r_def[symmetric] Let_def split_beta
    by (intro returns)
qed

text \<open>
  The memory test: when each word answers a read right after a write by a function of its address
  and of the value written, \<^verbatim>\<open>test_ddr3_memory\<close> returns, and its result is the exact number of failed
  comparisons, without overflow; it is 0 exactly when every word of the tested megabyte keeps all four
  patterns, and a word with a bit stuck at 0 or at 1 is always found.
\<close>

theorem memory_test_result:
  assumes "console B S tx" "test_cells B cell" "snd (test_all B test_patterns 0 d) \<in> S"
  shows "\<exists>errors d'. test_ddr3_memory B d = Some (errors, d') \<and>
    unat errors = sum_list (map (\<lambda>pat. bad_words cell pat 0x40000 DDR_START_ADDR) test_patterns) \<and>
    (errors = 0 \<longleftrightarrow> (\<forall>pat \<in> set test_patterns. \<forall>i < 0x40000. cell (DDR_START_ADDR + 4 * of_nat i) pat = pat)) \<and>
    (\<forall>i < 0x40000. \<forall>n < 32. (\<forall>v w. bit (cell (DDR_START_ADDR + 4 * of_nat i) v) n = bit (cell (DDR_START_ADDR + 4 * of_nat i) w) n) \<longrightarrow>
       errors \<noteq> 0)"
proof -
  define total where "total = sum_list (map (\<lambda>pat. bad_words cell pat 0x40000 DDR_START_ADDR) test_patterns)"
  define errors where "errors = fst (test_all B test_patterns 0 d)"
  have bound: "total \<le> 0x100000" using test_errors_bound by (simp add: total_def)
  have errors: "errors = of_nat total"
    using test_all_errors[OF assms(2), of test_patterns 0 d] by (simp add: errors_def total_def)
  then have n: "unat errors = total" using bound by (simp add: unat_u32_of_nat)
  have zero: "errors = 0 \<longleftrightarrow> total = 0" using n by (metis unat_0 unat_eq_zero)
  have total0: "total = 0 \<longleftrightarrow> (\<forall>pat \<in> set test_patterns. \<forall>i < 0x40000. cell (DDR_START_ADDR + 4 * of_nat i) pat = pat)"
    by (simp add: total_def bad_words_0_iff)
  have stuck: "errors \<noteq> 0"
    if "i < 0x40000" "n < 32"
      "\<forall>v w. bit (cell (DDR_START_ADDR + 4 * of_nat i) v) n = bit (cell (DDR_START_ADDR + 4 * of_nat i) w) n" for i n
  proof
    assume "errors = 0"
    then have "\<forall>pat \<in> set test_patterns. cell (DDR_START_ADDR + 4 * of_nat i) pat = pat"
      using zero total0 that(1) by blast
    then have "cell (DDR_START_ADDR + 4 * of_nat i) 0 = 0" "cell (DDR_START_ADDR + 4 * of_nat i) 0xFFFFFFFF = 0xFFFFFFFF"
      by (simp_all add: test_patterns_def)
    then have "bit (0::u32) n = bit (0xFFFFFFFF::u32) n" using that(3) by metis
    moreover have "(0xFFFFFFFF::u32) = - 1" by simp
    then have "bit (0xFFFFFFFF::u32) n" using that(2) by (simp only: bit_minus_1_iff) simp
    ultimately show False by simp
  qed
  have "errors \<noteq> 0x80000000" using n bound by (auto simp: word_unat_eq_iff)
  then have "\<exists>d'. test_ddr3_memory B d = Some (errors, d')"
    using test_report_total[OF assms(1,3), of errors]
    by (auto simp: test_ddr3_memory_def log_debug errors_def split_beta)
  then obtain d' where d': "test_ddr3_memory B d = Some (errors, d')" by blast
  have all_stuck: "\<forall>i < 0x40000. \<forall>n < 32. (\<forall>v w. bit (cell (DDR_START_ADDR + 4 * of_nat i) v) n =
      bit (cell (DDR_START_ADDR + 4 * of_nat i) w) n) \<longrightarrow> errors \<noteq> 0"
    using stuck by blast
  show ?thesis
    by (intro exI[of _ errors] exI[of _ d'] conjI d' n[unfolded total_def] zero[unfolded total0] all_stuck)
qed

text \<open>A memory with one word whose lowest bit is stuck at zero, beside an idle serial line.\<close>

definition ex_ram :: "((u32 \<Rightarrow> u32) \<times> u8 list) bus" where
  "ex_ram = \<lparr>
     bus_read = (\<lambda>a (m, t). (if a = UART0_BASE + UART_LSR_UART_OFF then 0x20
                            else if a = 0x80000004 then m a AND NOT 1 else m a, (m, t))),
     bus_write = (\<lambda>a v (m, t). (m(a := v), if a = UART0_BASE + UART_THR_OFF then t @ [ucast v] else t))\<rparr>"

definition ex_cell :: "u32 \<Rightarrow> u32 \<Rightarrow> u32" where
  "ex_cell a v = (if a = UART0_BASE + UART_LSR_UART_OFF then 0x20 else if a = 0x80000004 then v AND NOT 1 else v)"

lemma ex_ram_ok: "console ex_ram UNIV snd" "test_cells ex_ram ex_cell"
proof -
  have "responds ex_ram (\<lambda>v. v AND 0x20 = 0) (UART0_BASE + UART_LSR_UART_OFF) d" for d
    by (intro responds_0) (simp add: ex_ram_def split_beta)
  then show "console ex_ram UNIV snd" by (simp add: console_def) (simp add: ex_ram_def split_beta)
  show "test_cells ex_ram ex_cell" by (auto simp: test_cells_def ex_ram_def ex_cell_def split_beta)
qed

theorem memory_test_result_witness:
  "\<exists>errors d'. test_ddr3_memory ex_ram (\<lambda>_. 0, []) = Some (errors, d') \<and> errors \<noteq> 0"
proof -
  have "bit (ex_cell (DDR_START_ADDR + 4 * of_nat 1) v) 0 = bit (ex_cell (DDR_START_ADDR + 4 * of_nat 1) w) 0" for v w
    by (simp add: ex_cell_def c_consts bit_simps)
  moreover have "(1::nat) < 0x40000" "(0::nat) < 32" by simp_all
  ultimately show ?thesis
    using memory_test_result[OF ex_ram_ok UNIV_I, of "(\<lambda>_. 0, [])"] by metis
qed

end
