(* ===== verification/Kernel.thy ===== *)
theory Kernel
  imports Scheduler Frame_Allocator Timer
begin

text \<open>
  The kernel as a whole: \<^verbatim>\<open>kmain\<close> of \<^verbatim>\<open>os/main.c\<close>, the tasks of \<^verbatim>\<open>os/scheduler/scheduler.c\<close> with
  \<^verbatim>\<open>yield\<close>, the two entries of \<^verbatim>\<open>os/interrupts/interrupt_handlers.S\<close> that end in the scheduler, and the
  tick helpers of \<^verbatim>\<open>boot/bootloader.c\<close>.

  The state puts the parts together: devices, interrupt table, receive buffers, motors and timer
  callbacks from the drivers, the frame allocator, the scheduler and the three heartbeat counters.
  \<open>motor_line\<close> is the line buffer on the stack of the motor task. The counting loops of the tasks change
  only a local variable and are left out. A task is described by its opening lines and by one round of
  its loop, from the heartbeat to the selection of the next process by \<^verbatim>\<open>yield\<close>; where the processor
  resumes the process that was selected is the matter of \<open>Context_Switch\<close> and \<open>Dispatch\<close>.

  What the properties need of the hardware is \<open>kernel_devices\<close>: every poll of the start-up code is
  answered in the end. The log \<open>tx\<close> is the list of words stored at the transmit address.
\<close>

section \<open>State\<close>

datatype tick_func = Scheduler_tick

record 'd kernel = "('d, tick_func) timer_io" +
  frame_pool :: frame_allocator
  sched :: scheduler_t
  idle_proc_heartbeat :: u32
  p1_heartbeat :: u32
  p2_heartbeat :: u32
  motor_line :: "u8 list"

text \<open>The callback the kernel gives to timer 2; its counter is part of the scheduler state.\<close>

definition run_tick :: "'d bus \<Rightarrow> tick_func \<Rightarrow> 'd kernel \<Rightarrow> 'd kernel option" where
  "run_tick B f s = (case f of Scheduler_tick \<Rightarrow> do {
     s \<leftarrow> run_dev (uart_printf B (line ''TICK: %u'') [VInt (timer_tick (sched s))]) s;
     Some (s\<lparr>sched := scheduler_tick (sched s)\<rparr>)
   })"

section \<open>Entering the scheduler\<close>

text \<open>
  Both entries save the context of the current process and end in \<^verbatim>\<open>scheduler_run\<close>. The processor
  registers at the trap are the argument \<open>c\<close>. A trap while \<^verbatim>\<open>current_process\<close> is NULL stores through
  that pointer and has no defined result.
\<close>

definition save_current :: "cpu \<Rightarrow> 'd kernel \<Rightarrow> 'd kernel option" where
  "save_current c s =
     (case current_process (sched s) of
        None \<Rightarrow> None
      | Some i \<Rightarrow> Some (s\<lparr>sched := update_process i (\<lambda>p. snd (execute save_context_asm (c, p))) (sched s)\<rparr>))"

definition schedule :: "'d kernel \<Rightarrow> 'd kernel option" where
  "schedule s = do { sc \<leftarrow> scheduler_run (sched s); Some (s\<lparr>sched := sc\<rparr>) }"

definition irq_entry :: "'d bus \<Rightarrow> cpu \<Rightarrow> 'd kernel \<Rightarrow> 'd kernel option" where
  "irq_entry B c s = do {
     s \<leftarrow> save_current c s;
     s \<leftarrow> irq_dispatch (run_tick B) B s;
     schedule s
   }"

definition svc_entry :: "cpu \<Rightarrow> 'd kernel \<Rightarrow> 'd kernel option" where
  "svc_entry c s = do { s \<leftarrow> save_current c s; schedule s }"

definition yield :: "'d bus \<Rightarrow> cpu \<Rightarrow> 'd kernel \<Rightarrow> 'd kernel option" where
  "yield B c s = do { s \<leftarrow> run_dev (uart_puts B (line ''Yielding...'')) s; svc_entry c s }"

section \<open>The tasks\<close>

text \<open>Each task is its opening lines, run once, and a loop whose round ends in a yield.\<close>

definition idle_round :: "'d bus \<Rightarrow> cpu \<Rightarrow> 'd kernel \<Rightarrow> 'd kernel option" where
  "idle_round B c s = do {
     s \<leftarrow> run_dev (uart_printf B (line ''Idle task heartbeat: %d'') [VInt (idle_proc_heartbeat s)]) s;
     yield B c (s\<lparr>idle_proc_heartbeat := idle_proc_heartbeat s + 1\<rparr>)
   }"

definition P1_round :: "'d bus \<Rightarrow> cpu \<Rightarrow> 'd kernel \<Rightarrow> 'd kernel option" where
  "P1_round B c s = do {
     s \<leftarrow> run_dev (uart_printf B (line ''P1: heartbeat: %d'') [VInt (p1_heartbeat s)]) s;
     yield B c (s\<lparr>p1_heartbeat := p1_heartbeat s + 1\<rparr>)
   }"

definition P2_round :: "'d bus \<Rightarrow> cpu \<Rightarrow> 'd kernel \<Rightarrow> 'd kernel option" where
  "P2_round B c s = do {
     s \<leftarrow> run_dev (uart_printf B (line ''P2: heartbeat: %d'') [VInt (p2_heartbeat s)]) s;
     yield B c (s\<lparr>p2_heartbeat := p2_heartbeat s + 1\<rparr>)
   }"

definition motor_round :: "'d bus \<Rightarrow> cpu \<Rightarrow> 'd kernel \<Rightarrow> 'd kernel option" where
  "motor_round B c s = do {
     (buf, s) \<leftarrow> motor_task_step B (motor_line s) s;
     s \<leftarrow> run_dev (uart_printf B (line ''Motor task: yielding...'') []) s;
     yield B c (s\<lparr>motor_line := buf\<rparr>)
   }"

definition task_opening :: "'d bus \<Rightarrow> nat \<Rightarrow> 'd kernel \<Rightarrow> 'd kernel option" where
  "task_opening B i s =
     (if i = 0 then run_dev (uart_printf B (line ''Idle task running...'') []) s
      else if i = 1 then run_dev (uart_printf B (line ''P1 running...'') []) s
      else if i = 2 then run_dev (uart_printf B (line ''P2 running...'') []) s
      else motor_task_start B s)"

definition task_round :: "'d bus \<Rightarrow> nat \<Rightarrow> cpu \<Rightarrow> 'd kernel \<Rightarrow> 'd kernel option" where
  "task_round B i =
     (if i = 0 then idle_round B else if i = 1 then P1_round B else if i = 2 then P2_round B else motor_round B)"

section \<open>Start-up\<close>

text \<open>
  \<^verbatim>\<open>scheduler_init\<close> with its messages and its timer. Messages touch only the devices and the process
  table is touched by nothing else, so the table is set up first and the messages follow in their order.
\<close>

fun creation_messages :: "'d bus \<Rightarrow> (string \<times> string) list \<Rightarrow> 'd \<Rightarrow> 'd option" where
  "creation_messages B [] d = Some d"
| "creation_messages B ((kind, name) # rest) d = do {
     d \<leftarrow> uart_puts B (line (''Creating '' @ kind @ '' process...'')) d;
     d \<leftarrow> uart_printf B (line ''Created process: %s'') [VStr (cstr name)] d;
     creation_messages B rest d
   }"

definition start_scheduler :: "'d bus \<Rightarrow> links \<Rightarrow> 'd kernel \<Rightarrow> 'd kernel option" where
  "start_scheduler B l s = do {
     s \<leftarrow> run_dev (check_mode B (kernel_io.cpsr s)) s;
     sc \<leftarrow> scheduler_init l (sched s);
     s \<leftarrow> run_dev (creation_messages B [(''idle'', ''Idle Process''), (''P1'', ''P1''), (''P2'', ''P2''),
            (''motor'', ''Motor Process'')]) (s\<lparr>sched := sc\<rparr>);
     (_, s) \<leftarrow> timer_init B 2 100 (Some Scheduler_tick) s;
     s \<leftarrow> run_dev (uart_puts B (line ''Timer started'')) s;
     run_dev (uart_puts B (line ''Scheduler Initialized'')) s
   }"

text \<open>\<^verbatim>\<open>kmain\<close>: memory, interrupts and the two ports, then the scheduler.\<close>

definition kernel_bring_up :: "'d bus \<Rightarrow> asm_entries \<Rightarrow> bootloader_header_t \<Rightarrow> 'd kernel \<Rightarrow> 'd kernel option" where
  "kernel_bring_up B e boot_header s = do {
     s \<leftarrow> run_dev (check_mode B (kernel_io.cpsr s)) s;
     s \<leftarrow> run_dev (uart_printf B (line ''Hello from kernel! We used %d sections for kernel'')
            [VInt (mapped_sections boot_header)]) s;
     let s = s\<lparr>frame_pool := init_frame_allocator boot_header (frame_pool s)\<rparr>;
     s \<leftarrow> run_dev (uart_printf B (line ''Frame allocator initialized'') []) s;
     s \<leftarrow> system_interrupt_init B e s;
     s \<leftarrow> uart_init B 0 115200 1 0 0 0 8 s;
     s \<leftarrow> run_dev (log_message B LOG_LEVEL_INFO (line ''kernel interrupts OK'') []) s;
     s \<leftarrow> run_dev (uart_printf B (line ''UART1 init'') []) s;
     uart_init B 1 115200 1 0 0 0 8 s
   }"

definition kmain :: "'d bus \<Rightarrow> asm_entries \<Rightarrow> links \<Rightarrow> bootloader_header_t \<Rightarrow> 'd kernel \<Rightarrow> 'd kernel option" where
  "kmain B e l boot_header s = do {
     s \<leftarrow> kernel_bring_up B e boot_header s;
     s \<leftarrow> run_dev (check_mode B (kernel_io.cpsr s)) s;
     s \<leftarrow> start_scheduler B l s;
     s \<leftarrow> run_dev (check_mode B (kernel_io.cpsr s)) s;
     schedule s
   }"

section \<open>Ticks of the boot loader\<close>

text \<open>The callback \<^verbatim>\<open>timer_tick\<close> of the boot loader, on its two static variables, and the wait for it.\<close>

definition LED0 :: u32 where [c_consts]: "LED0 = push_bit 21 1"

record ticks =
  tick_led_on :: bool
  tick_secs :: u32

definition boot_tick :: "'d bus \<Rightarrow> ticks \<Rightarrow> 'd \<Rightarrow> (ticks \<times> 'd) option" where
  "boot_tick B t d = do {
     let d = (if tick_led_on t then GPIO_clear B GPIO1_BASE LED0 d else GPIO_set B GPIO1_BASE LED0 d);
     let t = t\<lparr>tick_led_on := \<not> tick_led_on t, tick_secs := tick_secs t + 1\<rparr>;
     d \<leftarrow> uart_printf B (line ''Tick: %u'') [VInt (tick_secs t)] d;
     Some (t, d)
   }"

text \<open>\<open>secs k\<close> is the value of \<^verbatim>\<open>tick_secs\<close> that round \<open>k\<close> of the loop reads; the result is the last round.\<close>

partial_function (option) delay_loop :: "(nat \<Rightarrow> u32) \<Rightarrow> u32 \<Rightarrow> nat \<Rightarrow> nat option" where
  [code]: "delay_loop secs limit k = (if secs k < limit then delay_loop secs limit (k + 1) else Some k)"

definition delay :: "(nat \<Rightarrow> u32) \<Rightarrow> u32 \<Rightarrow> nat option" where
  "delay secs n = delay_loop secs (secs 0 + n) 1"

section \<open>Start-up completes\<close>

definition kernel_devices :: "'d bus \<Rightarrow> bool" where
  "kernel_devices B \<longleftrightarrow> intc_ready B \<and> timer_ready B 2 \<and>
     (\<forall>d. responds B clock_idle (CM_WKUP_BASE + CM_WKUP_UART0_CLKCTRL) d \<and>
          responds B clock_idle (CM_WKUP_BASE + CM_WKUP_L4WKUP_CLKCTRL) d \<and>
          responds B clock_idle (CM_PER_BASE + CM_PER_UART1_CLKCTRL) d \<and>
          responds B (\<lambda>v. v AND 0x1 = 0) (UART0_BASE + UART_SYSS_OFF) d \<and>
          responds B (\<lambda>v. v AND 0x1 = 0) (UART1_BASE + UART_SYSS_OFF) d)"

text \<open>The static variables as the boot loader leaves them: arrays of their sizes, zeroed counters.\<close>

definition kernel_boot :: "'d kernel \<Rightarrow> bool" where
  "kernel_boot s \<longleftrightarrow> table_ok s \<and> length (timer_tick_funcs s) = 8 \<and> frame_pool s = frames_initial \<and>
     boot_ok (sched s) \<and> current_process (sched s) = None \<and>
     ccb_array_ok (uart0_rx_buffer s) \<and> ccb_array_ok (uart1_rx_buffer s) \<and>
     p1_heartbeat s = 0 \<and> p2_heartbeat s = 0 \<and> length (motor_line s) = 10"

text \<open>Every step of the start-up code, as facts about not failing and about what it changes.\<close>

lemma run_dev_Some: "run_dev f s = Some s' \<longleftrightarrow> (\<exists>d. f (dev s) = Some d \<and> s' = s\<lparr>dev := d\<rparr>)"
  by (auto simp: run_dev_def bind_eq_Some_conv')

lemma spin_answers: "\<forall>d. responds B P (base + offset) d \<Longrightarrow> \<exists>d'. spin_while B P base offset d = Some d'"
  using spin_while_total[of B P base offset d "\<lambda>_. True"] by auto

lemma puts_answers: "console B UNIV tx \<Longrightarrow> \<exists>d'. uart_puts B m d = Some d'"
  using uart_puts_emits[of B UNIV tx m] by (auto simp: emits_def)

lemma printf_answers: "console B UNIV tx \<Longrightarrow> render fmt ap \<noteq> None \<Longrightarrow> \<exists>d'. uart_printf B fmt ap d = Some d'"
  using vprintf_emits[of B UNIV tx d fmt ap] by (auto simp: uart_printf_def)

lemma log_answers: "console B UNIV tx \<Longrightarrow> render fmt ap \<noteq> None \<Longrightarrow> \<exists>d'. log_message B level fmt ap d = Some d'"
  using vprintf_emits[of B UNIV tx d fmt ap] by (auto simp: log_message_def)

lemma check_mode_answers: "console B UNIV tx \<Longrightarrow> \<exists>d'. check_mode B v d = Some d'"
proof -
  assume c: "console B UNIV tx"
  have "render (cstr ''CPSR: 0x%x (Mode bits: 0x%x) '' @ [0xE2, 0x80, 0x94, 0x20]) [VInt v, VInt (v AND 0x1F)] \<noteq> None"
    by (simp add: directive_text_def c_consts)
  then obtain d' where "uart_printf B (cstr ''CPSR: 0x%x (Mode bits: 0x%x) '' @ [0xE2, 0x80, 0x94, 0x20])
      [VInt v, VInt (v AND 0x1F)] d = Some d'"
    using printf_answers[OF c] by blast
  then show ?thesis using puts_answers[OF c] by (simp add: check_mode_def)
qed

lemma creation_answers: "console B UNIV tx \<Longrightarrow> \<exists>d'. creation_messages B ps d = Some d'"
proof (induction ps arbitrary: d)
  case (Cons p ps)
  obtain kind name where p: "p = (kind, name)" by (cases p)
  obtain d1 where d1: "uart_puts B (line (''Creating '' @ kind @ '' process...'')) d = Some d1"
    using puts_answers[OF Cons.prems] by blast
  have "render (line ''Created process: %s'') [VStr (cstr name)] \<noteq> None" by (simp add: directive_text_def c_consts)
  then obtain d2 where "uart_printf B (line ''Created process: %s'') [VStr (cstr name)] d1 = Some d2"
    using printf_answers[OF Cons.prems] by blast
  then show ?case using d1 Cons.IH[OF Cons.prems] by (simp add: p)
qed simp

lemma port_init_answers:
  assumes "\<forall>d. responds B (\<lambda>v. v AND 0x1 = 0) (base + UART_SYSS_OFF) d"
  shows "\<exists>d'. uart_port_init B base baud se sb pe pt cl d = Some d'"
proof -
  obtain d1 where "spin_while B (\<lambda>v. v AND 0x1 = 0) base UART_SYSS_OFF
      (REG32_write_masked B base UART_SYSC_OFF 0x2 0x2 d) = Some d1"
    using spin_answers[OF assms] by blast
  then show ?thesis by (simp add: uart_port_init_def)
qed

lemma uart_interrupt_init_state:
  "\<exists>d. uart0_interrupt_init B s = s\<lparr>intc_vector_table := (intc_vector_table s)[72 := Uart0_handler], dev := d\<rparr>"
  "\<exists>d. uart1_interrupt_init B s = s\<lparr>intc_vector_table := (intc_vector_table s)[73 := Uart1_handler], dev := d\<rparr>"
  by (auto simp: uart0_interrupt_init_def uart1_interrupt_init_def INTC_enable_irq_def INTC_set_priority_def
      INTC_register_irq_def on_dev_def UART0_INT_NUM_def UART1_INT_NUM_def NUM_INTERRUPTS_def)

lemma uart_init0_state:
  assumes "kernel_devices B"
  shows "\<exists>d. uart_init B 0 baud se sb pe pt cl s =
    Some (s\<lparr>intc_vector_table := (intc_vector_table s)[72 := Uart0_handler], dev := d,
            uart0_rx_buffer := circular_char_buffer_init (uart0_rx_buffer s)\<rparr>)"
proof -
  have r: "\<forall>d. responds B clock_idle (CM_WKUP_BASE + CM_WKUP_UART0_CLKCTRL) d"
    "\<forall>d. responds B clock_idle (CM_WKUP_BASE + CM_WKUP_L4WKUP_CLKCTRL) d"
    "\<forall>d. responds B (\<lambda>v. v AND 0x1 = 0) (UART0_BASE + UART_SYSS_OFF) d"
    using assms by (simp_all add: kernel_devices_def)
  obtain d1 where d1: "spin_while B clock_idle CM_WKUP_BASE CM_WKUP_UART0_CLKCTRL
      (REG32_write_masked B CM_WKUP_BASE CM_WKUP_UART0_CLKCTRL 0x3 0x2 (dev s)) = Some d1"
    using spin_answers[OF r(1)] by blast
  obtain d2 where d2: "spin_while B clock_idle CM_WKUP_BASE CM_WKUP_L4WKUP_CLKCTRL
      (REG32_write_masked B CM_WKUP_BASE CM_WKUP_L4WKUP_CLKCTRL 0x3 0x2 d1) = Some d2"
    using spin_answers[OF r(2)] by blast
  obtain d3 where "uart_port_init B UART0_BASE baud se sb pe pt cl
      (REG32_write B CONTROL_MODULE_BASE CONTROL_MODULE_UART0_TXD_OFF 0x10
        (REG32_write B CONTROL_MODULE_BASE CONTROL_MODULE_UART0_RXD_OFF 0x30 d2)) = Some d3"
    using port_init_answers[OF r(3)] by blast
  then show ?thesis
    using d1 d2 uart_interrupt_init_state(1)[of B "s\<lparr>dev := d3\<rparr>"] by (auto simp: uart_init_def run_dev_def)
qed

lemma uart_init1_state:
  assumes "kernel_devices B"
  shows "\<exists>d. uart_init B 1 baud se sb pe pt cl s =
    Some (s\<lparr>intc_vector_table := (intc_vector_table s)[73 := Uart1_handler], dev := d,
            uart1_rx_buffer := circular_char_buffer_init (uart1_rx_buffer s)\<rparr>)"
proof -
  have r: "\<forall>d. responds B clock_idle (CM_PER_BASE + CM_PER_UART1_CLKCTRL) d"
    "\<forall>d. responds B clock_idle (CM_WKUP_BASE + CM_WKUP_L4WKUP_CLKCTRL) d"
    "\<forall>d. responds B (\<lambda>v. v AND 0x1 = 0) (UART1_BASE + UART_SYSS_OFF) d"
    using assms by (simp_all add: kernel_devices_def)
  obtain d1 where d1: "spin_while B clock_idle CM_PER_BASE CM_PER_UART1_CLKCTRL
      (REG32_write_masked B CM_PER_BASE CM_PER_UART1_CLKCTRL 0x3 0x2 (dev s)) = Some d1"
    using spin_answers[OF r(1)] by blast
  obtain d2 where d2: "spin_while B clock_idle CM_WKUP_BASE CM_WKUP_L4WKUP_CLKCTRL d1 = Some d2"
    using spin_answers[OF r(2)] by blast
  obtain d3 where "uart_port_init B UART1_BASE baud se sb pe pt cl
      (REG32_write B CONTROL_MODULE_BASE CONTROL_MODULE_UART1_TXD_OFF 0x10
        (REG32_write B CONTROL_MODULE_BASE CONTROL_MODULE_UART1_RXD_OFF 0x30 d2)) = Some d3"
    using port_init_answers[OF r(3)] by blast
  then show ?thesis
    using d1 d2 uart_interrupt_init_state(2)[of B "s\<lparr>dev := d3\<rparr>"] by (auto simp: uart_init_def run_dev_def)
qed

lemma timer_setup_answers:
  assumes "timer_ready B i"
  shows "\<exists>d'. timer_setup B i ms d = Some d'"
proof -
  have r: "\<forall>d. responds B (\<lambda>v. v AND 0x3 \<noteq> 0x2) (CM_DPLL_BASE + timer_pll_clksel_off ! i) d"
    "\<forall>d. responds B (\<lambda>v. (v AND 0x1) AND 0x1 \<noteq> 0) (timer_base ! i + TIOCP_CFG_OFF) d"
    "\<forall>d. responds B (\<lambda>v. (v AND 0x1F) AND 0x1F \<noteq> 0) (timer_base ! i + TWPS_OFF) d"
    using assms by (simp_all add: timer_ready_def)
  have "spin_while B (\<lambda>v. v AND 0x3 \<noteq> 0x2) CM_DPLL_BASE (timer_pll_clksel_off ! i) d \<noteq> None"
    "spin_while B (\<lambda>v. (v AND 0x1) AND 0x1 \<noteq> 0) (timer_base ! i) TIOCP_CFG_OFF d \<noteq> None"
    "timer_wait B i d \<noteq> None" for d
    using spin_answers[OF r(1), of d] spin_answers[OF r(2), of d] spin_answers[OF r(3), of d]
    by (auto simp: timer_wait_def)
  then have "timer_setup B i ms d \<noteq> None"
    by (simp add: timer_setup_def no_clock_wait Option.bind_eq_None_conv del: not_None_eq)
  then show ?thesis by blast
qed

lemma run_answers:
  assumes "console B UNIV tx"
  shows "\<exists>d. run_dev (check_mode B v) s = Some (s\<lparr>dev := d\<rparr>)"
    and "\<exists>d. run_dev (uart_puts B m) s = Some (s\<lparr>dev := d\<rparr>)"
    and "\<exists>d. run_dev (creation_messages B ps) s = Some (s\<lparr>dev := d\<rparr>)"
    and "render fmt ap \<noteq> None \<Longrightarrow> \<exists>d. run_dev (uart_printf B fmt ap) s = Some (s\<lparr>dev := d\<rparr>)"
    and "render fmt ap \<noteq> None \<Longrightarrow> \<exists>d. run_dev (log_message B level fmt ap) s = Some (s\<lparr>dev := d\<rparr>)"
  using check_mode_answers[OF assms, of v "dev s"] puts_answers[OF assms, of m "dev s"]
    creation_answers[OF assms, of ps "dev s"] printf_answers[OF assms, of fmt ap "dev s"]
    log_answers[OF assms, of fmt ap level "dev s"]
  by (auto simp: run_dev_def)

lemma start_scheduler_state:
  assumes c: "console B UNIV tx" and "kernel_devices B" "boot_ok (sched s)"
  shows "\<exists>d sc. start_scheduler B l s = Some (s\<lparr>sched := sc,
        timer_tick_funcs := (timer_tick_funcs s)[2 := Some Scheduler_tick],
        intc_vector_table := (intc_vector_table s)[68 := Timer_handler 2], dev := d\<rparr>) \<and>
      after_init l sc \<and> current_process sc = current_process (sched s)"
proof -
  have tr: "timer_ready B 2" using assms(2) by (simp add: kernel_devices_def)
  obtain sc where sc: "scheduler_init l (sched s) = Some sc" "after_init l sc"
    "current_process sc = current_process (sched s)" using scheduler_init_ok[OF assms(3), of l] by blast
  obtain d1 where d1: "run_dev (check_mode B (kernel_io.cpsr s)) s = Some (s\<lparr>dev := d1\<rparr>)"
    using run_answers(1)[OF c] by blast
  let ?s1 = "s\<lparr>dev := d1\<rparr>"
  obtain d2 where d2: "run_dev (creation_messages B [(''idle'', ''Idle Process''), (''P1'', ''P1''), (''P2'', ''P2''),
      (''motor'', ''Motor Process'')]) (?s1\<lparr>sched := sc\<rparr>) = Some (?s1\<lparr>sched := sc, dev := d2\<rparr>)"
    using run_answers(3)[OF c] by blast
  obtain d3 where d3: "timer_setup B 2 100 d2 = Some d3" using timer_setup_answers[OF tr, of 100 d2] by blast
  let ?s3 = "s\<lparr>sched := sc, timer_tick_funcs := (timer_tick_funcs s)[2 := Some Scheduler_tick],
    intc_vector_table := (intc_vector_table s)[68 := Timer_handler 2]\<rparr>"
  have ti: "timer_init B 2 100 (Some Scheduler_tick) (?s1\<lparr>sched := sc, dev := d2\<rparr>) = Some (True, ?s3\<lparr>dev := d3\<rparr>)"
    using d3 by (simp add: timer_init_def timer_index_ok_def run_dev_def timer_irq_num_def timer_irq_handlers_def
        INTC_register_irq_def NUM_INTERRUPTS_def)
  obtain d4 where d4: "run_dev (uart_puts B (line ''Timer started'')) (?s3\<lparr>dev := d3\<rparr>) = Some (?s3\<lparr>dev := d3, dev := d4\<rparr>)"
    using run_answers(2)[OF c] by blast
  obtain d5 where d5: "run_dev (uart_puts B (line ''Scheduler Initialized'')) (?s3\<lparr>dev := d3, dev := d4\<rparr>) =
      Some (?s3\<lparr>dev := d3, dev := d4, dev := d5\<rparr>)"
    using run_answers(2)[OF c] by blast
  have sd: "sched ?s1 = sched s" by simp
  have "start_scheduler B l s = Some (?s3\<lparr>dev := d3, dev := d4, dev := d5\<rparr>)"
    by (simp only: start_scheduler_def d1 sd d2 sc(1) ti d4 d5 Option.bind.bind_lunit prod.case)
  then have "start_scheduler B l s = Some (?s3\<lparr>dev := d5\<rparr>)" by simp
  then show ?thesis using sc(2,3) by blast
qed

lemma schedule_inv:
  assumes "sched_inv (sched s)"
  shows "\<exists>sc. schedule s = Some (s\<lparr>sched := sc\<rparr>) \<and> sched_inv sc \<and> sched_abs sc = rr_next 0 (sched_abs (sched s)) \<and>
    (\<forall>j < length (processes (sched s)). \<forall>k. get_word k (processes sc ! j) = get_word k (processes (sched s) ! j))"
proof -
  have "sched_ok 0 (sched s)" using assms by (simp add: sched_inv_def)
  then obtain sc where "scheduler_run (sched s) = Some sc" "sched_abs sc = rr_next 0 (sched_abs (sched s))"
    using scheduler_run_refines by blast
  then show ?thesis using sched_inv_run[OF assms] scheduler_run_word(1) by (auto simp: schedule_def)
qed

text \<open>The state after the bring-up, but for the devices.\<close>

definition brought_up :: "asm_entries \<Rightarrow> bootloader_header_t \<Rightarrow> 'd kernel \<Rightarrow> 'd kernel" where
  "brought_up e h s = (CPU_irq_enable (setup_vector_table e (s\<lparr>frame_pool := init_frame_allocator h (frame_pool s)\<rparr>)))\<lparr>
     uart0_rx_buffer := circular_char_buffer_init (uart0_rx_buffer s),
     uart1_rx_buffer := circular_char_buffer_init (uart1_rx_buffer s),
     intc_vector_table := (replicate 128 Default_handler)[72 := Uart0_handler, 73 := Uart1_handler]\<rparr>"

lemma startup_renders:
  "n \<noteq> 0x80000000 \<Longrightarrow> render (line ''Hello from kernel! We used %d sections for kernel'') [VInt n] \<noteq> None"
  "render (line ''Frame allocator initialized'') [] \<noteq> None" "render (line ''kernel interrupts OK'') [] \<noteq> None"
  "render (line ''UART1 init'') [] \<noteq> None"
  by (simp_all add: directive_text_def c_consts)

lemma bring_up_state:
  assumes c: "console B UNIV tx" and k: "kernel_devices B" and t: "table_ok s" and h: "mapped_sections h \<noteq> 0x80000000"
  shows "\<exists>d. kernel_bring_up B e h s = Some ((brought_up e h s)\<lparr>dev := d\<rparr>)"
proof -
  note say = run_answers(4)[OF c]
  obtain d1 where d1: "run_dev (check_mode B (kernel_io.cpsr s)) s = Some (s\<lparr>dev := d1\<rparr>)"
    using run_answers(1)[OF c] by blast
  obtain d2 where d2: "run_dev (uart_printf B (line ''Hello from kernel! We used %d sections for kernel'')
      [VInt (mapped_sections h)]) (s\<lparr>dev := d1\<rparr>) = Some (s\<lparr>dev := d1, dev := d2\<rparr>)"
    using say[OF startup_renders(1)[OF h]] by blast
  define s1 where "s1 = s\<lparr>dev := d1, dev := d2\<rparr>"
  let ?s1 = "s1\<lparr>frame_pool := init_frame_allocator h (frame_pool s1)\<rparr>"
  obtain d3 where d3: "run_dev (uart_printf B (line ''Frame allocator initialized'') []) ?s1 = Some (?s1\<lparr>dev := d3\<rparr>)"
    using say[OF startup_renders(2)] by blast
  obtain s2 where s2: "system_interrupt_init B e (?s1\<lparr>dev := d3\<rparr>) = Some s2"
    "\<exists>d. s2 = (CPU_irq_enable (setup_vector_table e (?s1\<lparr>dev := d3\<rparr>)))\<lparr>dev := d, intc_vector_table := replicate 128 Default_handler\<rparr>"
    using system_interrupt_init_state[of B "?s1\<lparr>dev := d3\<rparr>" e] k t by (auto simp: kernel_devices_def s1_def table_ok_def)
  obtain d5 where d5: "uart_init B 0 115200 1 0 0 0 8 s2 =
      Some (s2\<lparr>intc_vector_table := (intc_vector_table s2)[72 := Uart0_handler], dev := d5,
              uart0_rx_buffer := circular_char_buffer_init (uart0_rx_buffer s2)\<rparr>)" (is "_ = Some ?s3")
    using uart_init0_state[OF k] by blast
  obtain d6 where d6: "run_dev (log_message B LOG_LEVEL_INFO (line ''kernel interrupts OK'') []) ?s3 = Some (?s3\<lparr>dev := d6\<rparr>)"
    using run_answers(5)[OF c startup_renders(3)] by blast
  obtain d7 where d7: "run_dev (uart_printf B (line ''UART1 init'') []) (?s3\<lparr>dev := d6\<rparr>) = Some (?s3\<lparr>dev := d6, dev := d7\<rparr>)"
    using say[OF startup_renders(4)] by blast
  obtain d8 where d8: "uart_init B 1 115200 1 0 0 0 8 (?s3\<lparr>dev := d6, dev := d7\<rparr>) =
      Some (?s3\<lparr>dev := d6, dev := d7\<rparr>\<lparr>intc_vector_table := (intc_vector_table (?s3\<lparr>dev := d6, dev := d7\<rparr>))[73 := Uart1_handler],
        dev := d8, uart1_rx_buffer := circular_char_buffer_init (uart1_rx_buffer (?s3\<lparr>dev := d6, dev := d7\<rparr>))\<rparr>)" (is "_ = Some ?s4")
    using uart_init1_state[OF k] by blast
  have run: "kernel_bring_up B e h s = Some ?s4"
    by (simp only: kernel_bring_up_def d1 d2 Let_def s1_def[symmetric] d3 s2(1) d5 d6 d7 d8 Option.bind.bind_lunit)
  have final: "?s4 = (brought_up e h s)\<lparr>dev := d8\<rparr>"
    using s2(2) by (auto simp: brought_up_def s1_def CPU_irq_enable_def setup_vector_table_def)
  show ?thesis unfolding run final by (rule exI, rule refl)
qed

lemma kmain_state:
  assumes c: "console B UNIV tx" and k: "kernel_devices B" and b: "kernel_boot s"
    and h: "mapped_sections h \<noteq> 0x80000000"
  shows "\<exists>d sc. kmain B e l h s = Some ((brought_up e h s)\<lparr>
        timer_tick_funcs := (timer_tick_funcs s)[2 := Some Scheduler_tick],
        intc_vector_table := (intc_vector_table (brought_up e h s))[68 := Timer_handler 2], dev := d, sched := sc\<rparr>) \<and>
      sched_inv sc \<and> sched_abs sc = (Some 1, [2, 3]) \<and> process_t.cpsr (processes sc ! 1) = 15"
proof -
  have b': "table_ok s" "boot_ok (sched s)" "current_process (sched s) = None" using b by (simp_all add: kernel_boot_def)
  let ?u = "brought_up e h s"
  have same: "sched ?u = sched s" "timer_tick_funcs ?u = timer_tick_funcs s"
    by (simp_all add: brought_up_def CPU_irq_enable_def setup_vector_table_def)
  obtain d1 where d1: "kernel_bring_up B e h s = Some (?u\<lparr>dev := d1\<rparr>)"
    using bring_up_state[OF c k b'(1) h] by blast
  obtain d2 where d2: "run_dev (check_mode B (kernel_io.cpsr (?u\<lparr>dev := d1\<rparr>))) (?u\<lparr>dev := d1\<rparr>) = Some (?u\<lparr>dev := d1, dev := d2\<rparr>)"
    using run_answers(1)[OF c] by blast
  let ?u1 = "?u\<lparr>dev := d1, dev := d2\<rparr>"
  have "boot_ok (sched ?u1)" using b'(2) same by simp
  from start_scheduler_state[OF c k this, of l] obtain d3 sc where
    d3: "start_scheduler B l ?u1 = Some (?u1\<lparr>sched := sc, timer_tick_funcs := (timer_tick_funcs ?u1)[2 := Some Scheduler_tick],
        intc_vector_table := (intc_vector_table ?u1)[68 := Timer_handler 2], dev := d3\<rparr>)" (is "_ = Some ?u2")
    and sc: "after_init l sc" "current_process sc = None" using b'(3) same by auto
  obtain d4 where d4: "run_dev (check_mode B (kernel_io.cpsr ?u2)) ?u2 = Some (?u2\<lparr>dev := d4\<rparr>)"
    using run_answers(1)[OF c] by blast
  have "sched_inv (sched (?u2\<lparr>dev := d4\<rparr>))" and a: "sched_abs (sched (?u2\<lparr>dev := d4\<rparr>)) = (None, [1, 2, 3])"
    using sched_inv_init[OF sc] sc by (simp_all add: sched_abs_def after_init_def)
  from schedule_inv[OF this(1)] obtain sc' where
    sc': "schedule (?u2\<lparr>dev := d4\<rparr>) = Some (?u2\<lparr>dev := d4, sched := sc'\<rparr>)" "sched_inv sc'" "sched_abs sc' = (Some 1, [2, 3])"
    "\<And>j k. j < length (processes sc) \<Longrightarrow> get_word k (processes sc' ! j) = get_word k (processes sc ! j)"
    unfolding a by auto
  have "process_t.cpsr (processes sc' ! 1) = 15" using sc'(4)[of 1 15] sc(1) by (simp add: get_word_def after_init_def)
  have "kmain B e l h s = Some (?u2\<lparr>dev := d4, sched := sc'\<rparr>)"
    by (simp only: kmain_def d1 d2 d3 d4 sc'(1) Option.bind.bind_lunit)
  then show ?thesis using sc'(2,3) same \<open>process_t.cpsr (processes sc' ! 1) = 15\<close> by auto
qed

section \<open>The tasks run in turn\<close>

lemma sched_inv_save:
  assumes "sched_inv sc"
  shows "sched_inv (update_process i (\<lambda>p. snd (execute code (c, p))) sc)" (is ?inv)
    and "sched_abs (update_process i f sc) = sched_abs sc"
proof -
  show abs: "sched_abs (update_process i f sc) = sched_abs sc" for f by (simp add: sched_abs_def)
  have "proc_state ((processes sc)[i := snd (execute code (c, processes sc ! i))] ! k) = proc_state (processes sc ! k)" for k
    by (cases "i < length (processes sc)") (simp_all add: nth_list_update execute_proc_state not_less list_update_beyond)
  then show ?inv
    using assms by (simp add: sched_inv_def sched_ok_def abs) (simp add: update_process_def)
qed

text \<open>Before the first dispatch there is no process, and an interrupt has no defined result.\<close>

lemma save_current_needs_process: "current_process (sched s) = None \<Longrightarrow> irq_entry B c s = None"
  by (simp add: irq_entry_def save_current_def)

definition saved_words :: "nat \<Rightarrow> cpu \<Rightarrow> scheduler_t \<Rightarrow> scheduler_t \<Rightarrow> bool" where
  "saved_words i c s s' \<longleftrightarrow> (\<forall>j < length (processes s). \<forall>k. get_word k (processes s' ! j) =
     get_word k (if j = i then snd (execute save_context_asm (c, processes s ! i)) else processes s ! j))"

lemma svc_entry_state:
  assumes "sched_inv (sched s)" "current_process (sched s) = Some i"
  shows "\<exists>sc. svc_entry c s = Some (s\<lparr>sched := sc\<rparr>) \<and> sched_inv sc \<and> sched_abs sc = rr_next 0 (sched_abs (sched s)) \<and>
    saved_words i c (sched s) sc"
proof -
  let ?sc = "update_process i (\<lambda>p. snd (execute save_context_asm (c, p))) (sched s)"
  have "sched_inv (sched (s\<lparr>sched := ?sc\<rparr>))" using sched_inv_save(1)[OF assms(1)] by simp
  from schedule_inv[OF this] obtain sc where sc: "schedule (s\<lparr>sched := ?sc\<rparr>) = Some (s\<lparr>sched := sc\<rparr>)" "sched_inv sc"
    "sched_abs sc = rr_next 0 (sched_abs ?sc)"
    "\<forall>j < length (processes ?sc). \<forall>k. get_word k (processes sc ! j) = get_word k (processes ?sc ! j)" by auto
  have "svc_entry c s = Some (s\<lparr>sched := sc\<rparr>)" using sc(1) assms(2) by (simp add: svc_entry_def save_current_def)
  moreover have "sched_abs ?sc = sched_abs (sched s)" by (rule sched_inv_save(2)[OF assms(1)])
  moreover have "saved_words i c (sched s) sc"
    using sc(4) by (simp add: saved_words_def update_process_def nth_list_update)
  ultimately show ?thesis using sc(2,3) by auto
qed

lemma yield_state:
  assumes c: "console B UNIV tx" and i: "sched_inv (sched s)" "current_process (sched s) = Some i"
  shows "\<exists>d sc. yield B c s = Some (s\<lparr>dev := d, sched := sc\<rparr>) \<and> sched_inv sc \<and>
    sched_abs sc = rr_next 0 (sched_abs (sched s)) \<and> saved_words i c (sched s) sc \<and>
    tx d = tx (dev s) @ cstr ''Yielding...'' @ [13, 10]"
proof -
  have t: "crlf (until_nul (line ''Yielding...'')) = cstr ''Yielding...'' @ [13, 10]" by code_simp
  obtain d where d0: "uart_puts B (line ''Yielding...'') (dev s) = Some d"
    and out: "tx d = tx (dev s) @ cstr ''Yielding...'' @ [13, 10]"
    using uart_puts_emits[OF c, of "line ''Yielding...''", unfolded t] unfolding emits_def by blast
  have d: "run_dev (uart_puts B (line ''Yielding...'')) s = Some (s\<lparr>dev := d\<rparr>)"
    unfolding run_dev_def d0 by simp
  have "sched_inv (sched (s\<lparr>dev := d\<rparr>))" "current_process (sched (s\<lparr>dev := d\<rparr>)) = Some i" using i by simp_all
  moreover have "yield B c s = svc_entry c (s\<lparr>dev := d\<rparr>)"
    by (simp only: yield_def d Option.bind.bind_lunit)
  ultimately show ?thesis using svc_entry_state[of "s\<lparr>dev := d\<rparr>" i c] out by auto
qed

text \<open>The line a task sends in each round, and that it sends nothing more once its counter has reached \<open>2^31\<close>.\<close>

definition heartbeat_line :: "nat \<Rightarrow> u32 \<Rightarrow> u8 list" where
  "heartbeat_line i n = cstr (if i = 1 then ''P1'' else ''P2'') @ cstr '': heartbeat: '' @ number_text n 10 True @ [13, 10]"

lemma heartbeat_renders:
  assumes "n \<noteq> 0x80000000"
  shows "render (line ''P1: heartbeat: %d'') [VInt n] = Some (heartbeat_line 1 n)"
    and "render (line ''P2: heartbeat: %d'') [VInt n] = Some (heartbeat_line 2 n)"
  using assms by (simp_all add: directive_text_def c_consts heartbeat_line_def)

lemma heartbeat_stuck:
  "run_dev (uart_printf B (line ''P1: heartbeat: %d'') [VInt 0x80000000]) s = None"
  "run_dev (uart_printf B (line ''P2: heartbeat: %d'') [VInt 0x80000000]) s = None"
proof -
  have n: "format_out p (line ''%d'') [VInt 0x80000000] d = None" for p :: "u8 \<Rightarrow> 'a \<Rightarrow> 'a option" and d
    by (simp add: directive_out_def number_out_def word_sless_alt c_consts)
  have l: "line ''P1: heartbeat: %d'' = cstr ''P1: heartbeat: '' @ line ''%d''"
    "line ''P2: heartbeat: %d'' = cstr ''P2: heartbeat: '' @ line ''%d''" by simp_all
  have s: "0 \<notin> set (cstr ''P1: heartbeat: '')" "chr CHR ''%'' \<notin> set (cstr ''P1: heartbeat: '')"
    "0 \<notin> set (cstr ''P2: heartbeat: '')" "chr CHR ''%'' \<notin> set (cstr ''P2: heartbeat: '')" by code_simp+
  show "run_dev (uart_printf B (line ''P1: heartbeat: %d'') [VInt 0x80000000]) s = None"
    "run_dev (uart_printf B (line ''P2: heartbeat: %d'') [VInt 0x80000000]) s = None"
    unfolding run_dev_def uart_printf_def uart_vprintf_def l
      format_out_fails[OF n s(1,2)] format_out_fails[OF n s(3,4)] by (rule Option.bind.bind_lzero)+
qed

lemma P1_round_stuck: "p1_heartbeat s = 0x80000000 \<Longrightarrow> P1_round B c s = None"
  by (simp only: P1_round_def heartbeat_stuck Option.bind.bind_lzero)

lemma P2_round_stuck: "p2_heartbeat s = 0x80000000 \<Longrightarrow> P2_round B c s = None"
  by (simp only: P2_round_def heartbeat_stuck Option.bind.bind_lzero)

lemma printf_sends:
  assumes "console B UNIV tx" "render fmt ap = Some out"
  shows "\<exists>d. run_dev (uart_printf B fmt ap) s = Some (s\<lparr>dev := d\<rparr>) \<and> tx d = tx (dev s) @ out"
  using vprintf_emits[OF assms(1) UNIV_I assms(2), of "dev s"] by (auto simp: run_dev_def uart_printf_def)

lemma P1_round_state:
  assumes c: "console B UNIV tx" and i: "sched_inv (sched s)" "current_process (sched s) = Some i"
    and k: "p1_heartbeat s \<noteq> 0x80000000"
  shows "\<exists>d sc. P1_round B c s = Some (s\<lparr>p1_heartbeat := p1_heartbeat s + 1, dev := d, sched := sc\<rparr>) \<and> sched_inv sc \<and>
    sched_abs sc = rr_next 0 (sched_abs (sched s)) \<and> saved_words i c (sched s) sc \<and>
    tx d = tx (dev s) @ heartbeat_line 1 (p1_heartbeat s) @ cstr ''Yielding...'' @ [13, 10]"
proof -
  obtain d where d: "run_dev (uart_printf B (line ''P1: heartbeat: %d'') [VInt (p1_heartbeat s)]) s = Some (s\<lparr>dev := d\<rparr>)"
    "tx d = tx (dev s) @ heartbeat_line 1 (p1_heartbeat s)"
    using printf_sends[OF c heartbeat_renders(1)[OF k]] by blast
  let ?s = "s\<lparr>dev := d, p1_heartbeat := p1_heartbeat (s\<lparr>dev := d\<rparr>) + 1\<rparr>"
  have "sched_inv (sched ?s)" "current_process (sched ?s) = Some i" using i by simp_all
  from yield_state[OF c this, of c] show ?thesis
    unfolding P1_round_def d(1) Option.bind.bind_lunit by (auto simp: d(2))
qed

lemma P2_round_state:
  assumes c: "console B UNIV tx" and i: "sched_inv (sched s)" "current_process (sched s) = Some i"
    and k: "p2_heartbeat s \<noteq> 0x80000000"
  shows "\<exists>d sc. P2_round B c s = Some (s\<lparr>p2_heartbeat := p2_heartbeat s + 1, dev := d, sched := sc\<rparr>) \<and> sched_inv sc \<and>
    sched_abs sc = rr_next 0 (sched_abs (sched s)) \<and> saved_words i c (sched s) sc \<and>
    tx d = tx (dev s) @ heartbeat_line 2 (p2_heartbeat s) @ cstr ''Yielding...'' @ [13, 10]"
proof -
  obtain d where d: "run_dev (uart_printf B (line ''P2: heartbeat: %d'') [VInt (p2_heartbeat s)]) s = Some (s\<lparr>dev := d\<rparr>)"
    "tx d = tx (dev s) @ heartbeat_line 2 (p2_heartbeat s)"
    using printf_sends[OF c heartbeat_renders(2)[OF k]] by blast
  let ?s = "s\<lparr>dev := d, p2_heartbeat := p2_heartbeat (s\<lparr>dev := d\<rparr>) + 1\<rparr>"
  have "sched_inv (sched ?s)" "current_process (sched ?s) = Some i" using i by simp_all
  from yield_state[OF c this, of c] show ?thesis
    unfolding P2_round_def d(1) Option.bind.bind_lunit by (auto simp: d(2))
qed

lemma rr_next_queue:
  assumes "sched_abs sc' = rr_next 0 (sched_abs sc)" "current_process sc = Some i" "i \<noteq> 0"
  shows "the (current_process sc') # gcb_list (ready_queue sc') = gcb_list (ready_queue sc) @ [i]" "current_process sc' \<noteq> None"
  using assms by (cases "gcb_list (ready_queue sc)"; simp add: sched_abs_def)+

lemma task_opening_state:
  assumes c: "console B UNIV tx"
  shows "\<exists>d ms. task_opening B i s = Some (s\<lparr>motors := ms, dev := d\<rparr>)"
proof -
  have *: "render (line ''Idle task running...'') [] \<noteq> None" "render (line ''P1 running...'') [] \<noteq> None"
    "render (line ''P2 running...'') [] \<noteq> None" "render (line ''Motor task running...'') [] \<noteq> None"
    "render (line ''Motor task: Motors initialized'') [] \<noteq> None" by (simp_all add: c_consts)
  note say = run_answers(4)[OF c]
  have same: "s\<lparr>dev := d\<rparr> = s\<lparr>motors := motors s, dev := d\<rparr>" for d by simp
  have "\<exists>d ms. motor_task_start B s = Some (s\<lparr>motors := ms, dev := d\<rparr>)"
  proof -
    obtain d1 where d1: "run_dev (uart_printf B (line ''Motor task running...'') []) s = Some (s\<lparr>dev := d1\<rparr>)"
      using say[OF *(4)] by blast
    obtain d2 where d2: "run_dev (uart_printf B (line ''Motor task: Motors initialized'') []) (motor_init B (s\<lparr>dev := d1\<rparr>)) =
        Some ((motor_init B (s\<lparr>dev := d1\<rparr>))\<lparr>dev := d2\<rparr>)" using say[OF *(5)] by blast
    have "\<exists>d ms. (motor_init B (s\<lparr>dev := d1\<rparr>))\<lparr>dev := d2\<rparr> = s\<lparr>motors := ms, dev := d\<rparr>"
      by (auto simp: motor_init_def on_dev_def Let_def)
    then show ?thesis unfolding motor_task_start_def d1 d2 Option.bind.bind_lunit by simp
  qed
  then show ?thesis
    using say[OF *(1), of s] say[OF *(2), of s] say[OF *(3), of s] same unfolding task_opening_def by metis
qed

section \<open>Interrupts\<close>

text \<open>The part of the state that only start-up writes.\<close>

definition fixed_part :: "'d kernel \<Rightarrow> handler list \<times> tick_func option list \<times> u32 \<times> (u32 \<Rightarrow> u32) \<times> frame_allocator" where
  "fixed_part s = (intc_vector_table s, timer_tick_funcs s, vbar s, ram s, frame_pool s)"

definition settled :: "'d kernel \<Rightarrow> 'd kernel \<Rightarrow> bool" where
  "settled s s' \<longleftrightarrow> fixed_part s' = fixed_part s \<and> sched_abs (sched s') = sched_abs (sched s) \<and>
     (sched_inv (sched s) \<longrightarrow> sched_inv (sched s'))"

lemma settled_refl [simp]: "settled s s"
  by (simp add: settled_def)

lemma settled_trans: "settled s s' \<Longrightarrow> settled s' s'' \<Longrightarrow> settled s s''"
  by (simp add: settled_def)

lemma settled_dev [simp]: "settled s (s'\<lparr>dev := d\<rparr>) \<longleftrightarrow> settled s s'"
  by (simp add: settled_def fixed_part_def)

lemma settled_run_dev: "run_dev f s = Some s' \<Longrightarrow> settled s s'"
  by (auto simp: run_dev_Some)

lemma settled_uart_irq:
  "handle_uart0_irq B s = Some s' \<Longrightarrow> settled s s'" "handle_uart1_irq B s = Some s' \<Longrightarrow> settled s s'"
  by (auto simp: handle_uart0_irq_def handle_uart1_irq_def Let_def settled_def fixed_part_def bind_eq_Some_conv'
      split_beta)

lemma settled_tick: "run_tick B f s = Some s' \<Longrightarrow> settled s s'"
  by (cases f) (auto simp: run_tick_def settled_def fixed_part_def bind_eq_Some_conv' run_dev_Some scheduler_tick_def
      sched_abs_def sched_inv_def sched_ok_def)

lemma settled_timer_irq: "handle_timer_irq (run_tick B) B i s = Some s' \<Longrightarrow> settled s s'"
  by (auto simp: handle_timer_irq_def Let_def bind_eq_Some_conv' run_dev_Some split: option.splits dest: settled_tick)

lemma settled_handler: "call_handler (run_tick B) B h s = Some s' \<Longrightarrow> settled s s'"
  by (auto simp: call_handler_def handle_timer2_irq_def handle_timer3_irq_def handle_timer4_irq_def handle_timer5_irq_def
      handle_timer6_irq_def handle_timer7_irq_def split: handler.splits if_splits
      dest: settled_uart_irq settled_timer_irq)

lemma settled_dispatch: "irq_dispatch (run_tick B) B s = Some s' \<Longrightarrow> settled s s'"
  by (auto simp: irq_dispatch_def bind_eq_Some_conv' on_dev_def split: prod.splits dest!: settled_handler)
    (simp add: settled_def fixed_part_def)

lemma settled_frames:
  "settled s s' \<Longrightarrow> settled s (set_rx_buffer i b s')" "settled s s' \<Longrightarrow> settled s (snd (motor_ioctl B cmd v s'))"
  by (simp_all add: set_rx_buffer_def settled_def fixed_part_def motor_ioctl_def motors_start_eq motors_stop_eq
      motors_set_dir_def Let_def)

lemma settled_motor_step:
  assumes "motor_task_step B buf s = Some (buf', s')"
  shows "settled s s'"
proof -
  obtain rd buf1 s1 where r: "uart_readline 1 buf 100 s = Some (rd, buf1, s1)"
    using assms by (auto simp: motor_task_step_def bind_eq_Some_conv')
  then obtain b where "s1 = set_rx_buffer 1 b s" using readline_frame by blast
  then have s1: "settled s s1" using settled_frames(1)[OF settled_refl] by simp
  show ?thesis
  proof (cases "rd = 5")
    case True
    then obtain f v s2 where "run_dev f s1 = Some s2" "s' = snd (motor_ioctl B MOTOR_SET_DIR v s2)"
      using assms unfolding motor_task_step_def r Let_def bind_eq_Some_conv' prod.case if_True Option.bind.bind_lunit
      by (simp only: if_True bind_eq_Some_conv' option.inject prod.inject simp_thms) blast
    then show ?thesis using settled_run_dev settled_trans[OF s1] settled_frames(2) by blast
  next
    case False
    then show ?thesis using assms r s1 by (simp add: motor_task_step_def)
  qed
qed

lemma irq_entry_state:
  assumes "sched_inv (sched s)" "irq_entry B c s = Some s'"
  shows "sched_inv (sched s') \<and> fixed_part s' = fixed_part s \<and> sched_abs (sched s') = rr_next 0 (sched_abs (sched s))"
proof -
  obtain s1 s2 where s1: "save_current c s = Some s1" and s2: "irq_dispatch (run_tick B) B s1 = Some s2"
    and s': "schedule s2 = Some s'" using assms(2) by (auto simp: irq_entry_def bind_eq_Some_conv')
  have "settled s s1"
    using s1 sched_inv_save[OF assms(1)] by (auto simp: save_current_def settled_def fixed_part_def split: option.splits)
  then have "settled s s2" using settled_dispatch[OF s2] settled_trans by blast
  then show ?thesis using schedule_inv[of s2] s' assms(1) by (auto simp: settled_def fixed_part_def)
qed

lemma svc_entry_inv:
  assumes "sched_inv (sched s)" "svc_entry c s = Some s'"
  shows "sched_inv (sched s') \<and> fixed_part s' = fixed_part s \<and> sched_abs (sched s') = rr_next 0 (sched_abs (sched s))"
proof -
  obtain i where "current_process (sched s) = Some i"
    using assms(2) by (auto simp: svc_entry_def save_current_def split: option.splits)
  from svc_entry_state[OF assms(1) this, of c] show ?thesis using assms(2) by (auto simp: fixed_part_def)
qed

lemma task_round_settles:
  assumes "task_round B i c s = Some s'"
  shows "\<exists>s1. settled s s1 \<and> svc_entry c s1 = Some s'"
proof -
  have y: "\<exists>s1. settled t s1 \<and> svc_entry c s1 = Some s'" if "yield B c t = Some s'" for t
    using that settled_run_dev unfolding yield_def bind_eq_Some_conv' by blast
  have up: "settled s t1 \<Longrightarrow> settled s (t1\<lparr>idle_proc_heartbeat := a\<rparr>)" "settled s t1 \<Longrightarrow> settled s (t1\<lparr>p1_heartbeat := a\<rparr>)"
    "settled s t1 \<Longrightarrow> settled s (t1\<lparr>p2_heartbeat := a\<rparr>)" "settled s t1 \<Longrightarrow> settled s (t1\<lparr>motor_line := b\<rparr>)" for t1 a b
    by (simp_all add: settled_def fixed_part_def)
  have dev: "\<exists>t. settled s t \<and> yield B c t = Some s'"
    if "Option.bind (run_dev f s) (\<lambda>t. yield B c (g t)) = Some s'" "\<And>t. settled s t \<Longrightarrow> settled s (g t)" for f g
    using that settled_run_dev unfolding bind_eq_Some_conv' by blast
  have "\<exists>t. settled s t \<and> yield B c t = Some s'" if m: "motor_round B c s = Some s'"
  proof -
    obtain buf t where t: "motor_task_step B (motor_line s) s = Some (buf, t)"
      using m by (cases "motor_task_step B (motor_line s) s") (auto simp: motor_round_def)
    obtain f t1 where "run_dev f t = Some t1" "yield B c (t1\<lparr>motor_line := buf\<rparr>) = Some s'"
      using m unfolding motor_round_def t Option.bind.bind_lunit prod.case bind_eq_Some_conv' by blast
    then show ?thesis using settled_motor_step[OF t] settled_run_dev settled_trans up(4) by blast
  qed
  moreover have "\<exists>t. settled s t \<and> yield B c t = Some s'" if "idle_round B c s = Some s'"
    using dev[OF that[unfolded idle_round_def]] up(1) by blast
  moreover have "\<exists>t. settled s t \<and> yield B c t = Some s'" if "P1_round B c s = Some s'"
    using dev[OF that[unfolded P1_round_def]] up(2) by blast
  moreover have "\<exists>t. settled s t \<and> yield B c t = Some s'" if "P2_round B c s = Some s'"
    using dev[OF that[unfolded P2_round_def]] up(3) by blast
  ultimately have "\<exists>t. settled s t \<and> yield B c t = Some s'"
    using assms by (auto simp: task_round_def split: if_splits)
  then show ?thesis using y settled_trans by blast
qed

lemma task_opening_inv:
  assumes "console B UNIV tx" "sched_inv (sched s)" "task_opening B i s = Some s'"
  shows "sched_inv (sched s') \<and> fixed_part s' = fixed_part s \<and> sched_abs (sched s') = sched_abs (sched s)"
  using task_opening_state[OF assms(1), of i s] assms(2,3) by (auto simp: fixed_part_def)

lemma task_round_inv:
  assumes "sched_inv (sched s)" "task_round B i c s = Some s'"
  shows "sched_inv (sched s') \<and> fixed_part s' = fixed_part s \<and> sched_abs (sched s') = rr_next 0 (sched_abs (sched s))"
proof -
  obtain s1 where "settled s s1" "svc_entry c s1 = Some s'" using task_round_settles[OF assms(2)] by blast
  then show ?thesis using svc_entry_inv[of s1 c s'] assms(1) by (simp add: settled_def)
qed

text \<open>
  Runs of the kernel: wherever the current task has been resumed, it prints its opening lines or
  proceeds through a round to its next yield; or an interrupt is taken between rounds.
\<close>

inductive kernel_reachable :: "'d bus \<Rightarrow> asm_entries \<Rightarrow> links \<Rightarrow> bootloader_header_t \<Rightarrow> 'd kernel \<Rightarrow> bool" for B e l h where
  start: "kernel_boot s0 \<Longrightarrow> kmain B e l h s0 = Some s \<Longrightarrow> kernel_reachable B e l h s"
| opens: "kernel_reachable B e l h s \<Longrightarrow> current_process (sched s) = Some i \<Longrightarrow> task_opening B i s = Some s' \<Longrightarrow>
    kernel_reachable B e l h s'"
| rounds: "kernel_reachable B e l h s \<Longrightarrow> current_process (sched s) = Some i \<Longrightarrow> task_round B i c s = Some s' \<Longrightarrow>
    kernel_reachable B e l h s'"
| interrupt: "kernel_reachable B e l h s \<Longrightarrow> irq_entry B c s = Some s' \<Longrightarrow> kernel_reachable B e l h s'"

definition kernel_inv :: "asm_entries \<Rightarrow> bootloader_header_t \<Rightarrow> 'd kernel \<Rightarrow> bool" where
  "kernel_inv e h s \<longleftrightarrow> sched_inv (sched s) \<and> current_process (sched s) \<noteq> None \<and>
     frame_pool s = init_frame_allocator h frames_initial \<and> timer_tick_funcs s ! 2 = Some Scheduler_tick \<and>
     (\<forall>n < 8. vector_target (ram s) (vbar s + 4 * of_nat n) = Some (entry_list e ! n)) \<and>
     intc_vector_table s = (replicate 128 Default_handler)[72 := Uart0_handler, 73 := Uart1_handler, 68 := Timer_handler 2]"

lemma kernel_inv_next:
  assumes "kernel_inv e h s" "sched_inv (sched s')" "fixed_part s' = fixed_part s"
    "sched_abs (sched s') = rr_next 0 (sched_abs (sched s))"
  shows "kernel_inv e h s'"
proof -
  have "fst (rr_next 0 a) \<noteq> None" for a by (cases a) (simp add: Let_def split: list.split)
  then have "current_process (sched s') \<noteq> None" using assms(4) by (metis fst_conv sched_abs_def)
  then show ?thesis using assms(1-3) by (simp add: kernel_inv_def fixed_part_def)
qed

lemma kernel_inv_same:
  assumes "kernel_inv e h s" "sched_inv (sched s')" "fixed_part s' = fixed_part s" "sched_abs (sched s') = sched_abs (sched s)"
  shows "kernel_inv e h s'"
  using assms by (simp add: kernel_inv_def fixed_part_def sched_abs_def)

lemma kernel_inv_sched: "kernel_inv e h s \<Longrightarrow> sched_inv (sched s)"
  by (simp add: kernel_inv_def)

lemma kernel_inv_start:
  assumes "console B UNIV tx" "kernel_devices B" "mapped_sections h \<noteq> 0x80000000" "kernel_boot s0"
  shows "\<exists>s. kmain B e l h s0 = Some s \<and> kernel_inv e h s \<and> sched_abs (sched s) = (Some 1, [2, 3]) \<and>
    uart0_rx_buffer s = circular_char_buffer_init (uart0_rx_buffer s0) \<and>
    uart1_rx_buffer s = circular_char_buffer_init (uart1_rx_buffer s0) \<and> \<not> bit (kernel_io.cpsr s) 7 \<and>
    p1_heartbeat s = 0 \<and> p2_heartbeat s = 0 \<and> process_t.cpsr (processes (sched s) ! 1) = 15"
proof -
  obtain d sc where k: "kmain B e l h s0 = Some ((brought_up e h s0)\<lparr>
        timer_tick_funcs := (timer_tick_funcs s0)[2 := Some Scheduler_tick],
        intc_vector_table := (intc_vector_table (brought_up e h s0))[68 := Timer_handler 2], dev := d, sched := sc\<rparr>)"
    "sched_inv sc" "sched_abs sc = (Some 1, [2, 3])" "process_t.cpsr (processes sc ! 1) = 15"
    using kmain_state[OF assms(1,2,4,3)] by blast
  have vec: "\<forall>n < 8. vector_target (ram (brought_up e h s0)) (vbar (brought_up e h s0) + 4 * of_nat n) = Some (entry_list e ! n)"
    using vectors_lead_to_entries[of _ e "s0\<lparr>frame_pool := init_frame_allocator h (frame_pool s0)\<rparr>"]
    by (simp add: brought_up_def CPU_irq_enable_def) (simp add: setup_vector_table_def)
  have u: "uart0_rx_buffer (brought_up e h s0) = circular_char_buffer_init (uart0_rx_buffer s0)"
    "uart1_rx_buffer (brought_up e h s0) = circular_char_buffer_init (uart1_rx_buffer s0)"
    "frame_pool (brought_up e h s0) = init_frame_allocator h (frame_pool s0)" "\<not> bit (kernel_io.cpsr (brought_up e h s0)) 7"
    "intc_vector_table (brought_up e h s0) = (replicate 128 Default_handler)[72 := Uart0_handler, 73 := Uart1_handler]"
    "p1_heartbeat (brought_up e h s0) = p1_heartbeat s0" "p2_heartbeat (brought_up e h s0) = p2_heartbeat s0"
    by (simp_all add: brought_up_def CPU_irq_enable_def setup_vector_table_def bit_simps)
  have "current_process sc = Some 1" using k(3) by (simp add: sched_abs_def)
  then show ?thesis using k vec u assms(4) by (simp add: kernel_inv_def kernel_boot_def)
qed

lemma kernel_reachable_inv:
  assumes "kernel_reachable B e l h s" "console B UNIV tx" "kernel_devices B" "mapped_sections h \<noteq> 0x80000000"
  shows "kernel_inv e h s"
  using assms(1)
proof induction
  case (start s0 s)
  then show ?case using kernel_inv_start[OF assms(2-4), of s0 e l] by auto
next
  case (opens s i s')
  then show ?case using task_opening_inv[OF assms(2)] kernel_inv_same kernel_inv_sched by meson
next
  case (rounds s i c s')
  then show ?case using task_round_inv kernel_inv_next kernel_inv_sched by meson
next
  case (interrupt s c s')
  then show ?case using irq_entry_state kernel_inv_next kernel_inv_sched by meson
qed

section \<open>Ticks of the boot loader\<close>

lemma delay_loop_returns:
  assumes "\<not> secs (k + n) < limit"
  shows "\<exists>m \<ge> k. delay_loop secs limit k = Some m \<and> \<not> secs m < limit"
  using assms
proof (induction n arbitrary: k)
  case 0
  then show ?case by (subst delay_loop.simps) auto
next
  case (Suc n)
  then have "\<not> secs ((k + 1) + n) < limit" by simp
  from Suc.IH[OF this] obtain m where "k + 1 \<le> m" "delay_loop secs limit (k + 1) = Some m" "\<not> secs m < limit"
    by blast
  then show ?case by (cases "secs k < limit") (auto simp: delay_loop.simps[of secs limit k])
qed

text \<open>
  \<^verbatim>\<open>delay\<close> returns once the tick counter has reached the sum; but near the end of the counter's range the
  sum wraps and the wait ends at once.
\<close>

lemma delay_returns: "\<not> secs (Suc n) < secs 0 + w \<Longrightarrow> \<exists>m. delay secs w = Some m \<and> \<not> secs m < secs 0 + w"
  using delay_loop_returns[of secs 1 n "secs 0 + w"] by (auto simp: delay_def)

lemma delay_wraps:
  assumes "2 ^ 32 \<le> unat (secs 0) + unat w" "secs 1 = secs 0"
  shows "delay secs w = Some 1"
proof -
  have "(unat (secs 0) + unat w) mod 2 ^ 32 = unat (secs 0) + unat w - 2 ^ 32"
    using assms(1) unat_u32_bound[of w] unat_u32_bound[of "secs 0"] by (simp add: le_mod_geq)
  then have "secs 0 + w \<le> secs 0"
    using unat_u32_bound[of w] by (simp add: word_le_nat_alt unat_word_ariths)
  then show ?thesis using assms(2) by (simp add: delay_def delay_loop.simps[of secs _ "Suc 0"] leD)
qed

text \<open>The first user LED shows the flag of the tick callback.\<close>

lemma boot_tick_led:
  assumes "console B UNIV tx" "gpio_out B out" "boot_tick B t d = Some (t', d')"
  shows "tick_secs t' = tick_secs t + 1" "tick_led_on t' = (\<not> tick_led_on t)" "bit (out d') 21 = tick_led_on t'"
proof -
  define d1 where "d1 = (if tick_led_on t then GPIO_clear B GPIO1_BASE LED0 d else GPIO_set B GPIO1_BASE LED0 d)"
  have p: "uart_printf B (line ''Tick: %u'') [VInt (tick_secs t + 1)] d1 = Some d'"
    and t: "t' = t\<lparr>tick_led_on := \<not> tick_led_on t, tick_secs := tick_secs t + 1\<rparr>"
    using assms(3) unfolding boot_tick_def d1_def Let_def bind_eq_Some_conv' by simp_all
  obtain msg where "render (line ''Tick: %u'') [VInt (tick_secs t + 1)] = Some msg"
    by (simp add: directive_text_def c_consts)
  from vprintf_emits[OF console_keeps_out[OF assms(1,2), of "out d1"] _ this, of d1] have "out d' = out d1"
    using p by (auto simp: uart_printf_def)
  then show "tick_secs t' = tick_secs t + 1" "tick_led_on t' = (\<not> tick_led_on t)" "bit (out d') 21 = tick_led_on t'"
    using assms(2) by (simp_all add: t d1_def bit_simps LED0_def)
qed

section \<open>Properties\<close>

text \<open>
  C4. The kernel starts: with devices that answer, \<^verbatim>\<open>kmain\<close> reaches the first dispatch. P1 is then running,
  P2 and the motor task are ready; the free memory is all of it but the kernel's sections and the
  section of the boot page table; the exception vectors lead to their handlers, interrupts are unmasked,
  the interrupts of the two ports and of timer 2 lead to their routines and all others to the default
  routine; both receive buffers are empty.
\<close>

theorem kernel_starts:
  assumes "console B UNIV tx" "kernel_devices B" "mapped_sections h \<noteq> 0x80000000" "kernel_boot s0"
  shows "\<exists>s. kmain B e l h s0 = Some s \<and> current_process (sched s) = Some 1 \<and>
    gcb_list (ready_queue (sched s)) = [2, 3] \<and> proc_state (processes (sched s) ! 1) = RUNNING \<and>
    free_sections (frame_pool s) = boot_pool h \<and>
    (\<forall>n < 8. vector_target (ram s) (vbar s + 4 * of_nat n) = Some (entry_list e ! n)) \<and> \<not> bit (kernel_io.cpsr s) 7 \<and>
    (\<forall>n < 128. irq_vector s n = (if n = 72 then Uart0_handler else if n = 73 then Uart1_handler
                                  else if n = 68 then Timer_handler 2 else Default_handler)) \<and>
    ccb_list (uart0_rx_buffer s) = [] \<and> ccb_list (uart1_rx_buffer s) = []"
proof -
  obtain s where s: "kmain B e l h s0 = Some s" "kernel_inv e h s" "sched_abs (sched s) = (Some 1, [2, 3])"
    "uart0_rx_buffer s = circular_char_buffer_init (uart0_rx_buffer s0)"
    "uart1_rx_buffer s = circular_char_buffer_init (uart1_rx_buffer s0)" "\<not> bit (kernel_io.cpsr s) 7"
    using kernel_inv_start[OF assms] by blast
  then show ?thesis
    using assms(4) char_fifo.contents_init init_frame_pool(2)[of h]
    by (auto simp: kernel_inv_def kernel_boot_def sched_inv_def sched_abs_def irq_vector_def nth_list_update)
qed

text \<open>
  C5. One round of P1 or P2: the task sends its heartbeat as a signed number and the line of \<^verbatim>\<open>yield\<close>, counts
  the heartbeat, leaves the other counters alone, saves its context into its own structure and no
  other, and hands over to the process that has waited longest, with itself at the end of the queue.
  A round whose counter is \<open>2^31\<close> has no defined result, as that number cannot be negated.
\<close>

theorem task_round_counts_and_yields:
  assumes "console B UNIV tx" "sched_inv (sched s)" "current_process (sched s) = Some i" "i \<in> {1, 2}"
    and "k = (if i = 1 then p1_heartbeat s else p2_heartbeat s)"
  shows "if k = 0x80000000 then task_round B i c s = None else
    (\<exists>s'. task_round B i c s = Some s' \<and>
       tx (dev s') = tx (dev s) @ heartbeat_line i k @ cstr ''Yielding...'' @ [13, 10] \<and>
       p1_heartbeat s' = p1_heartbeat s + (if i = 1 then 1 else 0) \<and>
       p2_heartbeat s' = p2_heartbeat s + (if i = 2 then 1 else 0) \<and> idle_proc_heartbeat s' = idle_proc_heartbeat s \<and>
       (\<exists>j. current_process (sched s') = Some j \<and>
          j # gcb_list (ready_queue (sched s')) = gcb_list (ready_queue (sched s)) @ [i]) \<and>
       (\<forall>j < 32. \<forall>w. get_word w (processes (sched s') ! j) =
          get_word w (if j = i then snd (execute save_context_asm (c, processes (sched s) ! i)) else processes (sched s) ! j)))"
proof -
  have len: "length (processes (sched s)) = 32" using assms(2) by (simp add: sched_inv_def sched_ok_def)
  have q: "\<exists>j. current_process sc' = Some j \<and> j # gcb_list (ready_queue sc') = gcb_list (ready_queue (sched s)) @ [i]"
    if "sched_abs sc' = rr_next 0 (sched_abs (sched s))" for sc'
    using rr_next_queue[OF that assms(3)] assms(4) by auto
  from assms(4) consider "i = 1" | "i = 2" by blast
  then show ?thesis
  proof cases
    case 1
    then show ?thesis
      using P1_round_state[OF assms(1-3), of c] P1_round_stuck[of s B c] assms(5) q len
      by (auto simp: task_round_def saved_words_def)
  next
    case 2
    then show ?thesis
      using P2_round_state[OF assms(1-3), of c] P2_round_stuck[of s B c] assms(5) q len
      by (auto simp: task_round_def saved_words_def)
  qed
qed

text \<open>
  C6. The kernel invariant: in every state reached from the start by the opening lines and the rounds of the
  current task and by interrupts of any source between them, exactly one of the 32 processes is running and P1, P2 and the motor task are each either that
  one or waiting; the interrupt table, the exception vectors and the frame allocator are as start-up
  left them; and a trap always finds a process to save the context to.
\<close>

theorem kernel_invariant:
  assumes "console B UNIV tx" "kernel_devices B" "mapped_sections h \<noteq> 0x80000000" "kernel_reachable B e l h s"
  shows "(\<exists>i. current_process (sched s) = Some i \<and> {j. j < 32 \<and> proc_state (processes (sched s) ! j) = RUNNING} = {i}) \<and>
    set (Scheduler.busy 0 (sched_abs (sched s))) = {1, 2, 3} \<and> free_sections (frame_pool s) = boot_pool h \<and>
    (\<forall>n < 8. vector_target (ram s) (vbar s + 4 * of_nat n) = Some (entry_list e ! n)) \<and>
    (\<forall>n < 128. irq_vector s n \<noteq> NULL_handler)"
proof -
  have "kernel_inv e h s" by (rule kernel_reachable_inv[OF assms(4,1,2,3)])
  then have inv: "sched_inv (sched s)" "current_process (sched s) \<noteq> None" "frame_pool s = init_frame_allocator h frames_initial"
    "\<forall>n < 8. vector_target (ram s) (vbar s + 4 * of_nat n) = Some (entry_list e ! n)"
    "\<forall>n < 128. irq_vector s n \<noteq> NULL_handler"
    by (simp_all add: kernel_inv_def irq_vector_def nth_list_update)
  then obtain i where i: "current_process (sched s) = Some i" by auto
  then have "i \<in> set (Scheduler.busy 0 (sched_abs (sched s)))"
    using inv(1) by (simp add: sched_inv_def Scheduler.busy_def sched_abs_def)
  then have "i < 32" using inv(1) by (auto simp: sched_inv_def)
  then show ?thesis using i inv init_frame_pool(2)[of h] by (auto simp: sched_inv_def)
qed

text \<open>A board whose devices answer at once.\<close>

definition ex_board :: "u8 list bus" where
  "ex_board = \<lparr>
     bus_read = (\<lambda>a d.
       (if a = UART0_BASE + UART_LSR_UART_OFF then 0x20
        else if a = INTC_BASE_ADDR + INTC_STATUS_OFF \<or> a = UART0_BASE + UART_SYSS_OFF \<or> a = UART1_BASE + UART_SYSS_OFF then 1
        else if a = CM_DPLL_BASE + timer_pll_clksel_off ! 2 then 2 else 0, d)),
     bus_write = (\<lambda>a v d. if a = UART0_BASE + UART_THR_OFF then d @ [ucast v] else d)\<rparr>"

lemma ex_board_ok: "console ex_board UNIV (\<lambda>d. d)" "kernel_devices ex_board"
  by (auto simp: console_def kernel_devices_def intc_ready_def timer_ready_def ex_board_def timer_pll_clksel_off_def
      timer_base_def c_consts intro!: responds_0)

definition ex_statics :: "'d \<Rightarrow> 'd kernel" where
  "ex_statics d = \<lparr>dev = d, intc_vector_table = replicate 128 NULL_handler, cpsr = 0x1D3, vbar = 0, ram = (\<lambda>_. 0),
     uart0_rx_buffer = ex_empty_buffer, uart1_rx_buffer = ex_empty_buffer, motors = [ex_motor, ex_motor],
     timer_tick_funcs = replicate 8 None, frame_pool = frames_initial, sched = ex_sched, idle_proc_heartbeat = 0,
     p1_heartbeat = 0, p2_heartbeat = 0, motor_line = replicate 10 0\<rparr>"

definition ex_header :: bootloader_header_t where
  "ex_header = \<lparr>bl_magic = 0x2B2B2B2B, boot_table_entry_addr = 0x90000000, mapped_sections = 3\<rparr>"

lemma ex_boot_ok: "kernel_boot (ex_statics d)" "mapped_sections ex_header \<noteq> 0x80000000"
  using ex_sched_boot ex_empty_buffer_ok
  by (auto simp: kernel_boot_def ex_statics_def table_ok_def NUM_INTERRUPTS_def ex_header_def ccb_array_ok_def
      ex_empty_buffer_def circular_char_buffer_init_def)

theorem kernel_starts_witness:
  "\<exists>s. kmain ex_board ex_entries ex_links ex_header (ex_statics []) = Some s \<and> current_process (sched s) = Some 1 \<and>
       irq_vector s 72 = Uart0_handler"
  using kernel_starts[OF ex_board_ok ex_boot_ok(2) ex_boot_ok(1)[of "[]"], of ex_entries ex_links] by auto

theorem task_round_counts_and_yields_witness:
  "\<exists>s s'. kmain ex_board ex_entries ex_links ex_header (ex_statics []) = Some s \<and> task_round ex_board 1 ex_cpu s = Some s' \<and>
     p1_heartbeat s' = 1 \<and> current_process (sched s') = Some 2"
proof -
  obtain s where s: "kmain ex_board ex_entries ex_links ex_header (ex_statics []) = Some s"
    "kernel_inv ex_entries ex_header s" "sched_abs (sched s) = (Some 1, [2, 3])" "p1_heartbeat s = 0"
    using kernel_inv_start[OF ex_board_ok ex_boot_ok(2) ex_boot_ok(1)[of "[]"], of ex_entries ex_links] by blast
  have "sched_inv (sched s)" "current_process (sched s) = Some 1" "1 \<in> {1, 2 :: nat}"
    "0 = (if (1 :: nat) = 1 then p1_heartbeat s else p2_heartbeat s)"
    using s(2-4) by (simp_all add: kernel_inv_def sched_abs_def)
  from task_round_counts_and_yields[OF ex_board_ok(1) this, of ex_cpu] s show ?thesis
    by (auto simp: sched_abs_def)
qed

theorem kernel_invariant_witness:
  "\<exists>s. kernel_reachable ex_board ex_entries ex_links ex_header s \<and> (\<forall>n < 128. irq_vector s n \<noteq> NULL_handler)"
proof -
  obtain s where "kmain ex_board ex_entries ex_links ex_header (ex_statics []) = Some s"
    using kernel_inv_start[OF ex_board_ok ex_boot_ok(2) ex_boot_ok(1)[of "[]"]] by blast
  then have "kernel_reachable ex_board ex_entries ex_links ex_header s" by (rule kernel_reachable.start[OF ex_boot_ok(1)])
  then show ?thesis using kernel_invariant[OF ex_board_ok ex_boot_ok(2)] by blast
qed

end
