(* ===== verification/Boot.thy ===== *)
theory Boot
  imports Bootloader Kernel Mmc Ddr
begin

text \<open>
  The boot loader as one program, \<^verbatim>\<open>__BootloaderEntry\<close> of \<^verbatim>\<open>boot/bootloader.c\<close>: the pins, the interrupt
  controller and the console, the memory, the card, and then the loading of the kernel that
  \<^verbatim>\<open>Bootloader\<close> describes, with every message it prints.

  The file system reads through \<open>card_sector\<close>, which is \<^verbatim>\<open>mmc_read_sector\<close> on the device state at the
  mount. On a card that delivers its sectors the result of a read depends only on its number, and a
  sequence of reads that hands the device from one to the next returns the same sectors
  (\<open>reads_from_card\<close>), so nothing is lost by that. The messages of the load touch only the console and
  the load does not, so they follow it, in the order of the code; what they say depends on how far the
  load went.
\<close>

section \<open>Devices\<close>

definition LED_PINS :: u32 where [c_consts]: "LED_PINS = push_bit 21 0xF"

definition boot_ports ::
    "'d bus \<Rightarrow> asm_entries \<Rightarrow> ('d, 'm) uart_io_scheme \<Rightarrow> ('d, 'm) uart_io_scheme option" where
  "boot_ports B e s = do {
     s \<leftarrow> run_dev (GPIO_init B) s;
     let s = on_dev (GpioSetPinMode B GPIO1_BASE LED_PINS GpioPinOut) s;
     let s = on_dev (GPIO_set B GPIO1_BASE LED0) s;
     s \<leftarrow> system_interrupt_init B e s;
     uart_init B 0 115200 1 0 0 0 8 s
   }"

text \<open>The unused test routine of \<^verbatim>\<open>bootloader.c\<close> is the same sequence.\<close>

definition gpio_test ::
    "'d bus \<Rightarrow> asm_entries \<Rightarrow> ('d, 'm) uart_io_scheme \<Rightarrow> ('d, 'm) uart_io_scheme option" where
  "gpio_test B e s = do {
     s \<leftarrow> run_dev (GPIO_init B) s;
     let s = on_dev (GpioSetPinMode B GPIO1_BASE LED_PINS GpioPinOut) s;
     let s = on_dev (GPIO_set B GPIO1_BASE LED0) s;
     s \<leftarrow> system_interrupt_init B e s;
     uart_init B 0 115200 1 0 0 0 8 s
   }"

text \<open>
  The blinking test of \<^verbatim>\<open>boot/gpio_test.h\<close>: its opening and one round of its endless loop. The delays between
  the steps only count a local variable down.
\<close>

definition blink_start :: "'d bus \<Rightarrow> 'd \<Rightarrow> 'd option" where
  "blink_start B d = do { d \<leftarrow> GPIO_init B d; Some (GPIO_set B GPIO1_BASE LED0 d) }"

definition blink_round :: "'d bus \<Rightarrow> 'd \<Rightarrow> 'd" where
  "blink_round B d = GPIO_clear B GPIO1_BASE LED_PINS (GPIO_set B GPIO1_BASE LED_PINS d)"

lemma blink_round_pins: "gpio_out B out \<Longrightarrow> out (blink_round B d) = out d AND NOT LED_PINS"
  by (simp add: blink_round_def) (auto intro!: bit_word_eqI simp: bit_simps)

abbreviation info :: "'d bus \<Rightarrow> string \<Rightarrow> 'd \<Rightarrow> 'd option" where
  "info B msg \<equiv> log_message B LOG_LEVEL_INFO (line msg) []"

definition boot_dram :: "'d bus \<Rightarrow> 'd \<Rightarrow> 'd option" where
  "boot_dram B d = do {
     d \<leftarrow> info B ''Bootloader started'' d;
     d \<leftarrow> info B ''Init DRAM'' d;
     d \<leftarrow> setup_memory B d;
     d \<leftarrow> info B ''Done DRAM!'' d;
     (result, d) \<leftarrow> test_ddr3_memory B d;
     d \<leftarrow> (if result = 0 then info B ''DDR Memory test SUCCESS'' d
           else log_message B LOG_LEVEL_WARN (line ''DDR Memory test FAILED'') [] d);
     info B ''Init ddr end'' d
   }"

definition boot_card :: "'d bus \<Rightarrow> 'd \<Rightarrow> 'd option" where
  "boot_card B d = do {
     d \<leftarrow> info B ''MMC Init'' d;
     d \<leftarrow> mmc_controller_init B d;
     info B ''FAT32 Init'' d
   }"

definition boot_devices ::
    "'d bus \<Rightarrow> asm_entries \<Rightarrow> ('d, 'm) uart_io_scheme \<Rightarrow> ('d, 'm) uart_io_scheme option" where
  "boot_devices B e s = do {
     s \<leftarrow> boot_ports B e s;
     s \<leftarrow> run_dev (boot_dram B) s;
     run_dev (boot_card B) s
   }"

section \<open>The card as a block device\<close>

definition card_sector :: "'d bus \<Rightarrow> 'd \<Rightarrow> u32 \<Rightarrow> u8 list option" where
  "card_sector B d sector =
     (case mmc_read_sector B sector d of
        Some (r, bs, d') \<Rightarrow> if r = 0 then bs else None
      | None \<Rightarrow> None)"

text \<open>Reads in sequence, each on the device the one before it left.\<close>

fun card_sectors :: "'d bus \<Rightarrow> u32 list \<Rightarrow> 'd \<Rightarrow> (u8 list list \<times> 'd) option" where
  "card_sectors B [] d = Some ([], d)"
| "card_sectors B (sector # rest) d = do {
     (r, bs, d) \<leftarrow> mmc_read_sector B sector d;
     bs \<leftarrow> (if r = 0 then bs else None);
     (bss, d) \<leftarrow> card_sectors B rest d;
     Some (bs # bss, d)
   }"

section \<open>Messages of the load\<close>

text \<open>The two reports of \<^verbatim>\<open>os/mmu/mmu.c\<close> on a page table entry, printed.\<close>

definition print_l1_pte :: "'d bus \<Rightarrow> u32 \<Rightarrow> 'd \<Rightarrow> 'd option" where
  "print_l1_pte B v d =
     (case log_l1_pte v of
        None \<Rightarrow> uart_printf B (line ''Error: Supersection not supported on hardware, bit should not be set'') [] d
      | Some p \<Rightarrow> uart_printf B
          (line ''L1PageTableEntry { base: 0x%x, B: %u, C: %u, AP: %u %u, TEX: %u, Domain: %u, nG: %u, S: %u, XN: %u, NS: %u, type: %s }'')
          [VInt (pte_base p), VInt (pte_b p), VInt (pte_c p), VInt (pte_ap2 p), VInt (pte_ap p), VInt (pte_tex p),
           VInt (pte_domain p), VInt (pte_ng p), VInt (pte_s p), VInt (pte_xn p), VInt (pte_ns p), VStr (cstr (pte_type p))] d)"

definition print_vaddr_mappings :: "'d bus \<Rightarrow> u32 list \<Rightarrow> u32 \<Rightarrow> 'd \<Rightarrow> 'd option" where
  "print_vaddr_mappings B l1 vaddr d = do {
     d \<leftarrow> uart_printf B (line ''VADDR: 0x%x'') [VInt vaddr] d;
     print_l1_pte B (l1 ! unat (GET_L1_INDEX vaddr)) d
   }"

text \<open>The mapping loop prints the entry of its section from the table as it is in that round.\<close>

fun map_messages :: "'d bus \<Rightarrow> kernel_header_t \<Rightarrow> u32 list \<Rightarrow> nat list \<Rightarrow> 'd \<Rightarrow> 'd option" where
  "map_messages B h l1 [] d = Some d"
| "map_messages B h l1 (k # ks) d = do {
     d \<leftarrow> print_vaddr_mappings B (map_kernel_sections (Suc k) l1) (text_start h + word_of_nat k * MEM_SECTION_SIZE) d;
     map_messages B h l1 ks d
   }"

definition load_messages :: "'d bus \<Rightarrow> nat \<Rightarrow> 'd \<Rightarrow> 'd option" where
  "load_messages B n d = do {
     d \<leftarrow> (if 0 < n then info B ''Mounted FAT32 filesystem'' d else Some d);
     d \<leftarrow> (if 1 < n then info B ''Opened kernel.bin'' d else Some d);
     if 2 < n then log_message B LOG_LEVEL_INFO (line ''Copied kernel into memory at 0x%x'') [VInt MEM_PHYS_BASE] d
     else Some d
   }"

text \<open>The report on the load: the messages up to the panic, or all of them.\<close>

definition load_report :: "'d bus \<Rightarrow> boot_result + kernel_header_t \<Rightarrow> 'd \<Rightarrow> 'd option" where
  "load_report B r d =
     (case r of
        Inl (Panic_mount res) \<Rightarrow>
          panic B (line ''Failed to mount FAT32 filesystem: %s'') [VStr (cstr (fat32_geterror res))] d
      | Inl (Panic_open res) \<Rightarrow> do {
          d \<leftarrow> load_messages B 1 d;
          panic B (line ''Failed to open kernel.bin: %s'') [VStr (cstr (fat32_geterror res))] d }
      | Inl (Panic_read res) \<Rightarrow> do {
          d \<leftarrow> load_messages B 2 d;
          panic B (line ''Failed to read kernel.bin: %s (%d bytes)'')
            [VStr (cstr (fat32_geterror res)), VInt (word_of_int res)] d }
      | Inl (Panic_magic v) \<Rightarrow> do {
          d \<leftarrow> load_messages B 3 d;
          panic B (line ''Invalid kernel magic value: %x'') [VInt v] d }
      | _ \<Rightarrow> load_messages B 3 d)"

text \<open>\<open>m\<close> is the MMU state before the load.\<close>

definition enter_report :: "'d bus \<Rightarrow> mmu_state \<Rightarrow> kernel_header_t \<Rightarrow> 'd \<Rightarrow> 'd option" where
  "enter_report B m h d = do {
     d \<leftarrow> info B ''MMU Init'' d;
     d \<leftarrow> map_messages B h (boot_l1 (MMU_init m)) [0..<unat (kernel_sections h)] d;
     d \<leftarrow> info B ''Done mapping kernel code/data page!'' d;
     info B ''MMU Enable'' d
   }"

section \<open>The whole boot loader\<close>

text \<open>The entry point is read from memory again after the bss has been cleared.\<close>

definition BootloaderEntry ::
    "'d bus \<Rightarrow> asm_entries \<Rightarrow> u8 list \<Rightarrow> fat32_dir_entry_t \<Rightarrow> fat32_path_t \<Rightarrow> fat32_fs_t \<Rightarrow> fat32_file_t \<Rightarrow>
     boot_state \<Rightarrow> ('d, 'm) uart_io_scheme \<Rightarrow> (boot_result \<times> boot_state \<times> ('d, 'm) uart_io_scheme) option" where
  "BootloaderEntry B e behind junk junk_path fs file st s = do {
     s \<leftarrow> boot_devices B e s;
     (r, st) \<leftarrow> load_kernel behind junk junk_path fs file (card_sector B (dev s)) st;
     s \<leftarrow> run_dev (load_report B r) s;
     case r of
       Inl p \<Rightarrow> Some (p, st, s)
     | Inr h \<Rightarrow> do {
         s \<leftarrow> run_dev (enter_report B (boot_mmu st) h) s;
         let st = enter_kernel h st;
         let entry = kernel_entry (header_at (phys_mem st) MEM_PHYS_BASE);
         s \<leftarrow> run_dev (log_message B LOG_LEVEL_INFO (line ''Jumping to kernel entry at %x'') [VInt entry]) s;
         Some (Jump entry, st, s) } }"

section \<open>Reading through the card\<close>

lemma card_sector_eq:
  assumes "sd_card B I T arg fifo sectors" "d \<in> I" "\<forall>k. length (sectors k) = 512"
  shows "card_sector B d = (\<lambda>k. Some (sectors k))"
proof
  fix k
  obtain d' where "mmc_read_sector B k d = Some (0, Some (sectors k), d')" using card_read[OF assms(1,2)] assms(3) by blast
  then show "card_sector B d k = Some (sectors k)" by (simp add: card_sector_def)
qed

lemma reads_from_card:
  assumes "sd_card B I T arg fifo sectors" "\<forall>k. length (sectors k) = 512" "d \<in> I"
  shows "\<exists>d' \<in> I. card_sectors B ks d = Some (map sectors ks, d')"
  using assms(3)
proof (induction ks arbitrary: d)
  case (Cons k ks)
  obtain d1 where d1: "d1 \<in> I" "mmc_read_sector B k d = Some (0, Some (sectors k), d1)"
    using card_read[OF assms(1) Cons.prems] assms(2) by blast
  then show ?case using Cons.IH[OF d1(1)] by auto
qed simp

section \<open>Every step returns\<close>

definition boot_board :: "'d bus \<Rightarrow> 'd set \<Rightarrow> ('d \<Rightarrow> u8 list) \<Rightarrow> bool" where
  "boot_board B I tx \<longleftrightarrow> console B UNIV tx \<and> console B I tx \<and> kernel_devices B \<and>
     (\<forall>d. responds B (\<lambda>v. v AND 0x30000 \<noteq> 0) (CM_PER_BASE + CM_PER_GPIO1_CLKCTRL) d) \<and>
     (\<forall>d d'. mmc_controller_init B d = Some d' \<longrightarrow> d' \<in> I)"

lemma info_returns: "console B UNIV tx \<Longrightarrow> render fmt ap \<noteq> None \<Longrightarrow> log_message B level fmt ap d \<noteq> None"
  using log_answers by fastforce

lemma boot_renders:
  "render (line ''Bootloader started'') [] \<noteq> None" "render (line ''Init DRAM'') [] \<noteq> None"
  "render (line ''Done DRAM!'') [] \<noteq> None" "render (line ''DDR Memory test SUCCESS'') [] \<noteq> None"
  "render (line ''DDR Memory test FAILED'') [] \<noteq> None" "render (line ''Init ddr end'') [] \<noteq> None"
  "render (line ''MMC Init'') [] \<noteq> None" "render (line ''Mounted FAT32 filesystem'') [] \<noteq> None"
  "render (line ''Opened kernel.bin'') [] \<noteq> None" "render (line ''MMU Init'') [] \<noteq> None"
  "render (line ''Done mapping kernel code/data page!'') [] \<noteq> None" "render (line ''MMU Enable'') [] \<noteq> None"
  "render (line ''Copied kernel into memory at 0x%x'') [VInt v] \<noteq> None"
  "render (line ''Jumping to kernel entry at %x'') [VInt v] \<noteq> None"
  "render (line ''VADDR: 0x%x'') [VInt v] \<noteq> None"
  "render (line ''Invalid kernel magic value: %x'') [VInt v] \<noteq> None"
  by (simp_all add: directive_text_def c_consts)

lemma boot_dram_returns: "console B UNIV tx \<Longrightarrow> boot_dram B d \<noteq> None"
  unfolding boot_dram_def
  by (intro returns info_returns boot_renders setup_memory_returns test_ddr3_memory_returns) assumption+

lemma boot_card_ready:
  assumes "boot_board B I tx"
  shows "\<exists>d' \<in> I. boot_card B d = Some d'"
proof -
  have c: "console B UNIV tx" "console B I tx" and up: "\<And>d d'. mmc_controller_init B d = Some d' \<Longrightarrow> d' \<in> I"
    using assms by (auto simp: boot_board_def)
  obtain d1 where d1: "info B ''MMC Init'' d = Some d1" using info_returns[OF c(1) boot_renders(7)] by blast
  obtain d2 where d2: "mmc_controller_init B d1 = Some d2" using mmc_controller_init_returns[OF c(1)] by blast
  have "render (line ''FAT32 Init'') [] = Some (crlf (line ''FAT32 Init''))"
    by (rule render_plain) (simp add: NEWLINE_def)
  from log_total[OF c(2) up[OF d2] this, of LOG_LEVEL_INFO]
  obtain d3 where "info B ''FAT32 Init'' d2 = Some d3" "d3 \<in> I" by (auto simp: LOG_LEVEL_def)
  then show ?thesis unfolding boot_card_def d1 d2 Option.bind.bind_lunit by blast
qed

lemma boot_ports_ready:
  assumes "boot_board B I tx" "table_ok s"
  shows "\<exists>s'. boot_ports B e s = Some s' \<and> table_ok s' \<and> ccb_list (uart0_rx_buffer s') = ccb_list (circular_char_buffer_init (uart0_rx_buffer s)) \<and>
    irq_vector s' 72 = Uart0_handler"
proof -
  have k: "kernel_devices B" "intc_ready B" and g: "\<forall>d. responds B (\<lambda>v. v AND 0x30000 \<noteq> 0) (CM_PER_BASE + CM_PER_GPIO1_CLKCTRL) d"
    using assms(1) by (simp_all add: boot_board_def kernel_devices_def)
  obtain d0 where "spin_while B (\<lambda>v. v AND 0x30000 \<noteq> 0) CM_PER_BASE CM_PER_GPIO1_CLKCTRL
      (REG32_write B CM_PER_BASE CM_PER_GPIO1_CLKCTRL 0x2 (dev s)) = Some d0" using spin_answers[OF g] by blast
  then obtain d1 where "run_dev (GPIO_init B) s = Some (s\<lparr>dev := d1\<rparr>)"
    by (simp add: run_dev_def GPIO_init_def)
  moreover define s1 where "s1 = on_dev (GPIO_set B GPIO1_BASE LED0) (on_dev (GpioSetPinMode B GPIO1_BASE LED_PINS GpioPinOut) (s\<lparr>dev := d1\<rparr>))"
  moreover obtain s2 where "system_interrupt_init B e s1 = Some s2"
    "\<exists>d. s2 = (CPU_irq_enable (setup_vector_table e s1))\<lparr>dev := d, intc_vector_table := replicate 128 Default_handler\<rparr>"
    using system_interrupt_init_state[of B s1 e] k(2) assms(2) by (auto simp: s1_def on_dev_def table_ok_def)
  moreover obtain d3 where "uart_init B 0 115200 1 0 0 0 8 s2 =
      Some (s2\<lparr>intc_vector_table := (intc_vector_table s2)[72 := Uart0_handler], dev := d3,
              uart0_rx_buffer := circular_char_buffer_init (uart0_rx_buffer s2)\<rparr>)"
    using uart_init0_state[OF k(1)] by blast
  ultimately show ?thesis
    by (auto simp: boot_ports_def table_ok_def irq_vector_def NUM_INTERRUPTS_def on_dev_def CPU_irq_enable_def setup_vector_table_def)
qed

lemma run_dev_returns: "f (dev s) \<noteq> None \<Longrightarrow> \<exists>d. run_dev f s = Some (s\<lparr>dev := d\<rparr>)"
  by (auto simp: run_dev_def)

lemma boot_devices_ready:
  assumes "boot_board B I tx" "table_ok s"
  shows "\<exists>s'. boot_devices B e s = Some s' \<and> dev s' \<in> I \<and> irq_vector s' 72 = Uart0_handler"
proof -
  have c: "console B UNIV tx" using assms(1) by (simp add: boot_board_def)
  obtain s1 where s1: "boot_ports B e s = Some s1" "irq_vector s1 72 = Uart0_handler"
    using boot_ports_ready[OF assms] by blast
  obtain d2 where d2: "boot_dram B (dev s1) = Some d2" using boot_dram_returns[OF c] by blast
  obtain d3 where "d3 \<in> I" "boot_card B d2 = Some d3" using boot_card_ready[OF assms(1)] by blast
  then show ?thesis using s1 d2 by (simp add: boot_devices_def run_dev_def irq_vector_def)
qed

lemma print_mapping_returns:
  assumes "console B UNIV tx"
  shows "print_vaddr_mappings B l1 v d \<noteq> None"
proof -
  have "render (line ''Error: Supersection not supported on hardware, bit should not be set'') [] \<noteq> None"
    "render (line ''L1PageTableEntry { base: 0x%x, B: %u, C: %u, AP: %u %u, TEX: %u, Domain: %u, nG: %u, S: %u, XN: %u, NS: %u, type: %s }'')
      [VInt a1, VInt a2, VInt a3, VInt a4, VInt a5, VInt a6, VInt a7, VInt a8, VInt a9, VInt a10, VInt a11, VStr t] \<noteq> None"
    for a1 a2 a3 a4 a5 a6 a7 a8 a9 a10 a11 t by (simp_all add: directive_text_def c_consts)
  note msgs = this[THEN printf_answers[OF assms]]
  have "print_l1_pte B w d \<noteq> None" for w d
    unfolding print_l1_pte_def using msgs(1)[of d] msgs(2)[of _ _ _ _ _ _ _ _ _ _ _ _ d]
    by (cases "log_l1_pte w") (simp_all only: option.case, blast+)
  moreover have "uart_printf B (line ''VADDR: 0x%x'') [VInt v] d \<noteq> None"
    using printf_answers[OF assms boot_renders(15)] by blast
  ultimately show ?thesis unfolding print_vaddr_mappings_def by (intro returns)
qed

lemma reports_return:
  assumes "console B UNIV tx"
  shows "load_report B (Inr h) d \<noteq> None" "load_report B (Inl (Panic_magic v)) d \<noteq> None" "enter_report B m h d \<noteq> None"
proof -
  note says = info_returns[OF assms] boot_renders
  have msgs: "load_messages B n d \<noteq> None" for n d unfolding load_messages_def by (intro returns says)
  show "load_report B (Inr h) d \<noteq> None" using msgs by (simp add: load_report_def)
  have "panic B (line ''Invalid kernel magic value: %x'') [VInt v] d \<noteq> None" for d
  proof -
    have "render (cstr ''PANIC: '') [] \<noteq> None" by (simp add: c_consts)
    then show ?thesis
      using printf_answers[OF assms] printf_answers[OF assms boot_renders(16)]
      unfolding panic_def uart_printf_def by (intro returns) blast+
  qed
  then show "load_report B (Inl (Panic_magic v)) d \<noteq> None"
    unfolding load_report_def sum.case boot_result.case using msgs by (intro returns)
  have "map_messages B h l1 ks d \<noteq> None" for l1 ks d
    by (induction ks arbitrary: d) (simp_all only: map_messages.simps, (intro returns print_mapping_returns[OF assms] | assumption)+)
  then show "enter_report B m h d \<noteq> None" unfolding enter_report_def by (intro returns says)
qed

lemma BootloaderEntry_result:
  assumes "boot_board B I tx" "sd_card B I T arg fifo sectors" "\<forall>k. length (sectors k) = 512" "table_ok s"
    and "fat32_mount behind (Some fs0) (Some (Some (\<lambda>k. Some (sectors k)))) = Some (FAT32_SUCCESS, Some fs)"
    and "path_closed fs (root_cluster fs) kernel_path"
    and "resolve fs (root_cluster fs) kernel_path = Inr (parent, e)"
    and "2 < entry_cluster e" "\<forall>k. k * cluster_bytes fs < unat (fileSize e) \<longrightarrow>
           cluster_ok fs (cluster_nth fs (entry_cluster e) k)"
    and "unat (fileSize e) < 2 ^ 31"
    and "bs = map (file_byte fs (entry_cluster e)) [0..<unat (fileSize e)]"
    and "st' = st\<lparr>phys_mem := store_bytes MEM_PHYS_BASE bs (phys_mem st)\<rparr>"
    and "h = header_at (phys_mem st') MEM_PHYS_BASE"
  shows "\<exists>s'. BootloaderEntry B entries behind junk junk_path fs0 file st s =
     Some (if kh_magic h = KERNEL_MAGIC
           then (Jump (kernel_entry (header_at (phys_mem (enter_kernel h st')) MEM_PHYS_BASE)), enter_kernel h st', s')
           else (Panic_magic (kh_magic h), st', s'))"
proof -
  have c: "console B UNIV tx" using assms(1) by (simp add: boot_board_def)
  obtain s1 where s1: "boot_devices B entries s = Some s1" "dev s1 \<in> I"
    using boot_devices_ready[OF assms(1,4)] by blast
  note load = boot_loads_file[OF assms(5-13), folded card_sector_eq[OF assms(2) s1(2) assms(3)]]
  show ?thesis
  proof (cases "kh_magic h = KERNEL_MAGIC")
    case True
    obtain d2 where d2: "run_dev (load_report B (Inr h)) s1 = Some (s1\<lparr>dev := d2\<rparr>)"
      using run_dev_returns[of "load_report B (Inr h)", OF reports_return(1)[OF c]] by blast
    obtain d3 where d3: "run_dev (enter_report B (boot_mmu st') h) (s1\<lparr>dev := d2\<rparr>) = Some (s1\<lparr>dev := d2\<rparr>\<lparr>dev := d3\<rparr>)"
      using run_dev_returns[of "enter_report B (boot_mmu st') h", OF reports_return(3)[OF c]] by blast
    let ?entry = "kernel_entry (header_at (phys_mem (enter_kernel h st')) MEM_PHYS_BASE)"
    obtain d4 where d4: "run_dev (log_message B LOG_LEVEL_INFO (line ''Jumping to kernel entry at %x'') [VInt ?entry])
        (s1\<lparr>dev := d2\<rparr>\<lparr>dev := d3\<rparr>) = Some (s1\<lparr>dev := d2\<rparr>\<lparr>dev := d3\<rparr>\<lparr>dev := d4\<rparr>)"
      using run_dev_returns[of "log_message B LOG_LEVEL_INFO (line ''Jumping to kernel entry at %x'') [VInt ?entry]",
          OF info_returns[OF c boot_renders(14)]] by blast
    show ?thesis
      unfolding BootloaderEntry_def s1(1) Option.bind.bind_lunit load prod.case if_P[OF True] d2 sum.case d3 Let_def d4 by blast
  next
    case False
    obtain d2 where d2: "run_dev (load_report B (Inl (Panic_magic (kh_magic h)))) s1 = Some (s1\<lparr>dev := d2\<rparr>)"
      using run_dev_returns[of "load_report B (Inl (Panic_magic (kh_magic h)))", OF reports_return(2)[OF c]] by blast
    then show ?thesis
      unfolding BootloaderEntry_def s1(1) Option.bind.bind_lunit load prod.case if_not_P[OF False] d2 sum.case by blast
  qed
qed

section \<open>Properties\<close>

text \<open>
  C3. The boot loader from reset to its end: on a board whose devices answer, with a card that
  delivers its sectors and holds a volume with \<^verbatim>\<open>/boot/kernel.bin\<close>, the pins, interrupts, console, memory
  and card are set up, the volume is mounted through the card driver, and the bytes of the file are in
  memory at the start of DRAM; then the boot loader jumps to the entry point found there with the
  machine prepared for the kernel, or stops because the magic value is wrong. It never hangs.
\<close>

theorem boot_from_card:
  assumes "boot_board B I tx" "sd_card B I T arg fifo sectors" "\<forall>k. length (sectors k) = 512" "table_ok s"
    and "fat32_mount behind (Some fs0) (Some (Some (\<lambda>k. Some (sectors k)))) = Some (FAT32_SUCCESS, Some fs)"
    and "path_closed fs (root_cluster fs) kernel_path"
    and "resolve fs (root_cluster fs) kernel_path = Inr (parent, e)"
    and "2 < entry_cluster e" "\<forall>k. k * cluster_bytes fs < unat (fileSize e) \<longrightarrow>
           cluster_ok fs (cluster_nth fs (entry_cluster e) k)"
    and "unat (fileSize e) < 2 ^ 31"
    and "bs = map (file_byte fs (entry_cluster e)) [0..<unat (fileSize e)]"
    and "st' = st\<lparr>phys_mem := store_bytes MEM_PHYS_BASE bs (phys_mem st)\<rparr>"
    and "h = header_at (phys_mem st') MEM_PHYS_BASE"
  shows "\<exists>s'. BootloaderEntry B entries behind junk junk_path fs0 file st s =
     Some (if kh_magic h = KERNEL_MAGIC
           then (Jump (kernel_entry (header_at (phys_mem (enter_kernel h st')) MEM_PHYS_BASE)), enter_kernel h st', s')
           else (Panic_magic (kh_magic h), st', s'))"
  using assms by (rule BootloaderEntry_result)

text \<open>A board with an idle console, the example volume on its card, and all clocks running.\<close>

definition ex_machine :: "(u8 list \<times> u32 \<times> u32 list) bus" where
  "ex_machine = \<lparr>
     bus_read = (\<lambda>a (t, g, ws).
       if a = MMCHS0_BASE + SD_STAT then (0x21, (t, g, ws))
       else if a = MMCHS0_BASE + SD_DATA then (case ws of [] \<Rightarrow> (0, (t, g, [])) | w # ws \<Rightarrow> (w, (t, g, ws)))
       else (fst (bus_read ex_board a t), (t, g, ws))),
     bus_write = (\<lambda>a v (t, g, ws).
       if a = MMCHS0_BASE + SD_ARG then (t, v, ws)
       else if a = MMCHS0_BASE + SD_CMD then (t, g, le_words (the (ex_read g)))
       else (bus_write ex_board a v t, g, ws))\<rparr>"

lemma ex_machine_board: "boot_board ex_machine UNIV fst"
  by (auto simp: boot_board_def console_def kernel_devices_def intc_ready_def timer_ready_def ex_machine_def ex_board_def
      timer_pll_clksel_off_def timer_base_def c_consts split_beta intro!: responds_0)

lemma ex_machine_card: "sd_card ex_machine UNIV (\<lambda>c r. if c = 0 \<and> r = 0 then UNIV else {}) (fst \<circ> snd) (snd \<circ> snd) (\<lambda>k. the (ex_read k))"
proof -
  have "responds ex_machine (\<lambda>v. v AND SD_PSTATE_CC \<noteq> SD_PSTATE_C_ALLOWED) (MMCHS0_BASE + SD_PSTATE) d" for d
    by (intro responds_0) (simp add: ex_machine_def ex_board_def timer_pll_clksel_off_def c_consts split_beta)
  moreover have "bit (0x21::u32) 0" "bit (0x21::u32) 5" "\<not> bit (0x21::u32) 16" "\<not> bit (0x21::u32) 20" by simp_all
  ultimately show ?thesis
    by (simp add: sd_card_def) (simp add: ex_machine_def c_consts split_beta)
qed

lemma ex_volume: "(\<lambda>k. Some (the (ex_read k))) = ex_read" "length (the (ex_read k)) = 512"
  by (auto simp: ex_read_def ex_mbr_def Fat32.ex_boot_def ex_fat_def ex_root_dir_def ex_boot_dir_def)

lemma ex_card_mount:
  "fat32_mount [0, 0] (Some ex_blank_fs) (Some (Some (\<lambda>k. Some (the (ex_read k))))) = Some (FAT32_SUCCESS, Some ex_fs)"
  by (simp only: ex_volume(1) ex_mount)

lemma ex_statics_table_ok: "table_ok (ex_statics d)"
  using ex_boot_ok(1)[of d] by (simp add: kernel_boot_def)

lemma ex_kernel_file:
  "map (file_byte ex_fs (entry_cluster (dir_entry_at ex_boot_dir 0)))
     [0..<unat (fileSize (dir_entry_at ex_boot_dir 0))] = ex_kernel_image"
  by (simp add: ex_kernel_found(3,4) ex_kernel_bytes)

theorem boot_from_card_witness:
  "\<exists>st' s'. BootloaderEntry ex_machine ex_entries [0, 0] ex_junk_dir ex_junk_path ex_blank_fs ex_blank_file ex_boot_state
     (ex_statics ([], 0, [])) = Some (Jump 0xA0000040, st', s') \<and> load32 (phys_mem st') 0x80000000 = KERNEL_MAGIC"
proof -
  note b = boot_from_card[OF ex_machine_board ex_machine_card _ ex_statics_table_ok ex_card_mount ex_kernel_found(1,2) _ _ _
      ex_kernel_file[symmetric] refl refl,
      of ex_entries ex_junk_dir ex_junk_path ex_blank_file ex_boot_state "([], 0, [])"]
  let ?st = "ex_boot_state\<lparr>phys_mem := store_bytes MEM_PHYS_BASE ex_kernel_image (phys_mem ex_boot_state)\<rparr>"
  have h: "header_at (phys_mem ?st) MEM_PHYS_BASE = ex_kernel_header" by (simp add: ex_loaded_header)
  have kept: "header_at (phys_mem (enter_kernel ex_kernel_header ?st)) MEM_PHYS_BASE = ex_kernel_header"
    unfolding ex_kernel_kept by (rule h)
  have magic: "kh_magic ex_kernel_header = KERNEL_MAGIC" and entry: "kernel_entry ex_kernel_header = 0xA0000040"
    by (simp_all add: ex_kernel_header_def)
  obtain s' where "BootloaderEntry ex_machine ex_entries [0, 0] ex_junk_dir ex_junk_path ex_blank_fs ex_blank_file ex_boot_state
      (ex_statics ([], 0, [])) = Some (Jump 0xA0000040, enter_kernel ex_kernel_header ?st, s')"
    using b[unfolded h kept entry if_P[OF magic]] ex_volume(2) ex_kernel_chain by (auto simp: ex_kernel_found(3,4))
  moreover have "load32 (phys_mem (enter_kernel ex_kernel_header ?st)) 0x80000000 = KERNEL_MAGIC"
    using kept magic by (metis header_at_def kernel_header_t.select_convs(1) MEM_PHYS_BASE_def)
  ultimately show ?thesis by blast
qed

section \<open>From reset to the first task\<close>

text \<open>
  C2. The machine boots: when the card holds a kernel image laid out by the linker script, the boot loader
  jumps to the entry point in its header, and \<^verbatim>\<open>kmain\<close>, started with the header the boot loader filled
  in and on the devices as it left them, reaches the first dispatch with P1 selected. The frame allocator
  then owns none of the sections the boot loader counted for the kernel and not the boot page table.
\<close>

theorem machine_boots:
  assumes "boot_board B I tx" "sd_card B I T arg fifo sectors" "\<forall>k. length (sectors k) = 512" "table_ok s"
    and "fat32_mount behind (Some fs0) (Some (Some (\<lambda>k. Some (sectors k)))) = Some (FAT32_SUCCESS, Some fs)"
    and "path_closed fs (root_cluster fs) kernel_path"
    and "resolve fs (root_cluster fs) kernel_path = Inr (parent, e)"
    and "2 < entry_cluster e" "\<forall>k. k * cluster_bytes fs < unat (fileSize e) \<longrightarrow>
           cluster_ok fs (cluster_nth fs (entry_cluster e) k)"
    and "unat (fileSize e) < 2 ^ 31"
    and "bs = map (file_byte fs (entry_cluster e)) [0..<unat (fileSize e)]"
    and "h = header_at (store_bytes MEM_PHYS_BASE bs (phys_mem st)) MEM_PHYS_BASE"
    and "kh_magic h = KERNEL_MAGIC" "linker_layout h n_text n_data n_bss" "kernel_boot s0"
  shows "\<exists>st' s' k. BootloaderEntry B entries behind junk junk_path fs0 file st s = Some (Jump (kernel_entry h), st', s') \<and>
    kmain B entries' l (boot_header st') (s0\<lparr>dev := dev s'\<rparr>) = Some k \<and>
    current_process (sched k) = Some 1 \<and> proc_state (processes (sched k) ! 1) = RUNNING \<and>
    MEM_BOOT_PAGE_TABLE_BASE \<notin> free_sections (frame_pool k) \<and>
    (\<forall>a \<in> free_sections (frame_pool k). unat MEM_PHYS_BASE + unat (kernel_sections h) * 0x100000 \<le> unat a)"
proof -
  let ?st = "st\<lparr>phys_mem := store_bytes MEM_PHYS_BASE bs (phys_mem st)\<rparr>"
  have h: "h = header_at (phys_mem ?st) MEM_PHYS_BASE" by (simp add: assms(12))
  obtain s' where s': "BootloaderEntry B entries behind junk junk_path fs0 file st s =
      Some (Jump (kernel_entry h), enter_kernel h ?st, s')"
    using BootloaderEntry_result[OF assms(1-11) refl h, of entries junk junk_path] assms(13)
      layout_header_kept[OF assms(14), of ?st] h by auto
  let ?h = "boot_header (enter_kernel h ?st)"
  have m: "mapped_sections ?h = kernel_sections h" by (simp add: enter_kernel_def Let_def)
  then have "mapped_sections ?h \<noteq> 0x80000000" using kernel_sections_bound[of h] by auto
  moreover have "kernel_boot (s0\<lparr>dev := dev s'\<rparr>)" using assms(15) by (simp add: kernel_boot_def table_ok_def)
  moreover have "console B UNIV tx" "kernel_devices B" using assms(1) by (simp_all add: boot_board_def)
  ultimately obtain k where k: "kmain B entries' l ?h (s0\<lparr>dev := dev s'\<rparr>) = Some k" "kernel_inv entries' ?h k"
    "sched_abs (sched k) = (Some 1, [2, 3])"
    using kernel_inv_start by blast
  have "free_sections (frame_pool k) = boot_pool ?h"
    using k(2) init_frame_pool(2)[of ?h] by (simp add: kernel_inv_def)
  then show ?thesis
    using s' k boot_pool_bounds(1)[of ?h] boot_pool_bounds(2)[of _ ?h] m by (intro exI[of _ "enter_kernel h ?st"] exI[of _ s'] exI[of _ k])
      (auto simp: kernel_inv_def sched_inv_def sched_abs_def)
qed

theorem machine_boots_witness:
  "\<exists>st' s' k. BootloaderEntry ex_machine ex_entries [0, 0] ex_junk_dir ex_junk_path ex_blank_fs ex_blank_file ex_boot_state
     (ex_statics ([], 0, [])) = Some (Jump 0xA0000040, st', s') \<and>
     kmain ex_machine ex_entries ex_links (boot_header st') (ex_statics (dev s')) = Some k \<and> current_process (sched k) = Some 1"
proof -
  have h: "ex_kernel_header = header_at (store_bytes MEM_PHYS_BASE ex_kernel_image (phys_mem ex_boot_state)) MEM_PHYS_BASE"
    by (simp add: ex_loaded_header)
  have magic: "kh_magic ex_kernel_header = KERNEL_MAGIC" and entry: "kernel_entry ex_kernel_header = 0xA0000040"
    by (simp_all add: ex_kernel_header_def)
  have d: "(ex_statics ([], 0, []))\<lparr>dev := d\<rparr> = ex_statics d" for d by (simp add: ex_statics_def)
  note b = machine_boots[OF ex_machine_board ex_machine_card _ ex_statics_table_ok ex_card_mount ex_kernel_found(1,2) _ _ _
      ex_kernel_file[symmetric] h magic ex_kernel_layout ex_boot_ok(1)[of "([], 0, [])"],
      of ex_entries ex_junk_dir ex_junk_path ex_blank_file "([], 0, [])" ex_entries ex_links, unfolded entry d]
  then show ?thesis using ex_volume(2) ex_kernel_chain by (auto simp: ex_kernel_found(3,4))
qed

end
