(* ===== verification/Qemu.thy ===== *)
theory Qemu
  imports Interrupts
begin

text \<open>
  The drivers of the emulator build, \<^verbatim>\<open>qemu/os/\<close>: the interrupt controller of the emulated Allwinner board
  (\<^verbatim>\<open>interrupts/interrupt.c\<close>, \<^verbatim>\<open>interrupt.h\<close>), its UART (\<^verbatim>\<open>drivers/uart.c\<close>, \<^verbatim>\<open>uart.h\<close>) and the empty GPIO driver.

  The state extends the kernel state of \<^verbatim>\<open>Interrupts\<close> by the receive buffer; names that both builds have
  carry the prefix \<open>qemu\<close>. The handler loop takes the meaning of a handler as the argument \<open>call\<close>, because a
  handler is any routine that has been registered; \<open>qemu_call\<close> is the one this build registers.
\<close>

section \<open>Registers\<close>

definition QEMU_INTC_BASE :: u32 where [c_consts]: "QEMU_INTC_BASE = 0x01C20400"

definition QEMU_UART0_BASE :: u32 where [c_consts]: "QEMU_UART0_BASE = 0x01C28000"

definition QEMU_UART0_INT_NUM :: u32 where [c_consts]: "QEMU_UART0_INT_NUM = 1"

text \<open>Offsets of the fields of the two register structures; the array fields have three words each.\<close>

definition IRQ_PEND :: "nat \<Rightarrow> u32" where [c_consts]: "IRQ_PEND i = 0x10 + 4 * of_nat i"

definition IRQ_TYPE_SEL :: "nat \<Rightarrow> u32" where [c_consts]: "IRQ_TYPE_SEL i = 0x30 + 4 * of_nat i"

definition INTC_ENABLE :: "nat \<Rightarrow> u32" where [c_consts]: "INTC_ENABLE i = 0x40 + 4 * of_nat i"

definition INTC_MASK :: "nat \<Rightarrow> u32" where [c_consts]: "INTC_MASK i = 0x50 + 4 * of_nat i"

definition RBR_THR_DLL :: u32 where [c_consts]: "RBR_THR_DLL = 0x00"

definition IER_DLH :: u32 where [c_consts]: "IER_DLH = 0x04"

definition IIR_FCR :: u32 where [c_consts]: "IIR_FCR = 0x08"

definition LCR :: u32 where [c_consts]: "LCR = 0x0C"

definition LSR :: u32 where [c_consts]: "LSR = 0x14"

definition UART_IER_RX_INT :: u32 where [c_consts]: "UART_IER_RX_INT = 0x01"

record 'd qemu_io = "'d kernel_io" +
  rx_buffer :: circular_char_buffer_t

section \<open>The interrupt controller\<close>

text \<open>A read-modify-write of one bit in word \<open>n / 32\<close> of an array field; past its three words it is undefined.\<close>

definition intc_field :: "'d bus \<Rightarrow> (nat \<Rightarrow> u32) \<Rightarrow> (u32 \<Rightarrow> u32) \<Rightarrow> nat \<Rightarrow> 'd \<Rightarrow> 'd option" where
  "intc_field B field f n d =
     (if n div 32 < 3 then
        let (v, d) = bus_read B (QEMU_INTC_BASE + field (n div 32)) d
        in Some (bus_write B (QEMU_INTC_BASE + field (n div 32)) (f v) d)
      else None)"

definition INTC_IRQ_ENABLE :: "'d bus \<Rightarrow> nat \<Rightarrow> 'd \<Rightarrow> 'd option" where
  "INTC_IRQ_ENABLE B n = intc_field B INTC_ENABLE (\<lambda>v. v OR push_bit (n mod 32) 1) n"

definition INTC_IRQ_DISABLE :: "'d bus \<Rightarrow> nat \<Rightarrow> 'd \<Rightarrow> 'd option" where
  "INTC_IRQ_DISABLE B n = intc_field B INTC_ENABLE (\<lambda>v. v AND NOT (push_bit (n mod 32) 1)) n"

definition INTC_IRQ_MASK :: "'d bus \<Rightarrow> nat \<Rightarrow> 'd \<Rightarrow> 'd option" where
  "INTC_IRQ_MASK B n = intc_field B INTC_MASK (\<lambda>v. v OR push_bit (n mod 32) 1) n"

definition INTC_IRQ_UNMASK :: "'d bus \<Rightarrow> nat \<Rightarrow> 'd \<Rightarrow> 'd option" where
  "INTC_IRQ_UNMASK B n = intc_field B INTC_MASK (\<lambda>v. v AND NOT (push_bit (n mod 32) 1)) n"

definition INTC_IRQ_IS_PENDING :: "'d bus \<Rightarrow> nat \<Rightarrow> 'd \<Rightarrow> (u32 \<times> 'd) option" where
  "INTC_IRQ_IS_PENDING B n d =
     (if n div 32 < 3 then
        let (v, d) = bus_read B (QEMU_INTC_BASE + IRQ_PEND (n div 32)) d in Some (v AND push_bit (n mod 32) 1, d)
      else None)"

text \<open>Two bits per interrupt, but 32 interrupts per word: from the seventeenth on the shift is undefined.\<close>

definition INTC_IRQ_SET_TYPE :: "'d bus \<Rightarrow> nat \<Rightarrow> u32 \<Rightarrow> 'd \<Rightarrow> 'd option" where
  "INTC_IRQ_SET_TYPE B n t d =
     (let sh = 2 * (n mod 32)
      in if sh < 32 then intc_field B IRQ_TYPE_SEL (\<lambda>v. (v AND NOT (push_bit sh 3)) OR push_bit sh t) n d else None)"

definition qemu_INTC_register_irq ::
    "u32 \<Rightarrow> handler \<Rightarrow> ('d, 'm) kernel_io_scheme \<Rightarrow> bool \<times> ('d, 'm) kernel_io_scheme" where
  "qemu_INTC_register_irq int_num h s =
     (if NUM_INTERRUPTS \<le> unat int_num then (False, s)
      else (True, s\<lparr>intc_vector_table := (intc_vector_table s)[unat int_num := h]\<rparr>))"

definition qemu_INTC_enable_irq ::
    "'d bus \<Rightarrow> u32 \<Rightarrow> ('d, 'm) kernel_io_scheme \<Rightarrow> (bool \<times> ('d, 'm) kernel_io_scheme) option" where
  "qemu_INTC_enable_irq B int_num s =
     (if NUM_INTERRUPTS \<le> unat int_num then Some (False, s)
      else do { s \<leftarrow> run_dev (INTC_IRQ_ENABLE B (unat int_num)) s; Some (True, s) })"

definition qemu_CPU_irq_enable :: "('d, 'm) kernel_io_scheme \<Rightarrow> ('d, 'm) kernel_io_scheme" where
  "qemu_CPU_irq_enable s = s\<lparr>cpsr := cpsr s AND NOT 0x80\<rparr>"

definition qemu_CPU_irq_disable :: "('d, 'm) kernel_io_scheme \<Rightarrow> ('d, 'm) kernel_io_scheme" where
  "qemu_CPU_irq_disable s = s\<lparr>cpsr := cpsr s OR 0x80\<rparr>"

definition qemu_INTC_init :: "('d, 'm) kernel_io_scheme \<Rightarrow> ('d, 'm) kernel_io_scheme" where
  "qemu_INTC_init s = s\<lparr>cpsr := cpsr s AND NOT 0x80\<rparr>"

text \<open>The entries in vector order; the second is \<^verbatim>\<open>undef_handler_asm\<close> here.\<close>

definition qemu_vector_table :: "asm_entries \<Rightarrow> u32 list" where
  "qemu_vector_table e = replicate 8 0xE59FF018 @ entry_list e"

definition qemu_setup_vector_table :: "asm_entries \<Rightarrow> ('d, 'm) kernel_io_scheme \<Rightarrow> ('d, 'm) kernel_io_scheme" where
  "qemu_setup_vector_table e s =
     s\<lparr>vbar := VECTOR_TABLE_DEST_ADDR,
       ram := foldl (\<lambda>m i. m(VECTOR_TABLE_DEST_ADDR + 4 * of_nat i := qemu_vector_table e ! i))
                (ram s) [0..<length (qemu_vector_table e)]\<rparr>"

definition qemu_system_interrupt_init :: "asm_entries \<Rightarrow> ('d, 'm) kernel_io_scheme \<Rightarrow> ('d, 'm) kernel_io_scheme" where
  "qemu_system_interrupt_init e s = qemu_INTC_init (qemu_CPU_irq_enable (qemu_setup_vector_table e s))"

section \<open>The lowest set bit\<close>

text \<open>\<^verbatim>\<open>__builtin_ctz\<close>; its result for 0 is undefined, and the loop calls it on other words only.\<close>

definition ctz :: "u32 \<Rightarrow> nat" where
  "ctz w = length (takeWhile (\<lambda>n. \<not> bit w n) [0..<32])"

definition set_bits :: "u32 \<Rightarrow> nat list" where
  "set_bits w = filter (bit w) [0..<32]"

lemma ctz_bit:
  assumes "w \<noteq> 0"
  shows "ctz w < 32" "bit w (ctz w)" "n < ctz w \<Longrightarrow> \<not> bit w n"
proof -
  let ?P = "\<lambda>n. \<not> bit w n"
  obtain m where "bit w m" using assms by (auto simp: bit_eq_iff)
  then have "m \<in> set [0..<32]" "\<not> ?P m" using bit_imp_le_length[of w m] by auto
  then have "takeWhile ?P [0..<32] \<noteq> [0..<32]" by (metis set_takeWhileD)
  then show l: "ctz w < 32"
    unfolding ctz_def by (metis length_takeWhile_le le_neq_implies_less length_upt diff_zero takeWhile_eq_take take_all_iff less_irrefl)
  then have "[0..<32] ! ctz w = ctz w" by simp
  moreover have "ctz w < length [0..<32]" using l by simp
  ultimately show "bit w (ctz w)" using nth_length_takeWhile[of ?P "[0..<32]"] by (simp add: ctz_def)
  show "n < ctz w \<Longrightarrow> \<not> bit w n"
  proof -
    assume "n < ctz w"
    then have "takeWhile ?P [0..<32] ! n = n" "n < length (takeWhile ?P [0..<32])"
      using l by (simp_all add: takeWhile_nth ctz_def)
    then have "n \<in> set (takeWhile ?P [0..<32])" by (metis nth_mem)
    then show "\<not> bit w n" by (metis set_takeWhileD)
  qed
qed

text \<open>\<^verbatim>\<open>w & (w - 1)\<close> clears the lowest set bit and nothing else.\<close>

lemma clear_lowest:
  assumes "w \<noteq> 0"
  shows "bit (w AND (w - 1)) n \<longleftrightarrow> bit w n \<and> n \<noteq> ctz w"
proof -
  let ?c = "ctz w" let ?u = "push_bit (Suc ?c) (drop_bit (Suc ?c) w)"
  note c = ctz_bit[OF assms]
  have "w = ?u OR push_bit ?c 1"
  proof (rule bit_word_eqI)
    fix n assume "n < LENGTH(32)"
    then show "bit w n = bit (?u OR push_bit ?c 1) n"
      using c(2) c(3)[of n] by (cases "n < ?c"; cases "n = ?c") (auto simp: bit_simps simp del: push_bit_Suc)
  qed
  also have "?u OR push_bit ?c 1 = ?u + push_bit ?c 1"
    by (rule disjunctive_add_eq_or[symmetric]) (rule bit_word_eqI, auto simp: bit_simps simp del: push_bit_Suc)
  finally have "w - 1 = ?u + mask ?c" by (simp add: mask_eq_exp_minus_1 push_bit_of_1 algebra_simps del: push_bit_Suc)
  also have "\<dots> = ?u OR mask ?c"
    by (rule disjunctive_add_eq_or) (rule bit_word_eqI, auto simp: bit_simps simp del: push_bit_Suc)
  finally have e: "w - 1 = ?u OR mask ?c" .
  show ?thesis
    unfolding e using c(1) c(3)[of n] bit_imp_le_length[of w n] by (cases "n < ?c"; cases "n = ?c") (auto simp: bit_simps simp del: push_bit_Suc)
qed

lemma set_bits_clear:
  assumes "w \<noteq> 0"
  shows "set_bits w = ctz w # set_bits (w AND (w - 1))"
proof -
  let ?c = "ctz w"
  note c = ctz_bit[OF assms]
  have split: "[0..<32] = [0..<?c] @ ?c # [Suc ?c..<32]"
    using c(1) by (metis le_add1 le_less upt_add_eq_append le_add_diff_inverse upt_conv_Cons add_0)
  have "filter (bit w) [0..<?c] = []" "filter (bit (w AND (w - 1))) [0..<?c] = []"
    "filter (bit (w AND (w - 1))) [Suc ?c..<32] = filter (bit w) [Suc ?c..<32]"
    using c(3) by (auto simp: filter_empty_conv clear_lowest[OF assms] intro!: filter_cong)
  then show ?thesis unfolding set_bits_def split using c(2) clear_lowest[OF assms, of ?c] by simp
qed

lemma set_bits_0 [simp]: "set_bits 0 = []"
  by (simp add: set_bits_def)

section \<open>The interrupt handler\<close>

text \<open>The two loops of \<^verbatim>\<open>handle_irq_c\<close>: over the set bits of a pending word, and over the three words.\<close>

type_synonym ('d, 'm) calls = "handler \<Rightarrow> ('d, 'm) kernel_io_scheme \<Rightarrow> ('d, 'm) kernel_io_scheme option"

definition serve_irq :: "('d, 'm) calls \<Rightarrow> nat \<Rightarrow> ('d, 'm) kernel_io_scheme \<Rightarrow> ('d, 'm) kernel_io_scheme option" where
  "serve_irq call irq s = (if irq_vector s irq \<noteq> NULL_handler then call (irq_vector s irq) s else Some s)"

function serve_pending ::
    "('d, 'm) calls \<Rightarrow> nat \<Rightarrow> u32 \<Rightarrow> ('d, 'm) kernel_io_scheme \<Rightarrow> ('d, 'm) kernel_io_scheme option" where
  "serve_pending call reg pending s =
     (if pending = 0 then Some s
      else do {
        s \<leftarrow> serve_irq call (32 * reg + ctz pending) s;
        serve_pending call reg (pending AND (pending - 1)) s
      })"
  by pat_completeness auto
termination
  by (relation "measure (\<lambda>(call, reg, pending, s). length (set_bits pending))") (auto simp: set_bits_clear)

declare serve_pending.simps [simp del]

fun serve_words ::
    "('d, 'm) calls \<Rightarrow> 'd bus \<Rightarrow> nat list \<Rightarrow> ('d, 'm) kernel_io_scheme \<Rightarrow> ('d, 'm) kernel_io_scheme option" where
  "serve_words call B [] s = Some s"
| "serve_words call B (reg # regs) s = do {
     let (pending, d) = bus_read B (QEMU_INTC_BASE + IRQ_PEND reg) (dev s);
     s \<leftarrow> serve_pending call reg pending (s\<lparr>dev := d\<rparr>);
     serve_words call B regs s
   }"

definition handle_irq_c ::
    "('d, 'm) calls \<Rightarrow> 'd bus \<Rightarrow> ('d, 'm) kernel_io_scheme \<Rightarrow> ('d, 'm) kernel_io_scheme option" where
  "handle_irq_c call B s = serve_words call B [0..<3] s"

text \<open>The reference: the interrupts of a word that are pending, in ascending order.\<close>

fun serve_list ::
    "('d, 'm) calls \<Rightarrow> nat list \<Rightarrow> ('d, 'm) kernel_io_scheme \<Rightarrow> ('d, 'm) kernel_io_scheme option" where
  "serve_list call [] s = Some s"
| "serve_list call (irq # irqs) s = do { s \<leftarrow> serve_irq call irq s; serve_list call irqs s }"

lemma serve_pending_0 [simp]: "serve_pending call reg 0 s = Some s"
  by (simp add: serve_pending.simps)

lemma serve_pending_eq: "serve_pending call reg w s = serve_list call (map ((+) (32 * reg)) (set_bits w)) s"
proof (induction call reg w s rule: serve_pending.induct)
  case (1 call reg w s)
  then show ?case
    by (cases "w = 0") (simp_all add: serve_pending.simps[of call reg w] set_bits_clear cong: Option.bind_cong)
qed

section \<open>The UART\<close>

definition qemu_uart_putc :: "'d bus \<Rightarrow> u8 \<Rightarrow> 'd \<Rightarrow> 'd option" where
  "qemu_uart_putc B c d = transmit_on B QEMU_UART0_BASE LSR RBR_THR_DLL c d"

definition qemu_uart_puts :: "'d bus \<Rightarrow> u8 list \<Rightarrow> 'd \<Rightarrow> 'd option" where
  "qemu_uart_puts B = puts (qemu_uart_putc B)"

definition qemu_print_number :: "'d bus \<Rightarrow> u32 \<Rightarrow> u8 \<Rightarrow> bool \<Rightarrow> 'd \<Rightarrow> 'd option" where
  "qemu_print_number B = number_out (qemu_uart_putc B)"

definition qemu_uart_vprintf :: "'d bus \<Rightarrow> u8 list \<Rightarrow> va list \<Rightarrow> 'd \<Rightarrow> 'd option" where
  "qemu_uart_vprintf B = format_out (qemu_uart_putc B)"

definition qemu_uart_printf :: "'d bus \<Rightarrow> u8 list \<Rightarrow> va list \<Rightarrow> 'd \<Rightarrow> 'd option" where
  "qemu_uart_printf B format ap d = qemu_uart_vprintf B format ap d"

definition qemu_uart_getc :: "'d bus \<Rightarrow> 'd \<Rightarrow> (u8 \<times> 'd) option" where
  "qemu_uart_getc B d = do {
     d \<leftarrow> spin_while B (\<lambda>v. v AND 1 = 0) QEMU_UART0_BASE LSR d;
     let (v, d) = REG32_read B QEMU_UART0_BASE RBR_THR_DLL d;
     Some (ucast v, d)
   }"

text \<open>The echoing handler, which is not registered anywhere; shifting a negative number is undefined.\<close>

definition uart_handler :: "'d bus \<Rightarrow> u32 \<Rightarrow> 'd \<Rightarrow> 'd option" where
  "uart_handler B irq d =
     (if irq <s 0 \<or> 0x40000000 \<le>s irq then None
      else
        let (v, d) = REG32_read B QEMU_UART0_BASE RBR_THR_DLL d;
            d = REG32_write B QEMU_INTC_BASE (IRQ_PEND 0) (push_bit 1 irq) d
        in qemu_uart_putc B (ucast v) d)"

definition qemu_uart0_interrupt_init ::
    "'d bus \<Rightarrow> ('d, 'm) kernel_io_scheme \<Rightarrow> ('d, 'm) kernel_io_scheme option" where
  "qemu_uart0_interrupt_init B s = do {
     let s = on_dev (REG32_write B QEMU_UART0_BASE IER_DLH 0) s;
     let s = on_dev (REG32_write B QEMU_UART0_BASE LCR 0x03) s;
     let s = on_dev (REG32_write B QEMU_UART0_BASE IIR_FCR 0x01) s;
     let s = on_dev (REG32_write B QEMU_UART0_BASE IER_DLH UART_IER_RX_INT) s;
     let (_, s) = qemu_INTC_register_irq QEMU_UART0_INT_NUM Uart0_handler s;
     (_, s) \<leftarrow> qemu_INTC_enable_irq B QEMU_UART0_INT_NUM s;
     Some s
   }"

text \<open>\<^verbatim>\<open>uart_init\<close> ignores all its arguments: the rate is fixed by the divisor.\<close>

definition qemu_uart_init :: "'d bus \<Rightarrow> ('d, 'm) qemu_io_scheme \<Rightarrow> ('d, 'm) qemu_io_scheme option" where
  "qemu_uart_init B s = do {
     let s = on_dev (REG32_write B QEMU_UART0_BASE IER_DLH 0x00) s;
     let s = on_dev (REG32_write B QEMU_UART0_BASE LCR 0x80) s;
     let s = on_dev (REG32_write B QEMU_UART0_BASE RBR_THR_DLL 13) s;
     let s = on_dev (REG32_write B QEMU_UART0_BASE IER_DLH 0x00) s;
     let s = on_dev (REG32_write B QEMU_UART0_BASE LCR 0x03) s;
     let s = on_dev (REG32_write B QEMU_UART0_BASE IIR_FCR 0x01) s;
     let s = s\<lparr>rx_buffer := circular_char_buffer_init (rx_buffer s)\<rparr>;
     qemu_uart0_interrupt_init B s
   }"

definition qemu_handle_uart0_irq :: "'d bus \<Rightarrow> ('d, 'm) qemu_io_scheme \<Rightarrow> ('d, 'm) qemu_io_scheme" where
  "qemu_handle_uart0_irq B s =
     (let (v, d) = REG32_read B QEMU_UART0_BASE RBR_THR_DLL (dev s);
          d = REG32_write B QEMU_INTC_BASE (IRQ_PEND 0) (push_bit 1 QEMU_UART0_INT_NUM) d
      in s\<lparr>dev := d, rx_buffer := snd (circular_char_buffer_push (rx_buffer s) (ucast v))\<rparr>)"

definition qemu_call :: "'d bus \<Rightarrow> handler \<Rightarrow> ('d, 'm) qemu_io_scheme \<Rightarrow> ('d, 'm) qemu_io_scheme option" where
  "qemu_call B h s = (if h = Uart0_handler then Some (qemu_handle_uart0_irq B s) else None)"

definition uart0_getchar :: "circular_char_buffer_t \<Rightarrow> (u8 \<times> circular_char_buffer_t) option" where
  "uart0_getchar q = circular_char_buffer_pop q"

text \<open>
  The loop of \<^verbatim>\<open>uart0_readline\<close>, recursive on the room that is left; a store behind the caller's array
  is undefined.
\<close>

fun uart0_readline_loop ::
    "nat \<Rightarrow> nat \<Rightarrow> u8 list \<Rightarrow> circular_char_buffer_t \<Rightarrow> (nat \<times> u8 list \<times> circular_char_buffer_t) option" where
  "uart0_readline_loop 0 i buffer q = Some (i, buffer, q)"
| "uart0_readline_loop (Suc room) i buffer q =
     (case uart0_getchar q of
        None \<Rightarrow> Some (i, buffer, q)
      | Some (c, q) \<Rightarrow>
          if length buffer \<le> i then None
          else if c = CARRIAGE_RETURN then Some (i + 1, buffer[i := 0], q)
          else uart0_readline_loop room (i + 1) (buffer[i := c]) q)"

definition uart0_readline ::
    "u8 list \<Rightarrow> u32 \<Rightarrow> ('d, 'm) qemu_io_scheme \<Rightarrow> (u32 \<times> u8 list \<times> ('d, 'm) qemu_io_scheme) option" where
  "uart0_readline buffer buffer_size s = do {
     (n, buffer, q) \<leftarrow> uart0_readline_loop (unat buffer_size) 0 buffer (rx_buffer s);
     Some (of_nat n, buffer, s\<lparr>rx_buffer := q\<rparr>)
   }"

section \<open>The GPIO driver\<close>

text \<open>All of it is empty.\<close>

definition qemu_GPIO_init :: "'d \<Rightarrow> 'd" where "qemu_GPIO_init d = d"

definition qemu_GpioSetPinMode :: "u32 \<Rightarrow> u32 \<Rightarrow> u32 \<Rightarrow> 'd \<Rightarrow> 'd" where "qemu_GpioSetPinMode Gpio PinMask dir d = d"

definition qemu_GPIO_set :: "u32 \<Rightarrow> u32 \<Rightarrow> 'd \<Rightarrow> 'd" where "qemu_GPIO_set gpio_base pins d = d"

definition qemu_GPIO_clear :: "u32 \<Rightarrow> u32 \<Rightarrow> 'd \<Rightarrow> 'd" where "qemu_GPIO_clear gpio_base pins d = d"

section \<open>Interfaces\<close>

interpretation qemu_intc: checked_handler_table NUM_INTERRUPTS unat table_ok qemu_INTC_register_irq irq_vector
  by unfold_locales (auto simp: qemu_INTC_register_irq_def table_ok_def irq_vector_def nth_list_update)

abbreviation qemu_console :: "'d bus \<Rightarrow> 'd set \<Rightarrow> ('d \<Rightarrow> u8 list) \<Rightarrow> bool" where
  "qemu_console B \<equiv> transmitter B QEMU_UART0_BASE LSR RBR_THR_DLL"

interpretation qemu_uart: char_output qemu_uart_putc qemu_console "\<lambda>s. s"
proof unfold_locales
  show "emits S tx (qemu_uart_putc B c) [c]" if "qemu_console B S tx" for B :: "'d bus" and S tx c
    using transmit_on_emits[OF that, of c] by (simp add: qemu_uart_putc_def[abs_def])
qed simp_all

section \<open>Reading a line\<close>

lemma readline_loop_spec:
  assumes "ccb_inv q" "i + room \<le> length buffer"
    and "typed = takeWhile (\<lambda>c. c \<noteq> CARRIAGE_RETURN) (take room (ccb_list q))"
    and "k = length typed + of_bool (CARRIAGE_RETURN \<in> set (take room (ccb_list q)))"
  shows "\<exists>q'. uart0_readline_loop room i buffer q =
      Some (i + k, take i buffer @ typed @ (if length typed < k then [0] else []) @ drop (i + k) buffer, q') \<and>
    ccb_inv q' \<and> ccb_list q' = drop k (ccb_list q)"
  using assms
proof (induction room arbitrary: i buffer q typed k)
  case 0
  then show ?case by simp
next
  case (Suc room)
  show ?case
  proof (cases "ccb_list q")
    case Nil
    then have "uart0_getchar q = None" using char_fifo.pop_empty[OF Suc.prems(1)] by (simp add: uart0_getchar_def)
    then show ?thesis using Nil Suc.prems by simp
  next
    case (Cons c cs)
    then obtain q1 where q1: "uart0_getchar q = Some (c, q1)" "ccb_inv q1" "ccb_list q1 = cs"
      using char_fifo.pop_cons[OF Suc.prems(1), of c cs] by (auto simp: uart0_getchar_def)
    have upd: "take (Suc i) (buffer[i := v]) = take i buffer @ [v]" "drop (Suc (i + n)) (buffer[i := v]) = drop (Suc (i + n)) buffer" for v n
      using Suc.prems(2) by (simp_all add: take_Suc_conv_app_nth)
    show ?thesis
    proof (cases "c = CARRIAGE_RETURN")
      case True
      then show ?thesis
        using Suc.prems q1 Cons by (auto simp: upd_conv_take_nth_drop)
    next
      case False
      define typed' where "typed' = takeWhile (\<lambda>c. c \<noteq> CARRIAGE_RETURN) (take room cs)"
      define k' where "k' = length typed' + of_bool (CARRIAGE_RETURN \<in> set (take room cs))"
      have l: "typed = c # typed'" "k = Suc k'" using Suc.prems(3,4) False Cons by (simp_all add: typed'_def k'_def)
      have "Suc i + room \<le> length (buffer[i := c])" using Suc.prems(2) by simp
      from Suc.IH[OF q1(2) this, of typed' k'] q1(3) typed'_def k'_def
      obtain q' where "uart0_readline_loop room (Suc i) (buffer[i := c]) q1 =
          Some (Suc i + k', take (Suc i) (buffer[i := c]) @ typed' @ (if length typed' < k' then [0] else []) @
            drop (Suc i + k') (buffer[i := c]), q')" "ccb_inv q'" "ccb_list q' = drop k' cs" by auto
      then show ?thesis using q1(1) False Suc.prems(2) Cons by (auto simp: l upd)
    qed
  qed
qed

section \<open>Typed characters\<close>

text \<open>
  What the path from the keyboard needs of the hardware: while characters \<open>inp d\<close> are waiting, interrupt 1 is
  the only one pending, and reading the receive register takes the first of them.
\<close>

definition qemu_keyboard :: "'d bus \<Rightarrow> ('d \<Rightarrow> u8 list) \<Rightarrow> bool" where
  "qemu_keyboard B inp \<longleftrightarrow>
     (\<forall>d. inp d \<noteq> [] \<longrightarrow>
        fst (bus_read B (QEMU_INTC_BASE + IRQ_PEND 0) d) = 2 \<and>
        (\<exists>v d'. bus_read B (QEMU_UART0_BASE + RBR_THR_DLL) d = (v, d') \<and> ucast v = hd (inp d) \<and> inp d' = tl (inp d))) \<and>
     (\<forall>d i. 0 < i \<and> i < 3 \<longrightarrow> fst (bus_read B (QEMU_INTC_BASE + IRQ_PEND i) d) = 0) \<and>
     (\<forall>d i. i < 3 \<longrightarrow> inp (snd (bus_read B (QEMU_INTC_BASE + IRQ_PEND i) d)) = inp d) \<and>
     (\<forall>d v. inp (bus_write B (QEMU_INTC_BASE + IRQ_PEND 0) v d) = inp d)"

fun qemu_interrupts :: "'d bus \<Rightarrow> nat \<Rightarrow> ('d, 'm) qemu_io_scheme \<Rightarrow> ('d, 'm) qemu_io_scheme option" where
  "qemu_interrupts B 0 s = Some s"
| "qemu_interrupts B (Suc n) s = do { s \<leftarrow> handle_irq_c (qemu_call B) B s; qemu_interrupts B n s }"

lemma set_bits_2: "set_bits 2 = [1]"
proof -
  have "bit (2::u32) n \<longleftrightarrow> n = 1" for n using bit_exp_iff[where 'a = "32 word", of 1 n] by auto
  then have "set_bits 2 = filter (\<lambda>n. n = 1) [0..<32]" unfolding set_bits_def by (intro filter_cong refl) blast
  then show ?thesis by (simp add: upt_rec)
qed

lemma one_interrupt:
  assumes "qemu_keyboard B inp" "inp (dev s) = c # cs" "irq_vector s 1 = Uart0_handler"
  shows "\<exists>d. handle_irq_c (qemu_call B) B s =
      Some (s\<lparr>dev := d, rx_buffer := snd (circular_char_buffer_push (rx_buffer s) c)\<rparr>) \<and> inp d = cs"
proof -
  let ?pend = "\<lambda>i d. bus_read B (QEMU_INTC_BASE + IRQ_PEND i) d"
  note kb = assms(1)[unfolded qemu_keyboard_def]
  have first: "fst (?pend 0 d) = 2" "\<exists>v d'. bus_read B (QEMU_UART0_BASE + RBR_THR_DLL) d = (v, d') \<and> ucast v = c \<and> inp d' = cs"
    if "inp d = c # cs" for d
    using kb[THEN conjunct1, rule_format, of d] that by auto
  have quiet: "0 < i \<Longrightarrow> i < 3 \<Longrightarrow> ?pend i d = (0, snd (?pend i d))" for i d
    using kb[THEN conjunct2, THEN conjunct1, rule_format, of i d] by (metis prod.collapse)
  have keep: "i < 3 \<Longrightarrow> inp (snd (?pend i d)) = inp d" "inp (bus_write B (QEMU_INTC_BASE + IRQ_PEND 0) v d) = inp d" for i d v
    using kb by blast+
  define d0 where "d0 = snd (?pend 0 (dev s))"
  have d0: "?pend 0 (dev s) = (2, d0)" "inp d0 = c # cs"
    using first(1)[OF assms(2)] keep(1)[of 0 "dev s"] assms(2) unfolding d0_def by (metis prod.collapse, simp)
  obtain v d1 where d1: "bus_read B (QEMU_UART0_BASE + RBR_THR_DLL) d0 = (v, d1)" "ucast v = c" "inp d1 = cs"
    using first(2)[OF d0(2)] by blast
  define d2 where "d2 = bus_write B (QEMU_INTC_BASE + IRQ_PEND 0) 2 d1"
  define d3 where "d3 = snd (?pend 1 d2)"
  define d4 where "d4 = snd (?pend 2 d3)"
  have d4: "?pend 1 d2 = (0, d3)" "?pend 2 d3 = (0, d4)" "inp d4 = cs"
    using quiet[of 1 d2] quiet[of 2 d3] keep d1(3) by (simp_all add: d2_def d3_def d4_def)
  let ?q = "snd (circular_char_buffer_push (rx_buffer s) c)"
  have "serve_pending (qemu_call B) 0 2 (s\<lparr>dev := d0\<rparr>) = Some (s\<lparr>dev := d2, rx_buffer := ?q\<rparr>)"
    using assms(3) d1(1,2)
    by (simp add: serve_pending_eq set_bits_2 serve_irq_def irq_vector_def qemu_call_def qemu_handle_uart0_irq_def reg_defs d2_def
        QEMU_UART0_INT_NUM_def)
  moreover have three: "[0..<3] = [0, 1, 2::nat]" by (simp add: upt_rec)
  ultimately have "handle_irq_c (qemu_call B) B s = Some (s\<lparr>dev := d4, rx_buffer := ?q\<rparr>)"
    using d0(1) d4(1,2) by (simp add: handle_irq_c_def three)
  then show ?thesis using d4(3) by blast
qed

lemma interrupts_fill_buffer:
  assumes "qemu_keyboard B inp" "inp (dev s) = cs @ rest" "irq_vector s 1 = Uart0_handler" "ccb_inv (rx_buffer s)"
    and "length (ccb_list (rx_buffer s)) + length cs \<le> 512"
  shows "\<exists>d q. qemu_interrupts B (length cs) s = Some (s\<lparr>dev := d, rx_buffer := q\<rparr>) \<and> inp d = rest \<and>
    ccb_inv q \<and> ccb_list q = ccb_list (rx_buffer s) @ cs"
  using assms(2-5)
proof (induction cs arbitrary: s)
  case Nil
  then show ?case by (intro exI[of _ "dev s"] exI[of _ "rx_buffer s"]) simp
next
  case (Cons c cs)
  obtain q where q: "circular_char_buffer_push (rx_buffer s) c = (True, q)" "ccb_inv q"
    "ccb_list q = ccb_list (rx_buffer s) @ [c]"
    using char_fifo.push_room[OF Cons.prems(3), of c] Cons.prems(4) by auto
  obtain d where d: "handle_irq_c (qemu_call B) B s = Some (s\<lparr>dev := d, rx_buffer := q\<rparr>)" "inp d = cs @ rest"
    using one_interrupt[OF assms(1), of s c "cs @ rest"] Cons.prems(1,2) q(1) by auto
  let ?s = "s\<lparr>dev := d, rx_buffer := q\<rparr>"
  have "\<exists>d' q'. qemu_interrupts B (length cs) ?s = Some (?s\<lparr>dev := d', rx_buffer := q'\<rparr>) \<and> inp d' = rest \<and>
      ccb_inv q' \<and> ccb_list q' = ccb_list (rx_buffer ?s) @ cs"
    using Cons.prems d(2) q(2,3) by (intro Cons.IH) (simp_all add: irq_vector_def)
  then show ?case using d(1) q(3) by auto
qed

section \<open>Properties\<close>

text \<open>
  C23. Interrupt dispatch of the emulator build: \<^verbatim>\<open>handle_irq_c\<close> ends, and for each of the three pending words
  in turn it serves exactly the interrupts whose bits were set when the word was read, each once and in
  ascending order, skipping those without a handler.
\<close>

theorem pending_interrupts_served_in_order:
  "handle_irq_c call B s = do {
     let (w0, d) = bus_read B (QEMU_INTC_BASE + 0x10) (dev s);
     s \<leftarrow> serve_list call (set_bits w0) (s\<lparr>dev := d\<rparr>);
     let (w1, d) = bus_read B (QEMU_INTC_BASE + 0x14) (dev s);
     s \<leftarrow> serve_list call (map ((+) 32) (set_bits w1)) (s\<lparr>dev := d\<rparr>);
     let (w2, d) = bus_read B (QEMU_INTC_BASE + 0x18) (dev s);
     serve_list call (map ((+) 64) (set_bits w2)) (s\<lparr>dev := d\<rparr>)
   } \<and> sorted_wrt (<) (set_bits w) \<and> set (set_bits w) = {n. bit w n}"
proof -
  have "IRQ_PEND 0 = 0x10" "IRQ_PEND 1 = 0x14" "IRQ_PEND 2 = 0x18" by (simp_all add: IRQ_PEND_def)
  moreover have "[0..<3] = [0, 1, 2::nat]" by (simp add: upt_rec)
  moreover have "map ((+) 0) xs = xs" for xs :: "nat list" by (simp add: map_idI)
  moreover have "serve_words call B (r # rs) = (\<lambda>s. do {
      let (w, d) = bus_read B (QEMU_INTC_BASE + IRQ_PEND r) (dev s);
      s \<leftarrow> serve_list call (map ((+) (32 * r)) (set_bits w)) (s\<lparr>dev := d\<rparr>);
      serve_words call B rs s })" for r rs
    by (rule ext) (simp add: serve_pending_eq)
  moreover have "serve_words call B [] = Some" by (rule ext) simp
  ultimately have "handle_irq_c call B s = do {
     let (w0, d) = bus_read B (QEMU_INTC_BASE + 0x10) (dev s);
     s \<leftarrow> serve_list call (set_bits w0) (s\<lparr>dev := d\<rparr>);
     let (w1, d) = bus_read B (QEMU_INTC_BASE + 0x14) (dev s);
     s \<leftarrow> serve_list call (map ((+) 32) (set_bits w1)) (s\<lparr>dev := d\<rparr>);
     let (w2, d) = bus_read B (QEMU_INTC_BASE + 0x18) (dev s);
     serve_list call (map ((+) 64) (set_bits w2)) (s\<lparr>dev := d\<rparr>) }"
    by (simp add: handle_irq_c_def del: serve_words.simps One_nat_def)
  moreover have "sorted_wrt (<) (set_bits w)" unfolding set_bits_def by (rule sorted_wrt_filter) simp
  moreover have "set (set_bits w) = {n. bit w n}" using bit_imp_le_length[of w] by (auto simp: set_bits_def)
  ultimately show ?thesis by blast
qed

text \<open>
  Lines in the emulator build: with an array of at least the given size, \<^verbatim>\<open>uart0_readline\<close> takes characters
  up to the first carriage return within that size. It stores what it took, with a zero byte in place of
  the carriage return if it found one and without a terminator otherwise, returns the number of bytes
  stored, and leaves the rest of the array and of the queue alone.
\<close>

theorem uart0_readline_result:
  assumes "ccb_inv (rx_buffer s)" "unat buffer_size \<le> length buffer"
    and "cs = take (unat buffer_size) (ccb_list (rx_buffer s))" "typed = takeWhile (\<lambda>c. c \<noteq> CARRIAGE_RETURN) cs"
    and "stored = typed @ (if CARRIAGE_RETURN \<in> set cs then [0] else [])"
  shows "\<exists>q. uart0_readline buffer buffer_size s =
      Some (of_nat (length stored), stored @ drop (length stored) buffer, s\<lparr>rx_buffer := q\<rparr>) \<and>
    ccb_inv q \<and> ccb_list q = drop (length stored) (ccb_list (rx_buffer s))"
proof -
  let ?k = "length typed + of_bool (CARRIAGE_RETURN \<in> set cs)"
  have k: "length stored = ?k" by (simp add: assms(5))
  have "\<exists>q'. uart0_readline_loop (unat buffer_size) 0 buffer (rx_buffer s) =
      Some (0 + ?k, take 0 buffer @ typed @ (if length typed < ?k then [0] else []) @ drop (0 + ?k) buffer, q') \<and>
    ccb_inv q' \<and> ccb_list q' = drop ?k (ccb_list (rx_buffer s))"
    by (rule readline_loop_spec[OF assms(1)]) (simp_all add: assms(2,3,4))
  then show ?thesis unfolding k[symmetric] by (auto simp: uart0_readline_def assms(5))
qed

text \<open>
  From the keyboard to the reader in the emulator build: the interrupts for a line and its carriage
  return put the characters into the empty receive buffer, and one call of \<^verbatim>\<open>uart0_readline\<close> then returns
  the line with a terminating zero, its length plus one, and leaves the buffer empty.
\<close>

theorem qemu_typed_line_is_read:
  assumes "qemu_keyboard B inp" "inp (dev s) = typed @ CARRIAGE_RETURN # rest" "CARRIAGE_RETURN \<notin> set typed"
    and "irq_vector s 1 = Uart0_handler" "ccb_inv (rx_buffer s)" "ccb_list (rx_buffer s) = []"
    and "length typed < 512" "length typed < unat n" "unat n \<le> length buffer"
  shows "\<exists>s1 s2. qemu_interrupts B (length typed + 1) s = Some s1 \<and>
    uart0_readline buffer n s1 = Some (of_nat (length typed + 1), typed @ 0 # drop (length typed + 1) buffer, s2) \<and>
    ccb_list (rx_buffer s2) = [] \<and> inp (dev s2) = rest"
proof -
  let ?cs = "typed @ [CARRIAGE_RETURN]"
  obtain d q where s1: "qemu_interrupts B (length ?cs) s = Some (s\<lparr>dev := d, rx_buffer := q\<rparr>)" "inp d = rest"
    "ccb_inv q" "ccb_list q = ?cs"
    using interrupts_fill_buffer[OF assms(1), of s ?cs rest] assms(2,4-7) by auto
  have "take (unat n) (ccb_list q) = ?cs" using s1(4) assms(8) by simp
  moreover have "takeWhile (\<lambda>c. c \<noteq> CARRIAGE_RETURN) ?cs = typed" using assms(3) by (induction typed) auto
  ultimately have "\<exists>q'. uart0_readline_loop (unat n) 0 buffer q =
      Some (length typed + 1, typed @ 0 # drop (length typed + 1) buffer, q') \<and> ccb_list q' = []"
    using readline_loop_spec[OF s1(3), of 0 "unat n" buffer typed "length typed + 1"] assms(9) s1(4) by auto
  then obtain q' where "uart0_readline_loop (unat n) 0 buffer q =
      Some (length typed + 1, typed @ 0 # drop (length typed + 1) buffer, q')" "ccb_list q' = []" by blast
  then have "uart0_readline buffer n (s\<lparr>dev := d, rx_buffer := q\<rparr>) =
      Some (of_nat (length typed + 1), typed @ 0 # drop (length typed + 1) buffer, s\<lparr>dev := d, rx_buffer := q'\<rparr>)"
    by (simp add: uart0_readline_def)
  then show ?thesis using s1(1,2) \<open>ccb_list q' = []\<close> by auto
qed

text \<open>Set-up of the emulator build: the port is registered under its number and its buffer is empty.\<close>

lemma qemu_uart_init_ok:
  assumes "table_ok s" "ccb_array_ok (rx_buffer s)"
  shows "\<exists>s'. qemu_uart_init B s = Some s' \<and> irq_vector s' 1 = Uart0_handler \<and> ccb_inv (rx_buffer s') \<and> ccb_list (rx_buffer s') = []"
  using char_fifo.inv_init[OF assms(2)] char_fifo.contents_init[OF assms(2)] assms(1)
  by (auto simp: qemu_uart_init_def qemu_uart0_interrupt_init_def qemu_INTC_register_irq_def qemu_INTC_enable_irq_def
      INTC_IRQ_ENABLE_def intc_field_def on_dev_def run_dev_def split_beta irq_vector_def table_ok_def c_consts)

text \<open>A keyboard with characters waiting.\<close>

definition ex_keyboard :: "u8 list bus" where
  "ex_keyboard = \<lparr>
     bus_read = (\<lambda>a d. if a = QEMU_INTC_BASE + IRQ_PEND 0 then (if d = [] then 0 else 2, d)
       else if a = QEMU_UART0_BASE + RBR_THR_DLL then (case d of [] \<Rightarrow> (0, []) | c # cs \<Rightarrow> (u32_of_u8 c, cs)) else (0, d)),
     bus_write = (\<lambda>a v d. d)\<rparr>"

lemma ex_keyboard_ok: "qemu_keyboard ex_keyboard (\<lambda>d. d)"
  by (auto simp: qemu_keyboard_def ex_keyboard_def u8_u32_u8 neq_Nil_conv c_consts less_Suc_eq numeral_3_eq_3)

definition ex_qemu :: "u8 list qemu_io" where
  "ex_qemu = \<lparr>dev = cstr ''hi'' @ [CARRIAGE_RETURN, 33], intc_vector_table = (replicate 128 NULL_handler)[1 := Uart0_handler],
     cpsr = 0x13, vbar = 0, ram = (\<lambda>_. 0), rx_buffer = circular_char_buffer_init
       \<lparr>ccb_buffer = replicate 512 0, ccb_head = 3, ccb_tail = 3, ccb_size = 0, ccb_lines = 0\<rparr>\<rparr>"

lemma ex_qemu_buffer: "ccb_inv (rx_buffer ex_qemu)" "ccb_list (rx_buffer ex_qemu) = []"
  using char_fifo.inv_init char_fifo.contents_init by (simp_all add: ex_qemu_def ccb_array_ok_def)

theorem qemu_typed_line_is_read_witness:
  "\<exists>s1 s2. qemu_interrupts ex_keyboard 3 ex_qemu = Some s1 \<and>
     uart0_readline (replicate 5 7) 5 s1 = Some (3, cstr ''hi'' @ [0, 7, 7], s2) \<and> dev s2 = [33]"
proof -
  have "irq_vector ex_qemu 1 = Uart0_handler" "dev ex_qemu = cstr ''hi'' @ CARRIAGE_RETURN # [33]"
    by (simp_all add: ex_qemu_def irq_vector_def)
  note read = qemu_typed_line_is_read[OF ex_keyboard_ok this(2) _ this(1) ex_qemu_buffer, of 5 "replicate 5 7"]
  have three: "length (cstr ''hi'') + 1 = 3" and drp: "drop 3 (replicate 5 (7::u8)) = [7, 7]" by (simp_all add: numeral_eq_Suc)
  have prems: "CARRIAGE_RETURN \<notin> set (cstr ''hi'')" "length (cstr ''hi'') < 512" "length (cstr ''hi'') < unat (5::u32)"
    "unat (5::u32) \<le> length (replicate 5 (7::u8))" by simp_all
  have w: "of_nat 3 = (3::u32)" by simp
  show ?thesis using read[OF prems, unfolded three drp w] by blast
qed

theorem uart0_readline_result_witness:
  "\<exists>q. uart0_readline (replicate 2 7) 2 (ex_qemu\<lparr>rx_buffer := snd (circular_char_buffer_push (rx_buffer ex_qemu) 65)\<rparr>) =
     Some (1, [65, 7], ex_qemu\<lparr>rx_buffer := q\<rparr>)"
proof -
  let ?q = "snd (circular_char_buffer_push (rx_buffer ex_qemu) 65)"
  have "ccb_inv ?q" "ccb_list ?q = [65]"
    using char_fifo.push_room[OF ex_qemu_buffer(1), of 65] ex_qemu_buffer(2) by auto
  then have "\<exists>q. uart0_readline (replicate 2 7) 2 (ex_qemu\<lparr>rx_buffer := ?q\<rparr>) =
      Some (of_nat (length [65::u8]), [65] @ drop (length [65::u8]) (replicate 2 7), (ex_qemu\<lparr>rx_buffer := ?q\<rparr>)\<lparr>rx_buffer := q\<rparr>)"
    using uart0_readline_result[of "ex_qemu\<lparr>rx_buffer := ?q\<rparr>" 2 "replicate 2 7" "[65]" "[65]" "[65]"] by auto
  then show ?thesis by (simp add: numeral_2_eq_2)
qed

end
