(* ===== verification/Arm.thy ===== *)
theory Arm
  imports Prelude
begin

text \<open>
  The processor as far as the assembly files of the repository use it: the register file with its
  banks, the status registers, two control registers and a memory of words, with one constructor of
  \<open>opcode\<close> per instruction form that occurs in \<^verbatim>\<open>boot/init.S\<close>, \<^verbatim>\<open>os/interrupts/interrupt_handlers.S\<close>,
  \<^verbatim>\<open>os/scheduler/scheduler_asm.S\<close> and \<^verbatim>\<open>qemu/os/interrupts/interrupt_handlers.S\<close>.

  Code is run in a straight line; the program counter is written only by jumps out of the listed
  code, and a call is the setting of the link register followed by the code of the callee. An access
  that is not word aligned and a switch to a mode that does not exist have no result.

  Two instructions of the repository have a result that the architecture leaves open. They are
  fields of \<open>processor\<close>: what a read of the saved status gives in System mode, which has none, and
  what the stack pointer is after a pop with write-back into the stack pointer itself.
\<close>

section \<open>State\<close>

datatype bank = Usr | Fiq | Irq | Svc | Abt | Und

datatype reg = R nat | R_fiq nat | SP bank | LR bank | PC

record arm =
  register_file :: "reg \<Rightarrow> u32"
  psr :: u32
  spsr_of :: "bank \<Rightarrow> u32"
  words :: "u32 \<Rightarrow> u32"
  sctlr_word :: u32
  actlr_word :: u32

record processor =
  sys_spsr :: u32
  popped_base :: "u32 \<Rightarrow> u32 \<Rightarrow> u32"

definition mode_bank :: "u32 \<Rightarrow> bank option" where
  "mode_bank v =
     (let m = v AND 0x1F in
      if m = 0x10 \<or> m = 0x1F then Some Usr else if m = 0x11 then Some Fiq else if m = 0x12 then Some Irq
      else if m = 0x13 then Some Svc else if m = 0x17 then Some Abt else if m = 0x1B then Some Und else None)"

definition bank_of :: "u32 \<Rightarrow> bank" where
  "bank_of v = (case mode_bank v of Some b \<Rightarrow> b | None \<Rightarrow> Usr)"

definition reg_of :: "bank \<Rightarrow> nat \<Rightarrow> reg" where
  "reg_of b r =
     (if r < 8 then R r else if r < 13 then (if b = Fiq then R_fiq r else R r)
      else if r = 13 then SP b else if r = 14 then LR b else PC)"

definition get :: "arm \<Rightarrow> nat \<Rightarrow> u32" where
  "get m r = register_file m (reg_of (bank_of (psr m)) r)"

definition put :: "nat \<Rightarrow> u32 \<Rightarrow> arm \<Rightarrow> arm" where
  "put r v m = m\<lparr>register_file := (register_file m)(reg_of (bank_of (psr m)) r := v)\<rparr>"

definition word_aligned :: "u32 \<Rightarrow> bool" where
  "word_aligned a \<longleftrightarrow> a AND 3 = 0"

definition load_word :: "u32 \<Rightarrow> arm \<Rightarrow> u32 option" where
  "load_word a m = (if word_aligned a then Some (words m a) else None)"

definition store_word :: "u32 \<Rightarrow> u32 \<Rightarrow> arm \<Rightarrow> arm option" where
  "store_word a v m = (if word_aligned a then Some (m\<lparr>words := (words m)(a := v)\<rparr>) else None)"

text \<open>
  A write to the fields of the status register that \<open>sel\<close> selects. User mode can write the flags
  only.
\<close>

definition write_psr :: "u32 \<Rightarrow> u32 \<Rightarrow> arm \<Rightarrow> arm option" where
  "write_psr sel v m =
     (let sel = (if psr m AND 0x1F = 0x10 then sel AND 0xFF000000 else sel);
          new = (psr m AND NOT sel) OR (v AND sel)
      in if mode_bank new = None then None else Some (m\<lparr>psr := new\<rparr>))"

definition read_spsr :: "processor \<Rightarrow> arm \<Rightarrow> u32" where
  "read_spsr P m = (if bank_of (psr m) = Usr then sys_spsr P else spsr_of m (bank_of (psr m)))"

section \<open>Instructions\<close>

datatype opcode =
    Mov nat nat
  | Mov_const nat u32
  | Sub_const nat nat u32
  | And_const nat nat u32
  | Orr_const nat nat u32
  | Bic_const nat nat u32
  | Ldr nat nat u32
  | Str nat nat u32
  | Ldr_at nat u32
  | Str_at nat u32
  | Stmfd "nat list"
  | Ldmfd "nat list"
  | Mrs_cpsr nat
  | Msr_cpsr_fc nat
  | Msr_cpsr_fc_const u32
  | Msr_cpsr_c_const u32
  | Cpsid_i u32
  | Mrs_spsr nat
  | Msr_spsr nat
  | Bl u32
  | Subs_pc nat u32
  | Mrc_sctlr nat
  | Mcr_sctlr nat
  | Mrc_actlr nat
  | Mcr_actlr nat
  | Clz nat nat
  | Rsb_const nat nat u32
  | Msr_cpsr_c nat
  | Ldr_index nat nat nat
  | Ldmfd_return "nat list"

text \<open>The leading zeros of a word, counted from bit 31.\<close>

definition count_leading_zeros :: "u32 \<Rightarrow> nat" where
  "count_leading_zeros w = length (takeWhile (\<lambda>k. \<not> bit w (31 - k)) [0..<32])"

text \<open>\<open>stmfd sp!\<close> stores the lowest register at the lowest address; \<open>ldmfd sp!\<close> reads them back.\<close>

fun store_words :: "u32 \<Rightarrow> u32 list \<Rightarrow> arm \<Rightarrow> arm" where
  "store_words a [] m = m"
| "store_words a (v # vs) m = store_words (a + 4) vs (m\<lparr>words := (words m)(a := v)\<rparr>)"

fun pop_words :: "processor \<Rightarrow> u32 \<Rightarrow> nat list \<Rightarrow> arm \<Rightarrow> arm" where
  "pop_words P a [] m = m"
| "pop_words P a (r # rs) m =
     pop_words P (a + 4) rs
       (put r (if r = 13 then popped_base P (words m a) (get m 13) else words m a) m)"

definition stmfd :: "nat list \<Rightarrow> arm \<Rightarrow> arm option" where
  "stmfd rs m =
     (let a = get m 13 - 4 * word_of_nat (length rs) in
      if word_aligned a then Some (put 13 a (store_words a (map (get m) rs) m)) else None)"

definition ldmfd :: "processor \<Rightarrow> nat list \<Rightarrow> arm \<Rightarrow> arm option" where
  "ldmfd P rs m =
     (let a = get m 13 in
      if word_aligned a then Some (pop_words P a rs (put 13 (a + 4 * word_of_nat (length rs)) m)) else None)"

fun step :: "processor \<Rightarrow> opcode \<Rightarrow> arm \<Rightarrow> arm option" where
  "step P (Mov d s) m = Some (put d (get m s) m)"
| "step P (Mov_const d v) m = Some (put d v m)"
| "step P (Sub_const d s v) m = Some (put d (get m s - v) m)"
| "step P (And_const d s v) m = Some (put d (get m s AND v) m)"
| "step P (Orr_const d s v) m = Some (put d (get m s OR v) m)"
| "step P (Bic_const d s v) m = Some (put d (get m s AND NOT v) m)"
| "step P (Ldr d b off) m = do { v \<leftarrow> load_word (get m b + off) m; Some (put d v m) }"
| "step P (Str d b off) m = store_word (get m b + off) (get m d) m"
| "step P (Ldr_at d a) m = do { v \<leftarrow> load_word a m; Some (put d v m) }"
| "step P (Str_at d a) m = store_word a (get m d) m"
| "step P (Stmfd rs) m = stmfd rs m"
| "step P (Ldmfd rs) m = ldmfd P rs m"
| "step P (Mrs_cpsr d) m = Some (put d (psr m) m)"
| "step P (Msr_cpsr_fc d) m = write_psr 0xFF0000FF (get m d) m"
| "step P (Msr_cpsr_fc_const v) m = write_psr 0xFF0000FF v m"
| "step P (Msr_cpsr_c_const v) m = write_psr 0xFF v m"
| "step P (Cpsid_i v) m = write_psr 0x9F (0x80 OR v) m"
| "step P (Mrs_spsr d) m = Some (put d (read_spsr P m) m)"
| "step P (Msr_spsr d) m =
     (if bank_of (psr m) = Usr then None else Some (m\<lparr>spsr_of := (spsr_of m)(bank_of (psr m) := get m d)\<rparr>))"
| "step P (Bl ret) m = Some (put 14 ret m)"
| "step P (Subs_pc s v) m =
     (let b = bank_of (psr m) in
      if b = Usr \<or> mode_bank (spsr_of m b) = None then None
      else Some ((put 15 (get m s - v) m)\<lparr>psr := spsr_of m b\<rparr>))"
| "step P (Mrc_sctlr d) m = Some (put d (sctlr_word m) m)"
| "step P (Mcr_sctlr d) m = Some (m\<lparr>sctlr_word := get m d\<rparr>)"
| "step P (Mrc_actlr d) m = Some (put d (actlr_word m) m)"
| "step P (Mcr_actlr d) m = Some (m\<lparr>actlr_word := get m d\<rparr>)"
| "step P (Clz d s) m = Some (put d (word_of_nat (count_leading_zeros (get m s))) m)"
| "step P (Rsb_const d s v) m = Some (put d (v - get m s) m)"
| "step P (Msr_cpsr_c d) m = write_psr 0xFF (get m d) m"
| "step P (Ldr_index d b i) m = do { v \<leftarrow> load_word (get m b + 4 * get m i) m; Some (put d v m) }"
| "step P (Ldmfd_return rs) m =
     (let b = bank_of (psr m) in
      if b = Usr \<or> mode_bank (spsr_of m b) = None then None
      else do { m' \<leftarrow> ldmfd P rs m; Some (m'\<lparr>psr := spsr_of m b\<rparr>) })"

fun run :: "processor \<Rightarrow> opcode list \<Rightarrow> arm \<Rightarrow> arm option" where
  "run P [] m = Some m"
| "run P (i # is) m = do { m \<leftarrow> step P i m; run P is m }"

text \<open>Exceptions: the address of the next instruction goes to the link register of the new mode.\<close>

definition take_exception :: "u32 \<Rightarrow> u32 \<Rightarrow> arm \<Rightarrow> arm" where
  "take_exception new_mode ret m =
     (let b = bank_of new_mode in
      m\<lparr>register_file := (register_file m)(LR b := ret), spsr_of := (spsr_of m)(b := psr m),
        psr := (psr m AND NOT 0x1F) OR new_mode OR 0x80\<rparr>)"

text \<open>
  At an interrupt the link register is four past the address to resume at; at a \<^verbatim>\<open>swi\<close> it is the
  address of the next instruction.
\<close>

definition take_irq :: "u32 \<Rightarrow> arm \<Rightarrow> arm" where
  "take_irq resume = take_exception 0x12 (resume + 4)"

definition take_swi :: "u32 \<Rightarrow> arm \<Rightarrow> arm" where
  "take_swi next = take_exception 0x13 next"

section \<open>Lemmas\<close>

lemma run_append: "run P (a @ b) m = do { m \<leftarrow> run P a m; run P b m }"
  by (induction a arbitrary: m) (auto split: Option.bind_splits)

lemma get_put: "get (put r v m) s = (if reg_of (bank_of (psr m)) r = reg_of (bank_of (psr m)) s then v else get m s)"
  by (simp add: get_def put_def)

lemma reg_of_eq: "r < 16 \<Longrightarrow> s < 16 \<Longrightarrow> reg_of b r = reg_of b s \<longleftrightarrow> r = s"
  by (auto simp: reg_of_def split: if_splits)

lemma get_put_reg [simp]: "r < 16 \<Longrightarrow> s < 16 \<Longrightarrow> get (put r v m) s = (if r = s then v else get m s)"
  by (simp add: get_put reg_of_eq)

lemma put_frame [simp]:
  "psr (put r v m) = psr m" "words (put r v m) = words m" "spsr_of (put r v m) = spsr_of m"
  "sctlr_word (put r v m) = sctlr_word m" "actlr_word (put r v m) = actlr_word m"
  by (simp_all add: put_def)

lemma get_frame [simp]:
  "get (m\<lparr>words := w\<rparr>) r = get m r" "get (m\<lparr>spsr_of := f\<rparr>) r = get m r"
  "get (m\<lparr>sctlr_word := v\<rparr>) r = get m r" "get (m\<lparr>actlr_word := v\<rparr>) r = get m r"
  by (simp_all add: get_def)

lemma store_words_frame [simp]:
  "psr (store_words a vs m) = psr m" "register_file (store_words a vs m) = register_file m"
  "spsr_of (store_words a vs m) = spsr_of m" "get (store_words a vs m) r = get m r"
  "sctlr_word (store_words a vs m) = sctlr_word m" "actlr_word (store_words a vs m) = actlr_word m"
  by (induction a vs m rule: store_words.induct) simp_all

lemma mode_bits: "mode_bank v = mode_bank (v AND 0x1F)"
  by (simp add: mode_bank_def and.assoc)

lemma word_aligned_mod: "word_aligned a \<longleftrightarrow> uint a mod 4 = 0"
proof -
  have "uint a AND 3 = uint a mod 4"
    using take_bit_eq_mask[of 2 "uint a"] take_bit_eq_mod[of 2 "uint a"] by (simp add: mask_eq_exp_minus_1)
  then have "uint (a AND 3) = uint a mod 4" by (simp add: uint_and)
  then show ?thesis by (metis word_aligned_def uint_0_iff)
qed

lemma aligned_offset [simp]:
  "word_aligned (a + 4 * b) = word_aligned a" "word_aligned (a - 4 * b) = word_aligned a"
proof -
  have "uint (a + 4 * b) mod 4 = uint a mod 4"
    by (simp add: uint_word_ariths mod_mod_cancel mod_simps)
  then show "word_aligned (a + 4 * b) = word_aligned a" by (simp add: word_aligned_mod)
  have "uint (a - 4 * b) mod 4 = (uint a - 4 * uint b) mod 4"
    by (simp add: uint_word_ariths mod_mod_cancel mod_simps)
  also have "\<dots> = uint a mod 4" by presburger
  finally have "uint (a - 4 * b) mod 4 = uint a mod 4" .
  then show "word_aligned (a - 4 * b) = word_aligned a" by (simp add: word_aligned_mod)
qed

text \<open>A block of words on the stack, and reading it back.\<close>

lemma four_times_eq:
  assumes "j < 0x40000000" "k < 0x40000000"
  shows "(4 * word_of_nat j :: u32) = 4 * word_of_nat k \<longleftrightarrow> j = k"
proof -
  have "unat (4 * word_of_nat i :: u32) = 4 * i" if "i < 0x40000000" for i
    using that unat_u32_of_nat[of "4 * i"] by simp
  then show ?thesis using assms by (metis mult_left_cancel zero_neq_numeral)
qed

lemma store_words_other:
  "(\<And>k. k < length vs \<Longrightarrow> x \<noteq> a + 4 * word_of_nat k) \<Longrightarrow> words (store_words a vs m) x = words m x"
proof (induction a vs m rule: store_words.induct)
  case (2 a v vs m)
  have "x \<noteq> a + 4 + 4 * word_of_nat k" if "k < length vs" for k
    using 2(2)[of "Suc k"] that by (simp add: algebra_simps)
  moreover have "x \<noteq> a" using 2(2)[of 0] by simp
  ultimately show ?case using 2(1) by simp
qed simp

lemma store_words_nth:
  "k < length vs \<Longrightarrow> length vs < 0x40000000 \<Longrightarrow> words (store_words a vs m) (a + 4 * word_of_nat k) = vs ! k"
proof (induction a vs m arbitrary: k rule: store_words.induct)
  case (2 a v vs m)
  show ?case
  proof (cases k)
    case 0
    have "a \<noteq> a + 4 + 4 * word_of_nat j" if "j < length vs" for j
      using four_times_eq[of 0 "Suc j"] that 2(3) by (simp add: algebra_simps)
    then have "words (store_words (a + 4) vs (m\<lparr>words := (words m)(a := v)\<rparr>)) a = v"
      by (subst store_words_other) auto
    then show ?thesis using 0 by simp
  next
    case (Suc j)
    then show ?thesis using 2(1)[of j] 2(2,3) by (simp add: algebra_simps)
  qed
qed simp

lemma pop_words_frame [simp]:
  "psr (pop_words P a rs m) = psr m" "words (pop_words P a rs m) = words m" "spsr_of (pop_words P a rs m) = spsr_of m"
  "sctlr_word (pop_words P a rs m) = sctlr_word m" "actlr_word (pop_words P a rs m) = actlr_word m"
  by (induction P a rs m rule: pop_words.induct) simp_all

lemma pop_words_other:
  "r < 16 \<Longrightarrow> r \<notin> set rs \<Longrightarrow> (\<And>x. x \<in> set rs \<Longrightarrow> x < 16) \<Longrightarrow> get (pop_words P a rs m) r = get m r"
  by (induction P a rs m rule: pop_words.induct) auto

lemma pop_words_nth:
  "k < length rs \<Longrightarrow> distinct rs \<Longrightarrow> 13 \<notin> set rs \<Longrightarrow> (\<And>x. x \<in> set rs \<Longrightarrow> x < 16) \<Longrightarrow>
   get (pop_words P a rs m) (rs ! k) = words m (a + 4 * word_of_nat k)"
proof (induction P a rs m arbitrary: k rule: pop_words.induct)
  case (2 P a r rs m)
  show ?case
  proof (cases k)
    case 0
    then show ?thesis using 2(3-5) by (simp add: pop_words_other)
  next
    case (Suc j)
    then show ?thesis using 2(1)[of j] 2(2-5) by (simp add: algebra_simps)
  qed
qed simp

lemma pop_words_file:
  "(\<And>r. r \<in> set rs \<Longrightarrow> reg_of (bank_of (psr m)) r \<noteq> x) \<Longrightarrow>
   register_file (pop_words P a rs m) x = register_file m x"
  by (induction P a rs m rule: pop_words.induct) (auto simp: put_def)

end
