(* ===== verification/Entry.thy ===== *)
theory Entry
  imports Arm
begin

text \<open>
  The start-up code of the boot loader, \<^verbatim>\<open>boot/init.S\<close>, and the interrupt entry of the emulator build,
  \<^verbatim>\<open>qemu/os/interrupts/interrupt_handlers.S\<close>, on the processor of \<^verbatim>\<open>Arm\<close>.

  The start-up code gives every mode a stack of its own and sets the control registers; it starts in
  whatever privileged mode the ROM leaves. The interrupt entry calls \<^verbatim>\<open>handle_irq_c\<close>, a C function, in
  the middle: it is the argument \<open>call\<close>, and what the calling convention promises of it is
  \<open>keeps_frame\<close>. An older interrupt entry in the same file, which no vector uses, is given as well.
\<close>

section \<open>Modes\<close>

definition MODE_FIQ :: u32 where [c_consts]: "MODE_FIQ = 0x11"
definition MODE_IRQ :: u32 where [c_consts]: "MODE_IRQ = 0x12"
definition MODE_Supervisor :: u32 where [c_consts]: "MODE_Supervisor = 0x13"
definition MODE_Abort :: u32 where [c_consts]: "MODE_Abort = 0x17"
definition MODE_Undef :: u32 where [c_consts]: "MODE_Undef = 0x1B"
definition MODE_Sys :: u32 where [c_consts]: "MODE_Sys = 0x1F"
definition I_F_BITS :: u32 where [c_consts]: "I_F_BITS = 0xC0"
definition STACK_SIZE :: u32 where [c_consts]: "STACK_SIZE = 0x1000"

section \<open>Start-up\<close>

definition set_stack :: "u32 \<Rightarrow> opcode list" where
  "set_stack new_mode = [Msr_cpsr_c_const (new_mode OR I_F_BITS), Mov 13 0, Sub_const 0 0 STACK_SIZE]"

definition init_code :: "u32 \<Rightarrow> opcode list" where
  "init_code stack_start =
     [Mov_const 0 stack_start] @
     set_stack MODE_IRQ @ set_stack MODE_FIQ @ set_stack MODE_Abort @ set_stack MODE_Undef @
     set_stack MODE_Supervisor @
     [Msr_cpsr_c_const (MODE_Sys OR I_F_BITS), Mov 13 0,
      Mrc_sctlr 0, Orr_const 0 0 0b100, Orr_const 0 0 (push_bit 11 0b11), Bic_const 0 0 (push_bit 30 1), Mcr_sctlr 0,
      Mrc_actlr 0, Orr_const 0 0 0b10, Mcr_actlr 0]"

section \<open>The interrupt entry of the emulator\<close>

text \<open>The list \<^verbatim>\<open>{R0-R12, LR}\<close>.\<close>

definition frame_regs :: "nat list" where
  "frame_regs = [0, 1, 2, 3, 4, 5, 6, 7, 8, 9, 10, 11, 12, 14]"

definition qemu_irq_save :: "opcode list" where
  "qemu_irq_save = [Stmfd frame_regs, Mrs_spsr 0, Stmfd [0], Mov_const 0 0]"

definition qemu_irq_restore :: "opcode list" where
  "qemu_irq_restore =
     [Ldmfd [0], Msr_spsr 0, Ldmfd frame_regs, Subs_pc 14 4]"

definition qemu_irq_handler_asm :: "processor \<Rightarrow> u32 \<Rightarrow> (arm \<Rightarrow> arm option) \<Rightarrow> arm \<Rightarrow> arm option" where
  "qemu_irq_handler_asm P ret call m = do {
     m \<leftarrow> run P qemu_irq_save m;
     m \<leftarrow> run P [Bl ret] m;
     m \<leftarrow> call m;
     run P qemu_irq_restore m
   }"

text \<open>
  An older entry, \<^verbatim>\<open>_irq_handler_asm\<close>, is in the file and in no vector: up to the jump into the routine at
  index \<open>31 - clz\<close> of the table, and from the restore that follows the jump in the text.
\<close>

definition PENDING_ADDRESS :: u32 where "PENDING_ADDRESS = 0x01C20400 + 0x10"

definition old_irq_entry :: "u32 \<Rightarrow> opcode list" where
  "old_irq_entry table =
     [Sub_const 14 14 4, Stmfd [0, 1, 2, 3, 12, 14], Mrs_spsr 12, Stmfd [12],
      Mov_const 1 PENDING_ADDRESS, Ldr 2 1 0, Clz 3 2, Rsb_const 2 3 31,
      Mrs_cpsr 14, Orr_const 14 14 MODE_Sys, Bic_const 14 14 0x80, Msr_cpsr_c 14, Stmfd [14],
      Mov_const 0 table, Ldr_index 15 0 2]"

definition old_irq_restore :: "opcode list" where
  "old_irq_restore =
     [Ldmfd [14], Cpsid_i MODE_IRQ, Ldmfd [12], Msr_spsr 12, Ldmfd_return [0, 1, 2, 3, 12, 15]]"

section \<open>Lemmas\<close>

text \<open>The status word with its control byte replaced.\<close>

definition psr_with :: "u32 \<Rightarrow> u32 \<Rightarrow> u32" where
  "psr_with x c = (x AND NOT 0xFF) OR (c AND 0xFF)"

lemma psr_with_mode: "psr_with x c AND 0x1F = c AND 0x1F"
proof -
  have "(x AND NOT 0xFF) AND 0x1F = 0" by (simp add: and.assoc)
  then show ?thesis by (simp add: psr_with_def bit.conj_disj_distrib2 and.assoc)
qed

lemma psr_with_again: "psr_with (psr_with x c) d = psr_with x d"
proof -
  have "(c AND 0xFF) AND NOT 0xFF = 0" by (simp add: and.assoc)
  moreover have "((x AND NOT 0xFF) AND NOT 0xFF) = x AND NOT 0xFF" by (simp only: and.assoc and.idem)
  ultimately show ?thesis by (simp only: psr_with_def bit.conj_disj_distrib2 or.right_neutral)
qed

lemma psr_with_byte: "psr_with x c AND 0xFF = c AND 0xFF"
proof -
  have "(x AND NOT 0xFF) AND 0xFF = 0" by (simp add: and.assoc)
  then show ?thesis by (simp add: psr_with_def bit.conj_disj_distrib2 and.assoc)
qed

lemma bank_of_simps:
  "v AND 0x1F = 0x10 \<Longrightarrow> bank_of v = Usr" "v AND 0x1F = 0x1F \<Longrightarrow> bank_of v = Usr"
  "v AND 0x1F = 0x11 \<Longrightarrow> bank_of v = Fiq" "v AND 0x1F = 0x12 \<Longrightarrow> bank_of v = Irq"
  "v AND 0x1F = 0x13 \<Longrightarrow> bank_of v = Svc" "v AND 0x1F = 0x17 \<Longrightarrow> bank_of v = Abt"
  "v AND 0x1F = 0x1B \<Longrightarrow> bank_of v = Und"
  by (simp_all add: bank_of_def mode_bank_def)

lemma mode_bank_psr_with: "mode_bank (psr_with x c) = mode_bank c"
  by (simp add: mode_bank_def psr_with_mode)

lemma bank_of_psr_with: "bank_of (psr_with x c) = bank_of c"
  by (simp add: bank_of_def mode_bank_psr_with)

lemma step_msr_c:
  assumes "psr m AND 0x1F \<noteq> 0x10" "mode_bank c \<noteq> None"
  shows "step P (Msr_cpsr_c_const c) m = Some (m\<lparr>psr := psr_with (psr m) c\<rparr>)"
proof -
  have "mode_bank ((psr m AND NOT 0xFF) OR (c AND 0xFF)) \<noteq> None"
    using mode_bank_psr_with[of "psr m" c] assms(2) by (simp add: psr_with_def)
  then show ?thesis unfolding step.simps write_psr_def Let_def psr_with_def using assms(1) by simp
qed

lemma mode_with_bits: "(c OR 0xC0) AND 0x1F = c AND (0x1F :: u32)"
  by (simp add: bit.conj_disj_distrib2)

lemma mode_bank_with_bits: "mode_bank (c OR 0xC0) = mode_bank c"
  by (simp add: mode_bank_def mode_with_bits)

lemma run_set_stack:
  assumes "psr m AND 0x1F \<noteq> 0x10" "mode_bank c = Some b"
  shows "run P (set_stack c) m = Some (m\<lparr>psr := psr_with (psr m) (c OR 0xC0),
    register_file := (register_file m)(SP b := register_file m (R 0), R 0 := register_file m (R 0) - 0x1000)\<rparr>)"
proof -
  have "bank_of (c OR 0xC0) = b" using assms(2) by (simp add: bank_of_def mode_bank_with_bits)
  then show ?thesis using step_msr_c[of m "c OR 0xC0" P] assms
    by (simp add: set_stack_def c_consts mode_bank_with_bits put_def get_def reg_of_def bank_of_psr_with fun_upd_twist
        del: step.simps(16))
qed

lemma init_code_effect:
  assumes "psr m AND 0x1F \<noteq> 0x10"
  shows "\<exists>m'. run P (init_code s0) m = Some m' \<and>
    register_file m' (SP Irq) = s0 \<and> register_file m' (SP Fiq) = s0 - 0x1000 \<and> register_file m' (SP Abt) = s0 - 0x2000 \<and>
    register_file m' (SP Und) = s0 - 0x3000 \<and> register_file m' (SP Svc) = s0 - 0x4000 \<and>
    register_file m' (SP Usr) = s0 - 0x5000 \<and> psr m' = psr_with (psr m) 0xDF \<and>
    sctlr_word m' = ((sctlr_word m OR 4) OR 0x1800) AND NOT 0x40000000 \<and> actlr_word m' = actlr_word m OR 2 \<and>
    words m' = words m"
proof -
  have b: "mode_bank 0x12 = Some Irq" "mode_bank 0x11 = Some Fiq" "mode_bank 0x17 = Some Abt"
    "mode_bank 0x1B = Some Und" "mode_bank 0x13 = Some Svc" "mode_bank 0xDF = Some Usr" "bank_of 0xDF = Usr"
    by (simp_all add: mode_bank_def bank_of_def)
  show ?thesis
    using assms
    by (simp add: init_code_def run_append run_set_stack c_consts b psr_with_mode psr_with_again mode_with_bits
        step_msr_c put_def get_def reg_of_def bank_of_psr_with del: step.simps(16))
qed

subsection \<open>The frame of the interrupt entry\<close>

text \<open>
  What the calling convention and the mode promise of the C handler: it returns in the mode it was
  called in, with its stack pointer and the fifteen words at it as they were, and it does not reach
  the stack pointers and link registers of other modes.
\<close>

definition keeps_frame :: "(arm \<Rightarrow> arm option) \<Rightarrow> arm \<Rightarrow> bool" where
  "keeps_frame call m \<longleftrightarrow> (case call m of None \<Rightarrow> False | Some m' \<Rightarrow>
     bank_of (psr m') = Irq \<and> (\<forall>b \<in> {Usr, Fiq, Svc, Abt, Und}. register_file m' (LR b) = register_file m (LR b)) \<and>
     (\<forall>b \<in> {Usr, Fiq, Irq, Svc, Abt, Und}. register_file m' (SP b) = register_file m (SP b)) \<and>
     (\<forall>k \<in> {0..<15}. words m' (register_file m (SP Irq) + 4 * word_of_nat k) = words m (register_file m (SP Irq) + 4 * word_of_nat k)))"

lemma keeps_frameE:
  assumes "keeps_frame call m" "f = register_file m (SP Irq)"
  obtains m' where "call m = Some m'" "bank_of (psr m') = Irq"
    "\<And>b. b \<noteq> Irq \<Longrightarrow> register_file m' (LR b) = register_file m (LR b)"
    "\<And>b. register_file m' (SP b) = register_file m (SP b)"
    "\<And>k. k < 15 \<Longrightarrow> words m' (f + 4 * word_of_nat k) = words m (f + 4 * word_of_nat k)"
proof -
  obtain m' where m': "call m = Some m'" using assms(1) by (auto simp: keeps_frame_def split: option.splits)
  then have k: "bank_of (psr m') = Irq" "\<forall>b \<in> {Usr, Fiq, Svc, Abt, Und}. register_file m' (LR b) = register_file m (LR b)"
    "\<forall>b \<in> {Usr, Fiq, Irq, Svc, Abt, Und}. register_file m' (SP b) = register_file m (SP b)"
    "\<forall>k \<in> {0..<15}. words m' (f + 4 * word_of_nat k) = words m (f + 4 * word_of_nat k)"
    using assms unfolding keeps_frame_def m' option.case by blast+
  have "register_file m' (LR b) = register_file m (LR b)" if "b \<noteq> Irq" for b using k(2) that by (cases b) simp_all
  moreover have "register_file m' (SP b) = register_file m (SP b)" for b using k(3) by (cases b) simp_all
  moreover have "words m' (f + 4 * word_of_nat k) = words m (f + 4 * word_of_nat k)" if "k < 15" for k
    using k(4) that by simp
  ultimately show ?thesis using that m' k(1) by blast
qed

lemma take_irq_state:
  "bank_of (psr (take_irq a m)) = Irq" "register_file (take_irq a m) = (register_file m)(LR Irq := a + 4)"
  "spsr_of (take_irq a m) Irq = psr m" "words (take_irq a m) = words m"
proof -
  have "((psr m AND NOT 0x1F) OR 0x12 OR 0x80) AND 0x1F = (0x12 :: u32)"
    by (simp add: bit.conj_disj_distrib2 and.assoc)
  then show "bank_of (psr (take_irq a m)) = Irq"
    by (simp add: take_irq_def take_exception_def Let_def bank_of_simps)
qed (simp_all add: take_irq_def take_exception_def Let_def bank_of_simps)

lemma frame_regs_facts:
  "length frame_regs = 14" "distinct frame_regs" "13 \<notin> set frame_regs" "r \<in> set frame_regs \<Longrightarrow> r < 16"
  "k < 13 \<Longrightarrow> frame_regs ! k = k" "frame_regs ! 13 = 14"
  by (auto simp: frame_regs_def nth_Cons' )

lemma qemu_save_effect:
  assumes "bank_of (psr m) = Irq" "word_aligned (register_file m (SP Irq))"
    and "f = register_file m (SP Irq) - 60"
  shows "\<exists>m'. run P (qemu_irq_save @ [Bl ret]) m = Some m' \<and> psr m' = psr m \<and> register_file m' (SP Irq) = f \<and>
    words m' f = spsr_of m Irq \<and> (\<forall>k < 14. words m' (f + 4 * word_of_nat (Suc k)) = get m (frame_regs ! k)) \<and>
    (\<forall>b. b \<noteq> Irq \<longrightarrow> register_file m' (SP b) = register_file m (SP b) \<and> register_file m' (LR b) = register_file m (LR b))"
proof -
  let ?S = "register_file m (SP Irq)"
  let ?vs = "map (get m) frame_regs"
  let ?m1 = "put 13 (?S - 56) (store_words (?S - 56) ?vs m)"
  have al: "word_aligned (?S - 56)" "word_aligned (?S - 60)"
    using assms(2) aligned_offset(2)[of ?S 14] aligned_offset(2)[of ?S 15] by simp_all
  have g: "get m 13 = ?S" using assms(1) by (simp add: get_def reg_of_def)
  let ?m2 = "put 0 (spsr_of m Irq) ?m1"
  let ?m3 = "put 13 (?S - 60) (?m2\<lparr>words := (words ?m2)(?S - 60 := spsr_of m Irq)\<rparr>)"
  have "run P (qemu_irq_save @ [Bl ret]) m = Some (put 14 ret (put 0 0 ?m3))"
    using al assms(1) by (simp add: qemu_irq_save_def stmfd_def g Let_def read_spsr_def frame_regs_facts)
  moreover have "words ?m3 (f + 4 * word_of_nat (Suc k)) = get m (frame_regs ! k)" if "k < 14" for k
  proof -
    have e: "f + 4 * word_of_nat (Suc k) = ?S - 56 + 4 * word_of_nat k" by (simp add: assms(3))
    have "f + 4 * word_of_nat (Suc k) \<noteq> f" using four_times_eq[of "Suc k" 0] that by simp
    then have "?S - 56 + 4 * word_of_nat k \<noteq> ?S - 60" using e assms(3) by metis
    then have "words ?m3 (f + 4 * word_of_nat (Suc k)) = words (store_words (?S - 56) ?vs m) (?S - 56 + 4 * word_of_nat k)"
      unfolding e by simp
    also have "\<dots> = get m (frame_regs ! k)" using that by (subst store_words_nth) (simp_all add: frame_regs_facts)
    finally show ?thesis .
  qed
  ultimately show ?thesis using assms(1,3) by (simp add: put_def reg_of_def)
qed

lemma qemu_restore_effect:
  assumes "bank_of (psr m) = Irq" "register_file m (SP Irq) = f" "word_aligned f" "mode_bank (words m f) \<noteq> None"
  shows "\<exists>m'. run P qemu_irq_restore m = Some m' \<and> psr m' = words m f \<and> register_file m' (SP Irq) = f + 60 \<and>
    (\<forall>k < 13. register_file m' (R k) = words m (f + 4 * word_of_nat (Suc k))) \<and>
    register_file m' PC = words m (f + 56) - 4 \<and>
    (\<forall>b. b \<noteq> Irq \<longrightarrow> register_file m' (SP b) = register_file m (SP b) \<and> register_file m' (LR b) = register_file m (LR b))"
proof -
  have g: "get m 13 = f" using assms(1,2) by (simp add: get_def reg_of_def)
  have al: "word_aligned (f + 4)" using assms(3) aligned_offset(1)[of f 1] by simp
  let ?m1 = "put 0 (words m f) (put 13 (f + 4) m)"
  let ?m2 = "?m1\<lparr>spsr_of := (spsr_of ?m1)(Irq := words m f)\<rparr>"
  define m3 where "m3 = pop_words P (f + 4) frame_regs (put 13 (60 + f) ?m2)"
  have f3: "psr m3 = psr m" "spsr_of m3 Irq = words m f" by (simp_all add: m3_def)
  have r3: "get m3 (frame_regs ! k) = words m (f + 4 * word_of_nat (Suc k))" if "k < 14" for k
    using that unfolding m3_def by (subst pop_words_nth) (simp_all add: frame_regs_facts algebra_simps)
  have o3: "register_file m3 x = register_file (put 13 (60 + f) ?m2) x" if "\<forall>r \<in> set frame_regs. reg_of Irq r \<noteq> x" for x
    unfolding m3_def using that assms(1) by (intro pop_words_file) simp
  have sp: "register_file m3 (SP Irq) = f + 60"
    "b \<noteq> Irq \<Longrightarrow> register_file m3 (SP b) = register_file m (SP b) \<and> register_file m3 (LR b) = register_file m (LR b)" for b
    using assms(1) by (simp_all add: o3 frame_regs_def reg_of_def put_def)
  have "run P qemu_irq_restore m = Some ((put 15 (get m3 14 - 4) m3)\<lparr>psr := words m f\<rparr>)"
    using al assms g f3 by (simp add: qemu_irq_restore_def ldmfd_def Let_def m3_def frame_regs_facts)
  moreover have "register_file m3 (R k) = words m (f + 4 * word_of_nat (Suc k))" if "k < 13" for k
    using r3[of k] that assms(1) f3(1) by (simp add: frame_regs_facts get_def reg_of_def split: if_splits)
  moreover have "get m3 14 = words m (f + 56)" using r3[of 13] by (simp add: frame_regs_facts)
  ultimately show ?thesis using sp assms(1) f3(1) by (simp add: put_def reg_of_def)
qed

section \<open>Properties\<close>

text \<open>
  C25. Start-up: from any privileged mode the code ends in System mode with interrupts masked, every mode
  has a stack of its own, each 4 KB below the one before, the caches and branch prediction are
  enabled, exceptions are taken in ARM state, and memory is untouched.
\<close>

theorem start_up_gives_each_mode_a_stack:
  assumes "psr m AND 0x1F \<noteq> 0x10"
  shows "\<exists>m'. run P (init_code s0) m = Some m' \<and>
    map (\<lambda>b. register_file m' (SP b)) [Irq, Fiq, Abt, Und, Svc, Usr] = map (\<lambda>k. s0 - word_of_nat k * STACK_SIZE) [0..<6] \<and>
    psr m' AND 0xFF = MODE_Sys OR I_F_BITS \<and> psr m' AND NOT 0xFF = psr m AND NOT 0xFF \<and>
    sctlr_word m' = (sctlr_word m OR 0x1804) AND NOT 0x40000000 \<and> actlr_word m' = actlr_word m OR 2 \<and>
    words m' = words m"
proof -
  have "psr_with x 0xDF AND NOT 0xFF = x AND NOT 0xFF" for x
    using psr_with_again[of x "0xDF" 0] by (simp add: psr_with_def)
  moreover have "((x OR 4) OR 0x1800) = x OR (0x1804 :: u32)" for x by (simp add: or.assoc)
  ultimately show ?thesis
    using init_code_effect[of m P s0, OF assms] by (auto simp: c_consts psr_with_byte upt_rec)
qed

definition ex_arm :: arm where
  "ex_arm = \<lparr>register_file = (\<lambda>r. case r of R k \<Rightarrow> 100 + word_of_nat k | SP b \<Rightarrow> 0x9000 | _ \<Rightarrow> 0x40), psr = 0x13,
     spsr_of = (\<lambda>_. 0), words = (\<lambda>_. 0), sctlr_word = 0x40000078, actlr_word = 0\<rparr>"

definition ex_processor :: processor where
  "ex_processor = \<lparr>sys_spsr = 0x1F, popped_base = (\<lambda>v w. v)\<rparr>"

theorem start_up_gives_each_mode_a_stack_witness:
  "\<exists>m'. run ex_processor (init_code 0x402FFFFC) ex_arm = Some m' \<and> register_file m' (SP Usr) = 0x402FAFFC \<and>
    sctlr_word m' = 0x187C"
proof -
  have "psr ex_arm AND 0x1F \<noteq> 0x10" by (simp add: ex_arm_def)
  from start_up_gives_each_mode_a_stack[of ex_arm ex_processor "0x402FFFFC", OF this] show ?thesis
    by (auto simp: c_consts upt_rec ex_arm_def)
qed

text \<open>
  C24. An interrupt in the emulator build is transparent: whatever mode it interrupts, and whatever the C
  handler does within its calling convention, the code resumes at the interrupted address with its
  status word, r0 to r12 and the stack pointers and link registers it had.
\<close>

theorem emulator_interrupt_is_transparent:
  assumes "mode_bank (psr m) \<noteq> None" "word_aligned (register_file m (SP Irq))"
    and "\<And>x. bank_of (psr x) = Irq \<Longrightarrow> keeps_frame call x"
  shows "\<exists>m'. qemu_irq_handler_asm P ret call (take_irq a m) = Some m' \<and> register_file m' PC = a \<and> psr m' = psr m \<and>
    (\<forall>k \<in> {0..12}. register_file m' (R k) = register_file m (R k)) \<and>
    (\<forall>b. register_file m' (SP b) = register_file m (SP b)) \<and>
    (\<forall>b \<in> {Usr, Fiq, Svc, Abt, Und}. register_file m' (LR b) = register_file m (LR b))"
proof -
  let ?m = "take_irq a m" and ?f = "register_file m (SP Irq) - 60"
  have S: "register_file ?m (SP Irq) = register_file m (SP Irq)" by (simp add: take_irq_state)
  obtain m1 where m1: "run P (qemu_irq_save @ [Bl ret]) ?m = Some m1" "psr m1 = psr ?m" "register_file m1 (SP Irq) = ?f"
    "words m1 ?f = psr m" "\<And>k. k < 14 \<Longrightarrow> words m1 (?f + 4 * word_of_nat (Suc k)) = get ?m (frame_regs ! k)"
    "\<And>b. b \<noteq> Irq \<Longrightarrow> register_file m1 (SP b) = register_file m (SP b) \<and> register_file m1 (LR b) = register_file m (LR b)"
    using qemu_save_effect[OF take_irq_state(1) _ refl, of a m P ret] assms(2) unfolding S take_irq_state by auto
  have "keeps_frame call m1" using assms(3) m1(2) take_irq_state(1) by metis
  then obtain m2 where m2: "call m1 = Some m2" "bank_of (psr m2) = Irq"
    "\<And>b. b \<noteq> Irq \<Longrightarrow> register_file m2 (LR b) = register_file m1 (LR b)"
    "\<And>b. register_file m2 (SP b) = register_file m1 (SP b)"
    "\<And>k. k < 15 \<Longrightarrow> words m2 (?f + 4 * word_of_nat k) = words m1 (?f + 4 * word_of_nat k)"
    using m1(3) by (elim keeps_frameE[OF _ refl]) auto
  have w: "words m2 ?f = psr m" "\<And>k. k < 14 \<Longrightarrow> words m2 (?f + 4 * word_of_nat (Suc k)) = get ?m (frame_regs ! k)"
  proof -
    show "words m2 ?f = psr m" using m2(5)[of 0] m1(4) by simp
    show "words m2 (?f + 4 * word_of_nat (Suc k)) = get ?m (frame_regs ! k)" if "k < 14" for k
      using m2(5)[of "Suc k"] m1(5)[OF that] that by (simp only:)
  qed
  have al: "word_aligned ?f" using assms(2) aligned_offset(2)[of "register_file m (SP Irq)" 15] by simp
  obtain m3 where m3: "run P qemu_irq_restore m2 = Some m3" "psr m3 = words m2 ?f" "register_file m3 (SP Irq) = ?f + 60"
    "\<And>k. k < 13 \<Longrightarrow> register_file m3 (R k) = words m2 (?f + 4 * word_of_nat (Suc k))"
    "register_file m3 PC = words m2 (?f + 56) - 4"
    "\<And>b. b \<noteq> Irq \<Longrightarrow> register_file m3 (SP b) = register_file m2 (SP b) \<and> register_file m3 (LR b) = register_file m2 (LR b)"
    using qemu_restore_effect[OF m2(2) _ al, of P] m2(4) m1(3) w(1) assms(1) by auto
  have "register_file m3 (R k) = register_file m (R k)" if "k < 13" for k
    using m3(4)[OF that] w(2)[of k] that by (simp add: frame_regs_facts get_def take_irq_state reg_of_def split: if_splits)
  moreover have "register_file m3 PC = a"
    using m3(5) w(2)[of 13] by (simp add: frame_regs_facts get_def take_irq_state reg_of_def)
  moreover have "register_file m3 (SP b) = register_file m (SP b)" for b
    using m3(3,6) m2(4) m1(6) by (cases "b = Irq") auto
  moreover have "qemu_irq_handler_asm P ret call ?m = Some m3"
    using m1(1) m2(1) m3(1) by (auto simp: qemu_irq_handler_asm_def run_append bind_eq_Some_conv')
  ultimately show ?thesis using m3 m2 m1(6) w(1) by (intro exI[of _ m3]) auto
qed

text \<open>
  The older entry enters the routine of the highest pending number in System mode with interrupts
  enabled. Its link register there is that of the interrupted code: nothing sets it to the restore, so a
  routine that returns through it goes where the interrupted function would return to.
\<close>

lemma file_put: "register_file (put r v m) x = (if reg_of (bank_of (psr m)) r = x then v else register_file m x)"
  by (simp add: put_def)

lemma old_irq_entry_effect:
  assumes "word_aligned (register_file m (SP Irq))" "word_aligned (register_file m (SP Usr))" "word_aligned table"
    and "register_file m (SP Usr) - 4 \<noteq> PENDING_ADDRESS"
  shows "\<exists>m'. run P (old_irq_entry table) (take_irq a m) = Some m' \<and> psr m' AND 0x9F = 0x1F \<and>
    get m' 15 = words m' (table + 4 * (31 - word_of_nat (count_leading_zeros (words m' PENDING_ADDRESS)))) \<and>
    get m' 14 = register_file m (LR Usr)"
proof -
  let ?m = "take_irq a m" and ?s = "register_file m (SP Irq)" and ?u = "register_file m (SP Usr)"
  let ?push = "[Sub_const 14 14 4, Stmfd [0, 1, 2, 3, 12, 14], Mrs_spsr 12, Stmfd [12]]"
  let ?find = "[Mov_const 1 PENDING_ADDRESS, Ldr 2 1 0, Clz 3 2, Rsb_const 2 3 31]"
  let ?mode = "[Mrs_cpsr 14, Orr_const 14 14 MODE_Sys, Bic_const 14 14 0x80, Msr_cpsr_c 14]"
  let ?jump = "[Stmfd [14], Mov_const 0 table, Ldr_index 15 0 2]"
  have al: "word_aligned (?s - 24)" "word_aligned (?s - 28)" "word_aligned PENDING_ADDRESS" "word_aligned (?u - 4)"
    using assms(1,2) aligned_offset(2)[of ?s 6] aligned_offset(2)[of ?s 7] aligned_offset(2)[of ?u 1]
    by (simp_all add: word_aligned_def PENDING_ADDRESS_def)
  have irq: "bank_of (psr ?m) = Irq" "get ?m 13 = ?s" using take_irq_state(1)[of a m] by (simp_all add: get_def reg_of_def take_irq_state)
  obtain m1 where m1: "run P ?push ?m = Some m1" "bank_of (psr m1) = Irq"
    "register_file m1 (LR Usr) = register_file m (LR Usr)" "register_file m1 (SP Usr) = ?u"
    using irq al by (simp add: stmfd_def Let_def read_spsr_def file_put reg_of_def take_irq_state)
  let ?i = "\<lambda>w. 31 - word_of_nat (count_leading_zeros (w PENDING_ADDRESS)) :: u32"
  obtain m2 where m2: "run P ?find m1 = Some m2" "bank_of (psr m2) = Irq" "words m2 = words m1" "register_file m2 (R 2) = ?i (words m1)"
    "register_file m2 (LR Usr) = register_file m (LR Usr)" "register_file m2 (SP Usr) = ?u"
    using m1 al by (simp add: load_word_def file_put reg_of_def)
  let ?v = "(psr m2 OR 0x1F) AND NOT 0x80"
  let ?c = "(psr m2 AND NOT 0xFF) OR (?v AND 0xFF)"
  have c: "?c AND 0x1F = 0x1F" "?c AND 0x9F = 0x1F"
    by (simp_all add: bit.conj_disj_distrib2 and.assoc)
  have "psr m2 AND 0x1F \<noteq> 0x10" using m2(2) by (auto simp: bank_of_def mode_bank_def)
  moreover have "mode_bank ?c \<noteq> None" using c(1) by (simp add: mode_bank_def)
  ultimately have "run P ?mode m2 = Some ((put 14 ?v m2)\<lparr>psr := ?c\<rparr>)"
    by (simp add: write_psr_def Let_def c_consts put_def get_def)
  then obtain m3 where m3: "run P ?mode m2 = Some m3" "psr m3 = ?c" "words m3 = words m1" "register_file m3 (R 2) = ?i (words m1)"
    "register_file m3 (LR Usr) = register_file m (LR Usr)" "register_file m3 (SP Usr) = ?u"
    using m2 by (simp add: put_def reg_of_def)
  have usr: "bank_of (psr m3) = Usr" using m3(2) c(1) by (simp add: bank_of_simps)
  let ?w = "(words m1)(?u - 4 := register_file m (LR Usr))"
  have "?i ?w = ?i (words m1)" using assms(4) by auto
  moreover have "word_aligned (table + 4 * ?i (words m1))" using assms(3) by (simp only: aligned_offset)
  ultimately obtain m4 where m4: "run P ?jump m3 = Some m4" "psr m4 = ?c" "words m4 = ?w"
    "get m4 15 = ?w (table + 4 * ?i ?w)" "get m4 14 = register_file m (LR Usr)"
    using m3 usr al(4) by (simp add: stmfd_def Let_def get_def file_put reg_of_def load_word_def)
  have "old_irq_entry table = ?push @ ?find @ ?mode @ ?jump" by (simp add: old_irq_entry_def)
  then have "run P (old_irq_entry table) ?m = Some m4" using m1(1) m2(1) m3(1) m4(1) by (simp only: run_append Option.bind.simps)
  then show ?thesis using m4 c(2) by simp
qed

text \<open>The restore itself, where it is reached with both stacks as the entry left them, resumes the interrupted code.\<close>

lemma old_irq_restore_effect:
  assumes "psr m AND 0x1F = 0x1F" "word_aligned (register_file m (SP Usr))" "word_aligned (register_file m (SP Irq))"
    and "register_file m (SP Irq) = f" "mode_bank (words m f) \<noteq> None"
  shows "\<exists>m'. run P old_irq_restore m = Some m' \<and> psr m' = words m f \<and> register_file m' PC = words m (f + 24) \<and>
    register_file m' (SP Irq) = f + 28 \<and> register_file m' (SP Usr) = register_file m (SP Usr) + 4 \<and>
    register_file m' (LR Usr) = words m (register_file m (SP Usr)) \<and>
    (\<forall>k < 5. register_file m' (R ([0, 1, 2, 3, 12] ! k)) = words m (f + 4 * word_of_nat (Suc k)))"
proof -
  let ?u = "register_file m (SP Usr)"
  let ?c = "(psr m AND NOT 0x9F) OR 0x92"
  have al: "word_aligned (f + 4)" using assms(3,4) aligned_offset(1)[of f 1] by simp
  have usr: "bank_of (psr m) = Usr" using assms(1) by (simp add: bank_of_simps)
  obtain m1 where m1: "run P [Ldmfd [14]] m = Some m1" "psr m1 = psr m" "words m1 = words m"
    "register_file m1 (SP Usr) = ?u + 4" "register_file m1 (SP Irq) = f" "register_file m1 (LR Usr) = words m ?u"
    using usr assms(2,4) by (simp add: ldmfd_def Let_def get_def file_put reg_of_def)
  have c: "?c AND 0x1F = 0x12" by (simp add: bit.conj_disj_distrib2 and.assoc)
  then have irq: "bank_of ?c = Irq" "mode_bank ?c \<noteq> None" by (simp_all add: bank_of_simps mode_bank_def)
  have "run P [Cpsid_i MODE_IRQ] m1 = Some (m1\<lparr>psr := ?c\<rparr>)"
    using assms(1) irq(2) m1(2) by (simp add: write_psr_def Let_def c_consts)
  then obtain m2 where m2: "run P [Cpsid_i MODE_IRQ] m1 = Some m2" "psr m2 = ?c" "words m2 = words m"
    "register_file m2 = register_file m1" using m1(3) by simp
  obtain m3 where m3: "run P [Ldmfd [12], Msr_spsr 12] m2 = Some m3" "psr m3 = ?c" "words m3 = words m" "spsr_of m3 Irq = words m f"
    "register_file m3 (SP Irq) = f + 4" "register_file m3 (SP Usr) = ?u + 4" "register_file m3 (LR Usr) = words m ?u"
    using m1 m2 irq(1) assms(3,4) by (simp add: ldmfd_def Let_def get_def file_put reg_of_def)
  obtain m4 where m4: "run P [Ldmfd_return [0, 1, 2, 3, 12, 15]] m3 = Some m4" "psr m4 = words m f"
    "register_file m4 PC = words m (f + 24)" "register_file m4 (SP Irq) = f + 28" "register_file m4 (SP Usr) = ?u + 4"
    "register_file m4 (LR Usr) = words m ?u"
    "\<forall>k < 5. register_file m4 (R ([0, 1, 2, 3, 12] ! k)) = words m (f + 4 * word_of_nat (Suc k))"
    using m3 irq(1) assms(5) al
    by (simp add: ldmfd_def Let_def get_def file_put reg_of_def less_Suc_eq numeral_eq_Suc all_conj_distrib algebra_simps)
  have e: "old_irq_restore = [Ldmfd [14]] @ [Cpsid_i MODE_IRQ] @ [Ldmfd [12], Msr_spsr 12] @ [Ldmfd_return [0, 1, 2, 3, 12, 15]]"
    by (simp add: old_irq_restore_def)
  have "run P old_irq_restore m = Some m4"
    unfolding e run_append m1(1) m2(1) m3(1) m4(1) Option.bind.simps by (rule refl)
  then show ?thesis using m4(2-) by simp
qed

text \<open>A handler that leaves other values in r0, r3, r12 and its link register.\<close>

definition ex_handler :: "arm \<Rightarrow> arm option" where
  "ex_handler m = Some (put 14 3 (put 12 5 (put 3 9 (put 0 7 m))))"

theorem emulator_interrupt_is_transparent_witness:
  "\<exists>m'. qemu_irq_handler_asm ex_processor 0x8100 ex_handler (take_irq 0x8000 ex_arm) = Some m' \<and>
    register_file m' PC = 0x8000 \<and> psr m' = 0x13 \<and> register_file m' (R 12) = 112"
proof -
  have "mode_bank (psr ex_arm) \<noteq> None" "word_aligned (register_file ex_arm (SP Irq))"
    by (simp_all add: ex_arm_def mode_bank_def word_aligned_def)
  moreover have "keeps_frame ex_handler x" if "bank_of (psr x) = Irq" for x
    using that by (simp add: keeps_frame_def ex_handler_def put_def reg_of_def)
  ultimately obtain m' where m': "qemu_irq_handler_asm ex_processor 0x8100 ex_handler (take_irq 0x8000 ex_arm) = Some m'"
    "register_file m' PC = 0x8000" "psr m' = psr ex_arm"
    "\<forall>k \<in> {0..12}. register_file m' (R k) = register_file ex_arm (R k)"
    using emulator_interrupt_is_transparent[of ex_arm ex_handler ex_processor "0x8100" "0x8000"] by blast
  then show ?thesis by (auto simp: ex_arm_def)
qed

end
