(* ===== verification/Context_Switch.thy ===== *)
theory Context_Switch
  imports Entry Scheduler
begin

text \<open>
  The context switch at the level of the processor: \<^verbatim>\<open>irq_handler_asm\<close> and \<^verbatim>\<open>svc_handler_asm\<close> of
  \<^verbatim>\<open>os/interrupts/interrupt_handlers.S\<close> up to the calls into C, and all of
  \<^verbatim>\<open>os/scheduler/scheduler_asm.S\<close>, on the banked registers and the memory of \<^verbatim>\<open>Arm\<close>.

  The words that the assembler reserves (\<^verbatim>\<open>r0_cache\<close>, \<^verbatim>\<open>os_sp_cache\<close> and the others), the variable
  \<^verbatim>\<open>current_process\<close> and the return addresses of the calls are the fields of \<open>layout\<close>. A process
  control block is seventeen words at the address in \<^verbatim>\<open>current_process\<close>.

  \<^verbatim>\<open>Scheduler\<close> describes \<^verbatim>\<open>save_context_asm\<close> and \<^verbatim>\<open>restore_context_asm\<close> on a stack that is a list and a
  process that is a record. The relation \<open>sim\<close> ties the two levels together: each instruction of that
  description is simulated by its machine instructions as long as the reserved words, the control
  block and the stack lie apart.
\<close>

section \<open>Code\<close>

record layout =
  current_var :: u32
  pc_cache_at :: u32
  os_sp_at :: u32
  usr_sp_at :: u32
  irq_lr_at :: u32
  r0_at :: u32
  r1_at :: u32
  ret_save_sp :: u32
  ret_load_sp :: u32
  ret_save_context :: u32

definition save_sp_and_lr_usr :: "layout \<Rightarrow> opcode list" where
  "save_sp_and_lr_usr L = [Str_at 0 (usr_sp_at L), Str_at 1 (irq_lr_at L)]"

definition load_os_sp :: "layout \<Rightarrow> opcode list" where
  "load_os_sp L = [Ldr_at 13 (os_sp_at L)]"

definition save_context_code :: "layout \<Rightarrow> opcode list" where
  "save_context_code L =
     [Stmfd [0], Stmfd [1], Mov_const 0 (current_var L), Ldr 0 0 0,
      Mov 1 2, Str 1 0 8, Mov 1 3, Str 1 0 12, Mov 1 4, Str 1 0 16, Mov 1 5, Str 1 0 20, Mov 1 6, Str 1 0 24,
      Mov 1 7, Str 1 0 28, Mov 1 8, Str 1 0 32, Mov 1 9, Str 1 0 36, Mov 1 10, Str 1 0 40, Mov 1 11, Str 1 0 44,
      Mov 1 12, Str 1 0 48,
      Ldr_at 1 (usr_sp_at L), Str 1 0 52, Ldr_at 1 (irq_lr_at L), Str 1 0 56, Str 1 0 64,
      Mrs_spsr 1, Str 1 0 60, Ldmfd [1], Str 1 0 0, Ldmfd [1], Str 1 0 4]"

definition restore_context_code :: "layout \<Rightarrow> opcode list" where
  "restore_context_code L =
     [Mov_const 0 (current_var L), Ldr 0 0 0, Ldr 1 0 64, Str_at 1 (pc_cache_at L),
      Ldr 1 0 52, Stmfd [1], Ldr 1 0 56, Stmfd [1], Ldr 1 0 48, Stmfd [1], Ldr 1 0 44, Stmfd [1],
      Ldr 1 0 40, Stmfd [1], Ldr 1 0 36, Stmfd [1], Ldr 1 0 32, Stmfd [1], Ldr 1 0 28, Stmfd [1],
      Ldr 1 0 24, Stmfd [1], Ldr 1 0 20, Stmfd [1], Ldr 1 0 16, Stmfd [1], Ldr 1 0 12, Stmfd [1],
      Ldr 1 0 8, Stmfd [1], Ldr 1 0 4, Stmfd [1], Ldr 1 0 0, Stmfd [1],
      Ldr 1 0 60, Bic_const 1 1 0x80, Msr_cpsr_fc 1,
      Ldmfd [0], Ldmfd [1], Ldmfd [2], Ldmfd [3], Ldmfd [4], Ldmfd [5], Ldmfd [6], Ldmfd [7], Ldmfd [8],
      Ldmfd [9], Ldmfd [10], Ldmfd [11], Ldmfd [12], Ldmfd [14],
      Str_at 13 (os_sp_at L), Ldmfd [13], Ldr_at 15 (pc_cache_at L)]"

text \<open>
  The two entries, up to the dispatch of the interrupt and to \<^verbatim>\<open>scheduler_run\<close>. The interrupt entry is
  linked into the kernel and into the boot loader, with different routines under the same three names.
\<close>

definition irq_handler_asm :: "layout \<Rightarrow> opcode list \<Rightarrow> opcode list \<Rightarrow> opcode list \<Rightarrow> opcode list" where
  "irq_handler_asm L save_sp load_sp save_context =
     [Sub_const 14 14 4, Str_at 0 (r0_at L), Str_at 1 (r1_at L),
      Mrs_cpsr 1, Orr_const 1 1 MODE_Sys, Msr_cpsr_fc 1, Mov 0 13, Mov 1 14, Bl (ret_save_sp L)] @
     save_sp @ [Ldr_at 0 (r0_at L), Ldr_at 1 (r1_at L), Bl (ret_load_sp L)] @ load_sp @
     [Bl (ret_save_context L)] @ save_context"

definition irq_entry_code :: "layout \<Rightarrow> opcode list" where
  "irq_entry_code L = irq_handler_asm L (save_sp_and_lr_usr L) (load_os_sp L) (save_context_code L)"

definition svc_entry_code :: "layout \<Rightarrow> opcode list" where
  "svc_entry_code L =
     [Stmfd [0], Stmfd [1], Mrs_cpsr 1, Orr_const 1 1 MODE_Sys, Msr_cpsr_fc 1, Mov 0 13, Mov 1 14,
      Bl (ret_save_sp L)] @ save_sp_and_lr_usr L @
     [Cpsid_i MODE_Supervisor, Ldmfd [1], Ldmfd [0], Msr_cpsr_fc_const MODE_Sys, Bl (ret_load_sp L)] @ load_os_sp L @
     [Bl (ret_save_context L)] @ save_context_code L"

text \<open>The entry for undefined instructions up to its call of \<^verbatim>\<open>dump_undef_info\<close>, which gets r0 and r1.\<close>

definition mmu_undef_handler_asm :: "u32 \<Rightarrow> opcode list" where
  "mmu_undef_handler_asm ret = [Sub_const 14 14 4, Mrs_cpsr 0, Mov 1 14, Bl ret]"

section \<open>The machine instructions of the abstract ones\<close>

fun machine_code :: "layout \<Rightarrow> instr \<Rightarrow> opcode list" where
  "machine_code L (LDR_current d) = [Mov_const d (current_var L), Ldr d d 0]"
| "machine_code L (LDR_pcb d k) = [Ldr d 0 (4 * word_of_nat k)]"
| "machine_code L (STR_pcb d k) = [Str d 0 (4 * word_of_nat k)]"
| "machine_code L (PUSH d) = [Stmfd [d]]"
| "machine_code L (POP d) = [Ldmfd [d]]"
| "machine_code L (MOV d e) = [Mov d e]"
| "machine_code L (STR_pc_cache d) = [Str_at d (pc_cache_at L)]"
| "machine_code L (LDR_pc_cache d) = [Ldr_at d (pc_cache_at L)]"
| "machine_code L (LDR_usr_sp d) = [Ldr_at d (usr_sp_at L)]"
| "machine_code L (LDR_irq_lr d) = [Ldr_at d (irq_lr_at L)]"
| "machine_code L (MRS_spsr d) = [Mrs_spsr d]"
| "machine_code L (BIC_irq d) = [Bic_const d d 0x80]"
| "machine_code L (MSR_cpsr d) = [Msr_cpsr_fc d]"

definition restore_prefix :: "instr list" where
  "restore_prefix = take (length restore_context_asm - 2) restore_context_asm"

lemma restore_prefix_code:
  "restore_prefix =
     [LDR_current 0, LDR_pcb 1 16, STR_pc_cache 1, LDR_pcb 1 13, PUSH 1, LDR_pcb 1 14, PUSH 1,
      LDR_pcb 1 12, PUSH 1, LDR_pcb 1 11, PUSH 1, LDR_pcb 1 10, PUSH 1, LDR_pcb 1 9, PUSH 1, LDR_pcb 1 8, PUSH 1,
      LDR_pcb 1 7, PUSH 1, LDR_pcb 1 6, PUSH 1, LDR_pcb 1 5, PUSH 1, LDR_pcb 1 4, PUSH 1, LDR_pcb 1 3, PUSH 1,
      LDR_pcb 1 2, PUSH 1, LDR_pcb 1 1, PUSH 1, LDR_pcb 1 0, PUSH 1, LDR_pcb 1 15, BIC_irq 1, MSR_cpsr 1,
      POP 0, POP 1, POP 2, POP 3, POP 4, POP 5, POP 6, POP 7, POP 8, POP 9, POP 10, POP 11, POP 12, POP 14]"
  by (simp add: restore_prefix_def restore_context_asm_def)

lemma save_context_compiled: "save_context_code L = concat (map (machine_code L) save_context_asm)"
  by (simp add: save_context_code_def save_context_asm_def)

lemma restore_context_compiled:
  "restore_context_code L = concat (map (machine_code L) restore_prefix) @
     [Str_at 13 (os_sp_at L), Ldmfd [13], Ldr_at 15 (pc_cache_at L)]"
  by (simp add: restore_context_code_def restore_prefix_code)

section \<open>Where things lie\<close>

definition cells :: "layout \<Rightarrow> u32 list" where
  "cells L = [current_var L, pc_cache_at L, os_sp_at L, usr_sp_at L, irq_lr_at L, r0_at L, r1_at L]"

definition pcb_words :: "u32 \<Rightarrow> u32 list" where
  "pcb_words pcb = map (\<lambda>k. pcb + 4 * word_of_nat k) [0..<17]"

definition stack_words :: "u32 \<Rightarrow> nat \<Rightarrow> u32 list" where
  "stack_words b n = map (\<lambda>k. b - 4 * word_of_nat (Suc k)) [0..<n]"

text \<open>
  The reserved words, the control block at \<open>pcb\<close> and the \<open>n\<close> words below \<open>b\<close> on the kernel stack are
  word aligned and different from one another.
\<close>

definition apart :: "layout \<Rightarrow> u32 \<Rightarrow> u32 \<Rightarrow> nat \<Rightarrow> bool" where
  "apart L b pcb n \<longleftrightarrow> distinct (cells L @ pcb_words pcb @ stack_words b n) \<and>
     (\<forall>a \<in> set (cells L). word_aligned a) \<and> word_aligned pcb \<and> word_aligned b"

lemma apart_aligned:
  assumes "apart L b pcb n"
  shows "a \<in> set (cells L) \<Longrightarrow> word_aligned a" "word_aligned (pcb + 4 * word_of_nat k)" "word_aligned (b - 4 * word_of_nat k)"
  using assms by (simp_all add: apart_def)

lemma apart_cells:
  assumes "apart L b pcb n" "a \<in> set (cells L)"
  shows "k < 17 \<Longrightarrow> a \<noteq> pcb + 4 * word_of_nat k" "k < n \<Longrightarrow> a \<noteq> b - 4 * word_of_nat (Suc k)"
  using assms by (auto simp: apart_def pcb_words_def stack_words_def)

lemma apart_pcb_stack:
  assumes "apart L b pcb n" "j < 17" "k < n"
  shows "pcb + 4 * word_of_nat j \<noteq> b - 4 * word_of_nat (Suc k)"
proof -
  have "pcb + 4 * word_of_nat j \<in> set (pcb_words pcb)" using assms(2) by (simp add: pcb_words_def)
  moreover have "b - 4 * word_of_nat (Suc k) \<in> set (stack_words b n)"
    unfolding stack_words_def set_map using assms(3) by (intro imageI) simp
  ultimately show ?thesis using assms(1) unfolding apart_def distinct_append by fastforce
qed

lemma apart_pcb_eq: "j < 17 \<Longrightarrow> k < 17 \<Longrightarrow> pcb + 4 * word_of_nat j = pcb + 4 * (word_of_nat k :: u32) \<longleftrightarrow> j = k"
  using four_times_eq[of j k] by simp

lemma apart_stack_eq:
  assumes "apart L b pcb n" "j < n" "k < n"
  shows "b - 4 * word_of_nat (Suc j) = b - 4 * word_of_nat (Suc k) \<longleftrightarrow> j = k"
proof -
  have "distinct (stack_words b n)" using assms(1) by (simp add: apart_def)
  from nth_eq_iff_index_eq[OF this, of j k] assms(2,3) show ?thesis by (simp add: stack_words_def)
qed

section \<open>The two levels\<close>

text \<open>
  Machine \<open>m\<close> against processor \<open>c\<close> and process \<open>p\<close>: registers other than the stack pointer, the cached
  words, the control block, the stack as the words between the stack pointer and \<open>b\<close>, and the two
  bytes of the status word that are written. Memory elsewhere and the stack pointer of supervisor mode
  are as in \<open>W\<close>.
\<close>

definition sim :: "processor \<Rightarrow> layout \<Rightarrow> u32 \<Rightarrow> u32 \<Rightarrow> nat \<Rightarrow> arm \<Rightarrow> arm \<Rightarrow> cpu \<times> process_t \<Rightarrow> bool" where
  "sim P L b pcb n W m st \<longleftrightarrow> (case st of (c, p) \<Rightarrow>
     psr m AND 0x1F = 0x1F \<and> psr m AND 0xFF0000FF = status c AND 0xFF0000FF \<and>
     length (regs c) = 16 \<and> length (registers p) = 13 \<and> (\<forall>r < 16. r \<noteq> 13 \<longrightarrow> get m r = regs c ! r) \<and>
     words m (current_var L) = pcb \<and> current_pointer c = pcb \<and> words m (pc_cache_at L) = pc_cache c \<and>
     words m (usr_sp_at L) = usr_sp_cache c \<and> words m (irq_lr_at L) = irq_lr_cache c \<and> saved_status c = sys_spsr P \<and>
     (\<forall>k < 17. words m (pcb + 4 * word_of_nat k) = get_word k p) \<and>
     length (stack c) \<le> n \<and> get m 13 = b - 4 * word_of_nat (length (stack c)) \<and>
     (\<forall>k < length (stack c). words m (b - 4 * word_of_nat (Suc k)) = rev (stack c) ! k) \<and>
     (\<forall>a. a \<noteq> pc_cache_at L \<and> a \<notin> set (pcb_words pcb) \<and> a \<notin> set (stack_words b n) \<longrightarrow> words m a = words W a) \<and>
     register_file m (SP Svc) = register_file W (SP Svc))"

lemma get_set_word:
  assumes "j < 17" "k < 17" "length (registers p) = 13"
  shows "get_word j (set_word k v p) = (if j = k then v else get_word j p)"
  using assms by (auto simp: get_word_def set_word_def)

lemma put_svc: "bank_of (psr m) = Usr \<Longrightarrow> register_file (put r v m) (SP Svc) = register_file m (SP Svc)"
  by (simp add: put_def reg_of_def)

lemma sim_put:
  assumes "sim P L b pcb n W m (c, p)" "d < 16" "d \<noteq> 13"
  shows "sim P L b pcb n W (put d v m) (c\<lparr>regs := (regs c)[d := v]\<rparr>, p)"
proof -
  have "bank_of (psr m) = Usr" using assms(1) by (simp add: sim_def bank_of_simps)
  then show ?thesis using assms by (auto simp: sim_def nth_list_update put_svc)
qed

lemma sim_psr:
  assumes "sim P L b pcb n W m (c, p)" "psr' AND 0x1F = 0x1F" "psr' AND 0xFF0000FF = v AND 0xFF0000FF"
  shows "sim P L b pcb n W (m\<lparr>psr := psr'\<rparr>) (c\<lparr>status := v\<rparr>, p)"
proof -
  have "bank_of psr' = bank_of (psr m)" using assms(1,2) by (simp add: bank_of_simps sim_def)
  then have "get (m\<lparr>psr := psr'\<rparr>) r = get m r" for r by (simp add: get_def)
  then show ?thesis using assms by (simp add: sim_def)
qed

lemma sim_pc_cache:
  assumes "apart L b pcb n" "sim P L b pcb n W m (c, p)"
  shows "sim P L b pcb n W (m\<lparr>words := (words m)(pc_cache_at L := v)\<rparr>) (c\<lparr>pc_cache := v\<rparr>, p)"
proof -
  let ?a = "pc_cache_at L"
  have i: "?a \<in> set (cells L)" by (simp add: cells_def)
  have d: "current_var L \<noteq> ?a" "usr_sp_at L \<noteq> ?a" "irq_lr_at L \<noteq> ?a"
    using assms(1) by (auto simp: apart_def cells_def)
  have "pcb + 4 * word_of_nat k \<noteq> ?a" if "k < 17" for k using apart_cells(1)[OF assms(1) i that] by metis
  moreover have "b - 4 * word_of_nat (Suc k) \<noteq> ?a" if "k < length (stack c)" for k
    using apart_cells(2)[OF assms(1) i, of k] that assms(2) by (auto simp: sim_def)
  ultimately show ?thesis using assms(2) d unfolding sim_def prod.case
    by (simp del: of_nat_Suc)
qed

lemma sim_store_pcb:
  assumes "apart L b pcb n" "sim P L b pcb n W m (c, p)" "k < 17"
  shows "sim P L b pcb n W (m\<lparr>words := (words m)(pcb + 4 * word_of_nat k := v)\<rparr>) (c, set_word k v p)"
proof -
  let ?a = "pcb + 4 * word_of_nat k"
  have "a \<noteq> ?a" if "a \<in> set (cells L)" for a using apart_cells(1)[OF assms(1) that assms(3)] .
  then have d: "current_var L \<noteq> ?a" "usr_sp_at L \<noteq> ?a" "irq_lr_at L \<noteq> ?a" "pc_cache_at L \<noteq> ?a"
    by (simp_all add: cells_def)
  have "b - 4 * word_of_nat (Suc j) \<noteq> ?a" if "j < length (stack c)" for j
    using apart_pcb_stack[OF assms(1,3), of j] that assms(2) by (auto simp: sim_def)
  moreover have "?a \<in> set (pcb_words pcb)" using assms(3) by (simp add: pcb_words_def)
  moreover have "length (registers (set_word k v p)) = length (registers p)" by (simp add: set_word_def)
  moreover have "(4 * word_of_nat j :: u32) = 4 * word_of_nat k \<longleftrightarrow> j = k" if "j < 17" for j
    using four_times_eq[of j k] that assms(3) by simp
  ultimately show ?thesis using assms(2,3) d unfolding sim_def prod.case
    by (auto simp: get_set_word simp del: of_nat_Suc)
qed

lemma sim_push:
  assumes "apart L b pcb n" "sim P L b pcb n W m (c, p)" "length (stack c) < n"
  shows "sim P L b pcb n W (put 13 (get m 13 - 4) (m\<lparr>words := (words m)(get m 13 - 4 := v)\<rparr>)) (c\<lparr>stack := v # stack c\<rparr>, p)"
proof -
  let ?l = "length (stack c)"
  let ?a = "b - 4 * word_of_nat (Suc ?l)"
  have sp: "get m 13 - 4 = ?a" using assms(2) by (simp add: sim_def algebra_simps)
  have "a \<noteq> ?a" if "a \<in> set (cells L)" for a using apart_cells(2)[OF assms(1) that assms(3)] .
  then have d: "current_var L \<noteq> ?a" "usr_sp_at L \<noteq> ?a" "irq_lr_at L \<noteq> ?a" "pc_cache_at L \<noteq> ?a"
    by (simp_all add: cells_def)
  have "pcb + 4 * word_of_nat k \<noteq> ?a" if "k < 17" for k using apart_pcb_stack[OF assms(1) that assms(3)] .
  moreover have "b - 4 * word_of_nat (Suc j) = ?a \<longleftrightarrow> j = ?l" if "j < n" for j
    using apart_stack_eq[OF assms(1) that assms(3)] .
  moreover have "?a \<in> set (stack_words b n)"
    unfolding stack_words_def set_map using assms(3) by (intro imageI) simp
  moreover have "bank_of (psr m) = Usr" using assms(2) by (simp add: sim_def bank_of_simps)
  ultimately show ?thesis using assms(2,3) d unfolding sp sim_def prod.case
    by (auto simp: put_svc nth_append less_Suc_eq simp del: of_nat_Suc)
qed

lemma sim_pop:
  assumes "sim P L b pcb n W m (c, p)" "stack c \<noteq> []"
  shows "words m (get m 13) = hd (stack c)"
    and "sim P L b pcb n W (put 13 (get m 13 + 4) m) (c\<lparr>stack := tl (stack c)\<rparr>, p)"
proof -
  obtain v vs where v: "stack c = v # vs" using assms(2) by (cases "stack c") auto
  then have "words m (b - 4 * word_of_nat (Suc (length vs))) = v" "get m 13 = b - 4 * word_of_nat (Suc (length vs))"
    using assms(1) by (auto simp: sim_def nth_append simp del: of_nat_Suc)
  then show "words m (get m 13) = hd (stack c)" using v by simp
  have "rev (stack c) ! k = rev vs ! k" if "k < length vs" for k using that by (simp add: v nth_append)
  moreover have "bank_of (psr m) = Usr" using assms(1) by (simp add: sim_def bank_of_simps)
  ultimately show "sim P L b pcb n W (put 13 (get m 13 + 4) m) (c\<lparr>stack := tl (stack c)\<rparr>, p)"
    using assms(1) v by (simp add: sim_def put_svc algebra_simps)
qed

lemma sim_facts:
  assumes "sim P L b pcb n W m (c, p)"
  shows "psr m AND 0x1F = 0x1F" "bank_of (psr m) = Usr" "r < 16 \<Longrightarrow> r \<noteq> 13 \<Longrightarrow> get m r = regs c ! r"
    "words m (current_var L) = pcb" "current_pointer c = pcb" "words m (pc_cache_at L) = pc_cache c"
    "words m (usr_sp_at L) = usr_sp_cache c" "words m (irq_lr_at L) = irq_lr_cache c"
    "k < 17 \<Longrightarrow> words m (pcb + 4 * word_of_nat k) = get_word k p"
    "get m 13 = b - 4 * word_of_nat (length (stack c))" "saved_status c = sys_spsr P"
    "psr m AND 0xFF0000FF = status c AND 0xFF0000FF" "register_file m (SP Svc) = register_file W (SP Svc)"
  using assms by (simp_all add: sim_def bank_of_simps)

section \<open>Every instruction is simulated\<close>

text \<open>
  When an abstract instruction stands for its machine code: it names low registers (the last two
  instructions of the restore, which load the stack pointer and jump, are not among these), goes
  through a pointer in r0 where it uses the control block, does not overrun or underrun the stack,
  and stays in System mode.
\<close>

fun fits :: "nat \<Rightarrow> instr \<Rightarrow> cpu \<times> process_t \<Rightarrow> bool" where
  "fits n (LDR_current d) (c, p) = (d < 13)"
| "fits n (LDR_pcb d k) (c, p) = (d < 13 \<and> k < 17 \<and> regs c ! 0 = current_pointer c)"
| "fits n (STR_pcb d k) (c, p) = (d < 13 \<and> k < 17 \<and> regs c ! 0 = current_pointer c)"
| "fits n (PUSH d) (c, p) = (d < 13 \<and> length (stack c) < n)"
| "fits n (POP d) (c, p) = ((d < 13 \<or> d = 14) \<and> stack c \<noteq> [])"
| "fits n (MOV d e) (c, p) = (d < 13 \<and> e < 13)"
| "fits n (STR_pc_cache d) (c, p) = (d < 13)"
| "fits n (LDR_pc_cache d) (c, p) = (d < 13)"
| "fits n (LDR_usr_sp d) (c, p) = (d < 13)"
| "fits n (LDR_irq_lr d) (c, p) = (d < 13)"
| "fits n (MRS_spsr d) (c, p) = (d < 13)"
| "fits n (BIC_irq d) (c, p) = (d < 13)"
| "fits n (MSR_cpsr d) (c, p) = (d < 13 \<and> regs c ! d AND 0x1F = 0x1F)"

fun all_fit :: "nat \<Rightarrow> instr list \<Rightarrow> cpu \<times> process_t \<Rightarrow> bool" where
  "all_fit n [] st = True"
| "all_fit n (i # is) st = (fits n i st \<and> all_fit n is (exec i st))"

lemma run_push:
  assumes "d < 13" "word_aligned (get m 13 - 4)"
  shows "step P (Stmfd [d]) m = Some (put 13 (get m 13 - 4) (m\<lparr>words := (words m)(get m 13 - 4 := get m d)\<rparr>))"
  using assms by (simp add: stmfd_def Let_def)

lemma run_pop:
  assumes "d < 16" "d \<noteq> 13" "word_aligned (get m 13)"
  shows "step P (Ldmfd [d]) m = Some (put d (words m (get m 13)) (put 13 (get m 13 + 4) m))"
  using assms by (simp add: ldmfd_def Let_def)

lemma sim_step:
  assumes "apart L b pcb n" "sim P L b pcb n W m st" "fits n i st"
  shows "\<exists>m'. run P (machine_code L i) m = Some m' \<and> sim P L b pcb n W m' (exec i st)"
proof -
  obtain c p where st: "st = (c, p)" by (cases st)
  note s = assms(2)[unfolded st] and f = assms(3)[unfolded st]
  note sf = sim_facts[OF s] and al = apart_aligned[OF assms(1)] and sp = sim_put[OF s]
  have cl: "word_aligned (current_var L)" "word_aligned (pc_cache_at L)" "word_aligned (usr_sp_at L)"
    "word_aligned (irq_lr_at L)" using al(1) by (simp_all add: cells_def)
  have r0: "get m 0 = regs c ! 0" using sf(3) by simp
  have spa: "word_aligned (get m 13)" "word_aligned (get m 13 - 4)"
    using al(3)[of "length (stack c)"] al(3)[of "Suc (length (stack c))"] by (simp_all add: sf(10) algebra_simps)
  show ?thesis
  proof (cases i)
    case (LDR_current d)
    have "put d pcb (put d v m) = put d pcb m" for v by (simp add: put_def)
    then show ?thesis using f cl(1) sf(4,5) sp[of d pcb] by (simp add: st LDR_current load_word_def)
  next
    case (LDR_pcb d k)
    then show ?thesis using f r0 sf(5) sf(9)[of k] al(2)[of k] sp[of d "get_word k p"] by (simp add: st load_word_def)
  next
    case (STR_pcb d k)
    then show ?thesis using f r0 sf(5) sf(3)[of d] al(2)[of k] sim_store_pcb[OF assms(1) s, of k "regs c ! d"]
      by (simp add: st store_word_def)
  next
    case (PUSH d)
    then show ?thesis using f sf(3)[of d] spa(2) sim_push[OF assms(1) s, of "regs c ! d"]
      by (simp add: st run_push del: step.simps(11))
  next
    case (POP d)
    have e: "c\<lparr>stack := x, regs := y\<rparr> = c\<lparr>regs := y, stack := x\<rparr>" for x y by simp
    from POP show ?thesis using f spa(1) sim_pop[OF s] sim_put[OF sim_pop(2)[OF s], of d "hd (stack c)", simplified, unfolded e]
      by (auto simp: st run_pop simp del: step.simps(12))
  next
    case (MOV d e)
    then show ?thesis using f sf(3)[of e] sp[of d "regs c ! e"] by (simp add: st)
  next
    case (STR_pc_cache d)
    then show ?thesis using f sf(3)[of d] cl(2) sim_pc_cache[OF assms(1) s, of "regs c ! d"] by (simp add: st store_word_def)
  next
    case (LDR_pc_cache d)
    then show ?thesis using f cl(2) sf(6) sp[of d "pc_cache c"] by (simp add: st load_word_def)
  next
    case (LDR_usr_sp d)
    then show ?thesis using f cl(3) sf(7) sp[of d "usr_sp_cache c"] by (simp add: st load_word_def)
  next
    case (LDR_irq_lr d)
    then show ?thesis using f cl(4) sf(8) sp[of d "irq_lr_cache c"] by (simp add: st load_word_def)
  next
    case (MRS_spsr d)
    then show ?thesis using f sf(2,11) sp[of d "sys_spsr P"] by (simp add: st read_spsr_def)
  next
    case (BIC_irq d)
    then show ?thesis using f sf(3)[of d] sp[of d "regs c ! d AND NOT 0x80"] by (simp add: st)
  next
    case (MSR_cpsr d)
    let ?v = "regs c ! d"
    let ?new = "(psr m AND NOT 0xFF0000FF) OR (?v AND 0xFF0000FF)"
    have v: "?v AND 0x1F = 0x1F" using f by (simp add: MSR_cpsr)
    have n1: "?new AND 0x1F = 0x1F"
      using v by (simp add: bit.conj_disj_distrib2 and.assoc)
    then have "mode_bank ?new \<noteq> None" by (simp add: mode_bank_def)
    moreover have "?new AND 0xFF0000FF = ?v AND 0xFF0000FF"
      by (simp add: bit.conj_disj_distrib2 and.assoc)
    ultimately show ?thesis using f sf(1) sf(3)[of d] sim_psr[OF s n1, of ?v]
      by (auto simp: st MSR_cpsr write_psr_def Let_def)
  qed
qed

lemma sim_run:
  "apart L b pcb n \<Longrightarrow> sim P L b pcb n W m st \<Longrightarrow> all_fit n code st \<Longrightarrow>
   \<exists>m'. run P (concat (map (machine_code L) code)) m = Some m' \<and> sim P L b pcb n W m' (execute code st)"
proof (induction code arbitrary: m st)
  case (Cons i code)
  obtain m1 where m1: "run P (machine_code L i) m = Some m1" "sim P L b pcb n W m1 (exec i st)"
    using sim_step[OF Cons.prems(1,2), of i] Cons.prems(3) by auto
  obtain m2 where "run P (concat (map (machine_code L) code)) m1 = Some m2"
    "sim P L b pcb n W m2 (execute code (exec i st))"
    using Cons.IH[OF Cons.prems(1) m1(2)] Cons.prems(3) by auto
  then show ?case using m1(1) by (simp add: run_append execute_Cons)
qed (simp add: execute_Nil)

text \<open>What the two routines do on the abstract level fits.\<close>

lemma save_fits:
  assumes "length (regs c) = 16" "length (registers p) = 13" "length (stack c) + 2 \<le> n"
  shows "all_fit n save_context_asm (c, p)"
proof -
  obtain a0 a1 a2 a3 a4 a5 a6 a7 a8 a9 a10 a11 a12 a13 a14 a15 where
    r: "regs c = [a0, a1, a2, a3, a4, a5, a6, a7, a8, a9, a10, a11, a12, a13, a14, a15]" using regs16[OF assms(1)] by auto
  show ?thesis using assms(3) by (simp add: save_context_asm_def r)
qed

lemma restore_fits:
  assumes "length (regs c) = 16" "length (registers p) = 13" "length (stack c) + 15 \<le> n" "cpsr p AND 0x1F = 0x1F"
  shows "all_fit n restore_prefix (c, p)"
proof -
  obtain a0 a1 a2 a3 a4 a5 a6 a7 a8 a9 a10 a11 a12 a13 a14 a15 where
    r: "regs c = [a0, a1, a2, a3, a4, a5, a6, a7, a8, a9, a10, a11, a12, a13, a14, a15]" using regs16[OF assms(1)] by auto
  have "(cpsr p AND NOT 0x80) AND 0x1F = 0x1F"
    using assms(4) by (simp add: and.assoc)
  then show ?thesis using assms(3) by (simp add: restore_prefix_code r get_word_def)
qed

lemma restore_prefix_effect:
  assumes "length (regs c) = 16" "length (registers p) = 13"
  shows "execute restore_prefix (c, p) =
    (c\<lparr>regs := registers p @ [regs c ! 13, link_register p, regs c ! 15], stack := stack_pointer p # stack c,
       status := cpsr p AND NOT 0x80, pc_cache := program_counter p\<rparr>, p)"
proof -
  obtain a0 a1 a2 a3 a4 a5 a6 a7 a8 a9 a10 a11 a12 a13 a14 a15 where
    r: "regs c = [a0, a1, a2, a3, a4, a5, a6, a7, a8, a9, a10, a11, a12, a13, a14, a15]" using regs16[OF assms(1)] by auto
  obtain b0 b1 b2 b3 b4 b5 b6 b7 b8 b9 b10 b11 b12 where
    q: "registers p = [b0, b1, b2, b3, b4, b5, b6, b7, b8, b9, b10, b11, b12]" using regs13[OF assms(2)] by auto
  show ?thesis by (simp add: restore_prefix_code execute_Cons execute_Nil r q get_word_def)
qed

lemma save_keeps_cpu:
  assumes "length (regs c) = 16" "length (registers p) = 13"
  shows "stack (fst (execute save_context_asm (c, p))) = stack c \<and> status (fst (execute save_context_asm (c, p))) = status c"
proof -
  obtain a0 a1 a2 a3 a4 a5 a6 a7 a8 a9 a10 a11 a12 a13 a14 a15 where
    r: "regs c = [a0, a1, a2, a3, a4, a5, a6, a7, a8, a9, a10, a11, a12, a13, a14, a15]" using regs16[OF assms(1)] by auto
  show ?thesis by (simp add: save_context_asm_def execute_Cons execute_Nil r)
qed

section \<open>Saving and restoring on the machine\<close>

definition cpu_of :: "processor \<Rightarrow> layout \<Rightarrow> arm \<Rightarrow> cpu" where
  "cpu_of P L m = \<lparr>regs = map (get m) [0..<16], status = psr m, saved_status = sys_spsr P, stack = [],
     pc_cache = words m (pc_cache_at L), usr_sp_cache = words m (usr_sp_at L), irq_lr_cache = words m (irq_lr_at L),
     current_pointer = words m (current_var L)\<rparr>"

definition process_at :: "(u32 \<Rightarrow> u32) \<Rightarrow> u32 \<Rightarrow> process_t \<Rightarrow> process_t" where
  "process_at w pcb p = p\<lparr>registers := map (\<lambda>k. w (pcb + 4 * word_of_nat k)) [0..<13], stack_pointer := w (pcb + 52),
     link_register := w (pcb + 56), cpsr := w (pcb + 60), program_counter := w (pcb + 64)\<rparr>"

lemma get_word_process_at:
  assumes "k < 17"
  shows "get_word k (process_at w pcb p) = w (pcb + 4 * word_of_nat k)"
proof -
  consider "k < 13" | "k = 13" | "k = 14" | "k = 15" | "k = 16" using assms by linarith
  then show ?thesis by cases (simp_all add: get_word_def process_at_def)
qed

lemma sim_start:
  assumes "psr m AND 0x1F = 0x1F" "words m (current_var L) = pcb" "get m 13 = b"
  shows "sim P L b pcb n m m (cpu_of P L m, process_at (words m) pcb p)"
  using assms by (simp add: sim_def cpu_of_def get_word_process_at) (simp add: process_at_def)

definition ready_at :: "layout \<Rightarrow> u32 \<Rightarrow> u32 \<Rightarrow> arm \<Rightarrow> bool" where
  "ready_at L b pcb m \<longleftrightarrow> psr m AND 0x1F = 0x1F \<and> words m (current_var L) = pcb \<and> get m 13 = b"

text \<open>The control block as \<^verbatim>\<open>save_context_asm\<close> leaves it; the words are those of \<^verbatim>\<open>Scheduler.save_effect\<close>.\<close>

lemma save_code_effect:
  assumes "apart L b pcb n" "2 \<le> n" "ready_at L b pcb m"
  shows "\<exists>m'. run P (save_context_code L) m = Some m' \<and>
    words m' pcb = get m 1 \<and> words m' (pcb + 4) = get m 0 \<and>
    (\<forall>k \<in> {2..12}. words m' (pcb + 4 * word_of_nat k) = get m k) \<and>
    words m' (pcb + 52) = words m (usr_sp_at L) \<and> words m' (pcb + 56) = words m (irq_lr_at L) \<and>
    words m' (pcb + 60) = sys_spsr P \<and> words m' (pcb + 64) = words m (irq_lr_at L) \<and>
    ready_at L b pcb m' \<and> psr m' AND 0x80 = psr m AND 0x80 \<and> register_file m' (SP Svc) = register_file m (SP Svc) \<and>
    (\<forall>a. a \<noteq> pc_cache_at L \<and> a \<notin> set (pcb_words pcb) \<and> a \<notin> set (stack_words b n) \<longrightarrow> words m' a = words m a)"
proof -
  fix p0 :: process_t
  let ?c = "cpu_of P L m" and ?p = "process_at (words m) pcb p0"
  have len: "length (regs ?c) = 16" "length (registers ?p) = 13" by (simp_all add: cpu_of_def process_at_def)
  have r: "psr m AND 0x1F = 0x1F" "words m (current_var L) = pcb" "get m 13 = b" using assms(3) by (simp_all add: ready_at_def)
  obtain m' where m': "run P (save_context_code L) m = Some m'"
    "sim P L b pcb n m m' (execute save_context_asm (?c, ?p))"
    using sim_run[OF assms(1) sim_start[OF r, of P n p0] save_fits[OF len]] assms(2)
    by (auto simp: save_context_compiled cpu_of_def)
  obtain c q where cq: "execute save_context_asm (?c, ?p) = (c, q)" by fastforce
  have q: "q = ?p\<lparr>registers := [regs ?c ! 1, regs ?c ! 0] @ drop 2 (take 13 (regs ?c)), stack_pointer := usr_sp_cache ?c,
      link_register := irq_lr_cache ?c, cpsr := saved_status ?c, program_counter := irq_lr_cache ?c\<rparr>"
    using save_effect[OF len] cq by simp
  have c: "stack c = []" "status c = psr m" using save_keeps_cpu[OF len] cq by (simp_all add: cpu_of_def)
  note s = m'(2)[unfolded cq]
  have w: "words m' (pcb + 4 * word_of_nat k) = get_word k q" if "k < 17" for k using sim_facts(9)[OF s that] .
  have g: "get_word k q = get m k" if "k \<in> {2..12}" for k
  proof -
    define j where "j = k - 2"
    have "k = Suc (Suc j)" "j < 11" using that by (auto simp: j_def)
    then show ?thesis by (simp add: q get_word_def nth_append cpu_of_def)
  qed
  have "words m' (pcb + 4 * word_of_nat k) = get m k" if "k \<in> {2..12}" for k using w[of k] g[OF that] that by simp
  moreover have "words m' pcb = get m 1" "words m' (pcb + 4) = get m 0" "words m' (pcb + 52) = words m (usr_sp_at L)"
    "words m' (pcb + 56) = words m (irq_lr_at L)" "words m' (pcb + 60) = sys_spsr P"
    "words m' (pcb + 64) = words m (irq_lr_at L)"
    using w[of 0] w[of 1] w[of 13] w[of 14] w[of 15] w[of 16] by (simp_all add: get_word_def q cpu_of_def)
  moreover have "ready_at L b pcb m'" using sim_facts(1,4,10)[OF s] c by (simp add: ready_at_def)
  moreover have "psr m' AND 0x80 = psr m AND 0x80"
  proof -
    have "x AND 0x80 = (x AND 0xFF0000FF) AND 0x80" for x :: u32 by (simp add: and.assoc)
    then show ?thesis using sim_facts(12)[OF s] c(2) by metis
  qed
  moreover have "\<forall>a. a \<noteq> pc_cache_at L \<and> a \<notin> set (pcb_words pcb) \<and> a \<notin> set (stack_words b n) \<longrightarrow> words m' a = words m a"
    using s by (simp add: sim_def)
  ultimately show ?thesis using m'(1) sim_facts(13)[OF s] by blast
qed

text \<open>
  The restore leaves the stack pointer it was entered with, less four, in \<^verbatim>\<open>os_sp_cache\<close>: the word is
  stored while the stack pointer of the process is still on the kernel stack.
\<close>

lemma restore_code_effect:
  assumes "apart L b pcb n" "15 \<le> n" "ready_at L b pcb m" "words m (pcb + 60) AND 0x1F = 0x1F"
  shows "\<exists>m'. run P (restore_context_code L) m = Some m' \<and>
    (\<forall>k \<in> {0..12}. get m' k = words m (pcb + 4 * word_of_nat k)) \<and>
    get m' 13 = popped_base P (words m (pcb + 52)) b \<and> get m' 14 = words m (pcb + 56) \<and>
    get m' 15 = words m (pcb + 64) \<and> psr m' AND 0xFF0000FF = (words m (pcb + 60) AND NOT 0x80) AND 0xFF0000FF \<and>
    words m' (os_sp_at L) = b - 4 \<and> psr m' AND 0x1F = 0x1F \<and> register_file m' (SP Svc) = register_file m (SP Svc) \<and>
    (\<forall>k < 17. words m' (pcb + 4 * word_of_nat k) = words m (pcb + 4 * word_of_nat k)) \<and>
    (\<forall>a. a \<noteq> pc_cache_at L \<and> a \<noteq> os_sp_at L \<and> a \<notin> set (pcb_words pcb) \<and> a \<notin> set (stack_words b n) \<longrightarrow>
       words m' a = words m a)"
proof -
  fix p0 :: process_t
  let ?c = "cpu_of P L m" and ?p = "process_at (words m) pcb p0"
  have len: "length (regs ?c) = 16" "length (registers ?p) = 13" by (simp_all add: cpu_of_def process_at_def)
  have r: "psr m AND 0x1F = 0x1F" "words m (current_var L) = pcb" "get m 13 = b" using assms(3) by (simp_all add: ready_at_def)
  have p: "cpsr ?p AND 0x1F = 0x1F" "stack ?c = []" using assms(4) by (simp_all add: process_at_def cpu_of_def)
  obtain m1 where m1: "run P (concat (map (machine_code L) restore_prefix)) m = Some m1"
    "sim P L b pcb n m m1 (execute restore_prefix (?c, ?p))"
    using sim_run[OF assms(1) sim_start[OF r, of P n p0] restore_fits[OF len _ p(1)]] assms(2) p(2) by auto
  note s = m1(2)[unfolded restore_prefix_effect[OF len] p(2)]
  note sf = sim_facts[OF s]
  have g: "get m1 k = words m (pcb + 4 * word_of_nat k)" if "k < 13" for k
    using sf(3)[of k] that by (simp add: nth_append process_at_def)
  have g14: "get m1 14 = words m (pcb + 56)" using sf(3)[of 14] by (simp add: nth_append process_at_def)
  have sp: "get m1 13 = b - 4" using sf(10) by simp
  have top: "words m1 (b - 4) = words m (pcb + 52)" using s by (simp add: sim_def process_at_def)
  have pc: "words m1 (pc_cache_at L) = words m (pcb + 64)" using sf(6) by (simp add: process_at_def)
  have al: "word_aligned (os_sp_at L)" "word_aligned (pc_cache_at L)" "word_aligned (b - 4)"
    using apart_aligned[OF assms(1)] apart_aligned(3)[OF assms(1), of 1] by (simp_all add: cells_def)
  have ne: "os_sp_at L \<noteq> b - 4" "pc_cache_at L \<noteq> os_sp_at L"
    using apart_cells(2)[OF assms(1), of "os_sp_at L" 0] assms(1,2) by (auto simp: cells_def apart_def)
  let ?m2 = "m1\<lparr>words := (words m1)(os_sp_at L := b - 4)\<rparr>"
  let ?m3 = "put 15 (words m (pcb + 64)) (put 13 (popped_base P (words m (pcb + 52)) b) (put 13 b ?m2))"
  have "run P (restore_context_code L) m = Some ?m3"
    using m1(1) al ne sp top pc by (simp add: restore_context_compiled run_append store_word_def load_word_def ldmfd_def Let_def)
  moreover have "psr m1 AND 0xFF0000FF = (words m (pcb + 60) AND NOT 0x80) AND 0xFF0000FF"
    using sf(12) by (simp add: process_at_def)
  moreover have "words ?m3 a = words m a" if "a \<noteq> pc_cache_at L" "a \<noteq> os_sp_at L" "a \<notin> set (pcb_words pcb)"
    "a \<notin> set (stack_words b n)" for a using that s by (simp add: sim_def)
  moreover have "words ?m3 (pcb + 4 * word_of_nat k) = words m (pcb + 4 * word_of_nat k)" if "k < 17" for k
    using sf(9)[OF that] get_word_process_at[OF that] apart_cells(1)[OF assms(1) _ that, of "os_sp_at L"]
    by (auto simp: cells_def)
  moreover have "register_file ?m3 (SP Svc) = register_file m (SP Svc)" using sf(2,13) by (simp add: put_svc)
  ultimately show ?thesis using g g14 sf(1) by (intro exI[of _ ?m3]) simp
qed

text \<open>The status word with the selected fields replaced.\<close>

definition merge :: "u32 \<Rightarrow> u32 \<Rightarrow> u32 \<Rightarrow> u32" where
  "merge sel x v = (x AND NOT sel) OR (v AND sel)"

lemma merge_mode:
  assumes "sel AND 0x1F = 0x1F"
  shows "merge sel x v AND 0x1F = v AND 0x1F" "bank_of (merge sel x v) = bank_of v" "mode_bank (merge sel x v) = mode_bank v"
proof -
  have "NOT sel AND 0x1F = NOT sel AND (sel AND 0x1F)" by (simp only: assms)
  also have "\<dots> = 0" by (simp only: and.assoc[symmetric] and.commute[of "NOT sel" sel] bit.conj_cancel_right bit.conj_zero_left)
  finally have "(x AND NOT sel) AND 0x1F = 0" by (simp only: and.assoc bit.conj_zero_right)
  then show m: "merge sel x v AND 0x1F = v AND 0x1F"
    using assms by (simp add: merge_def bit.conj_disj_distrib2 and.assoc)
  show "bank_of (merge sel x v) = bank_of v" "mode_bank (merge sel x v) = mode_bank v"
    by (simp_all add: bank_of_def mode_bank_def m)
qed

lemma merge_field:
  assumes "sel AND f = f"
  shows "merge sel x v AND f = v AND f"
proof -
  have "(x AND NOT sel) AND f = x AND ((NOT sel AND sel) AND f)" using assms by (metis and.assoc)
  then have "(x AND NOT sel) AND f = 0" by simp
  then show ?thesis using assms by (simp add: merge_def bit.conj_disj_distrib2 and.assoc)
qed

text \<open>
  What holds of every processor: the restore has no result when the saved status names no mode, and
  where it has one it continues at the saved program counter, whatever mode the status names.
\<close>

definition restore_pops :: "opcode list" where
  "restore_pops = map (\<lambda>r. Ldmfd [r]) ([0..<13] @ [14])"

lemma restore_context_split:
  "restore_context_code L = concat (map (machine_code L) (take 35 restore_prefix)) @ Msr_cpsr_fc 1 # restore_pops @
     [Str_at 13 (os_sp_at L), Ldmfd [13], Ldr_at 15 (pc_cache_at L)]"
  by (simp add: restore_context_code_def restore_prefix_code restore_pops_def upt_rec)

lemma pops_keep_words: "run P (map (\<lambda>r. Ldmfd [r]) rs) m = Some m' \<Longrightarrow> words m' = words m"
  by (induction rs arbitrary: m) (auto simp: ldmfd_def Let_def bind_eq_Some_conv' split: if_splits)

lemma restore_head:
  assumes "apart L b pcb n" "15 \<le> n" "ready_at L b pcb m"
  obtains m1 where "run P (concat (map (machine_code L) (take 35 restore_prefix))) m = Some m1" "psr m1 AND 0x1F = 0x1F"
    "get m1 1 = words m (pcb + 60) AND NOT 0x80" "words m1 (pc_cache_at L) = words m (pcb + 64)"
proof -
  fix p0 :: process_t
  let ?c = "cpu_of P L m" and ?p = "process_at (words m) pcb p0"
  let ?code = "take 35 restore_prefix"
  have len: "length (regs ?c) = 16" "length (registers ?p) = 13" by (simp_all add: cpu_of_def process_at_def)
  have r: "psr m AND 0x1F = 0x1F" "words m (current_var L) = pcb" "get m 13 = b" using assms(3) by (simp_all add: ready_at_def)
  obtain a0 a1 a2 a3 a4 a5 a6 a7 a8 a9 a10 a11 a12 a13 a14 a15 where
    a: "regs ?c = [a0, a1, a2, a3, a4, a5, a6, a7, a8, a9, a10, a11, a12, a13, a14, a15]" using regs16[OF len(1)] by blast
  have st: "stack ?c = []" by (simp add: cpu_of_def)
  have fit: "all_fit n ?code (?c, ?p)" using assms(2) by (simp add: restore_prefix_code a st)
  obtain m1 where m1: "run P (concat (map (machine_code L) ?code)) m = Some m1"
    "sim P L b pcb n m m1 (execute ?code (?c, ?p))"
    using sim_run[OF assms(1) sim_start[OF r, of P n p0] fit] by blast
  obtain c q where cq: "execute ?code (?c, ?p) = (c, q)" by fastforce
  have "regs (fst (execute ?code (?c, ?p))) ! 1 = cpsr ?p AND NOT 0x80"
    "pc_cache (fst (execute ?code (?c, ?p))) = program_counter ?p"
    by (simp_all add: restore_prefix_code execute_Cons execute_Nil a get_word_def)
  then have "regs c ! 1 = words m (pcb + 60) AND NOT 0x80" "pc_cache c = words m (pcb + 64)"
    unfolding cq by (simp_all add: process_at_def)
  moreover have "get m1 1 = regs c ! 1" "words m1 (pc_cache_at L) = pc_cache c" "psr m1 AND 0x1F = 0x1F"
    using sim_facts(1,6)[OF m1(2)[unfolded cq]] sim_facts(3)[OF m1(2)[unfolded cq], of 1] by simp_all
  ultimately show ?thesis using that[of m1] m1(1) by metis
qed

lemma restore_no_mode:
  assumes "apart L b pcb n" "15 \<le> n" "ready_at L b pcb m" "mode_bank (words m (pcb + 60)) = None"
  shows "run P (restore_context_code L) m = None"
proof -
  obtain m1 where m1: "run P (concat (map (machine_code L) (take 35 restore_prefix))) m = Some m1" "psr m1 AND 0x1F = 0x1F"
    "get m1 1 = words m (pcb + 60) AND NOT 0x80" using restore_head[OF assms(1-3), of P] by metis
  have "mode_bank (get m1 1) = None" using assms(4) m1(3) by (simp add: mode_bank_def and.assoc)
  then have "mode_bank (merge 0xFF0000FF (psr m1) (get m1 1)) = None" by (simp add: merge_mode)
  then have "step P (Msr_cpsr_fc 1) m1 = None" using m1(2) by (simp add: write_psr_def Let_def merge_def)
  then show ?thesis by (simp add: restore_context_split run_append m1(1))
qed

lemma restore_pc:
  assumes "apart L b pcb n" "15 \<le> n" "ready_at L b pcb m" "run P (restore_context_code L) m = Some m'"
  shows "get m' 15 = words m (pcb + 64)"
proof -
  obtain m1 where m1: "run P (concat (map (machine_code L) (take 35 restore_prefix))) m = Some m1"
    "words m1 (pc_cache_at L) = words m (pcb + 64)" using restore_head[OF assms(1-3), of P] by metis
  obtain m2 m3 m4 m5 where s: "step P (Msr_cpsr_fc 1) m1 = Some m2" "run P restore_pops m2 = Some m3"
    "step P (Str_at 13 (os_sp_at L)) m3 = Some m4" "step P (Ldmfd [13]) m4 = Some m5"
    "step P (Ldr_at 15 (pc_cache_at L)) m5 = Some m'"
    using assms(4) by (auto simp: restore_context_split run_append m1(1) bind_eq_Some_conv' simp del: step.simps)
  have "words m2 = words m1" using s(1) by (auto simp: write_psr_def Let_def split: if_splits)
  moreover have "words m3 = words m2" using s(2) unfolding restore_pops_def by (rule pops_keep_words)
  moreover have "pc_cache_at L \<noteq> os_sp_at L" using assms(1) by (auto simp: apart_def cells_def)
  moreover have "words m4 = (words m3)(os_sp_at L := get m3 13)" using s(3) by (auto simp: store_word_def split: if_splits)
  moreover have "words m5 = words m4" using s(4) by (auto simp: ldmfd_def Let_def split: if_splits)
  moreover have "get m' 15 = words m5 (pc_cache_at L)"
    using s(5) by (auto simp: load_word_def bind_eq_Some_conv' split: if_splits)
  ultimately show ?thesis using m1(2) by simp
qed

section \<open>The entries\<close>

text \<open>
  The system-mode half of both entries: with the stack pointer and link register of the process
  cached, the kernel stack pointer is loaded and the context saved.
\<close>

definition entry_tail :: "layout \<Rightarrow> opcode list" where
  "entry_tail L = load_os_sp L @ [Bl (ret_save_context L)] @ save_context_code L"

lemma entry_tail_effect:
  assumes "apart L b pcb n" "2 \<le> n" "psr m AND 0x1F = 0x1F" "words m (current_var L) = pcb" "words m (os_sp_at L) = b"
  shows "\<exists>m'. run P (entry_tail L) m = Some m' \<and>
    words m' pcb = get m 1 \<and> words m' (pcb + 4) = get m 0 \<and>
    (\<forall>k \<in> {2..12}. words m' (pcb + 4 * word_of_nat k) = get m k) \<and>
    words m' (pcb + 52) = words m (usr_sp_at L) \<and> words m' (pcb + 56) = words m (irq_lr_at L) \<and>
    words m' (pcb + 60) = sys_spsr P \<and> words m' (pcb + 64) = words m (irq_lr_at L) \<and>
    ready_at L b pcb m' \<and> psr m' AND 0x80 = psr m AND 0x80 \<and> words m' (os_sp_at L) = b \<and>
    register_file m' (SP Svc) = register_file m (SP Svc) \<and>
    (\<forall>a. a \<noteq> pc_cache_at L \<and> a \<notin> set (pcb_words pcb) \<and> a \<notin> set (stack_words b n) \<longrightarrow> words m' a = words m a)"
proof -
  let ?m = "put 14 (ret_save_context L) (put 13 b m)"
  have i: "os_sp_at L \<in> set (cells L)" by (simp add: cells_def)
  have al: "word_aligned (os_sp_at L)" using apart_aligned(1)[OF assms(1) i] .
  have run: "run P (entry_tail L) m = run P (save_context_code L) ?m"
    using al assms(5) by (simp add: entry_tail_def load_os_sp_def run_append load_word_def)
  have "ready_at L b pcb ?m" using assms(3,4) by (simp add: ready_at_def)
  from save_code_effect[OF assms(1,2) this, of P] obtain m' where m': "run P (save_context_code L) ?m = Some m'"
    "words m' pcb = get ?m 1 \<and> words m' (pcb + 4) = get ?m 0 \<and>
    (\<forall>k \<in> {2..12}. words m' (pcb + 4 * word_of_nat k) = get ?m k) \<and>
    words m' (pcb + 52) = words ?m (usr_sp_at L) \<and> words m' (pcb + 56) = words ?m (irq_lr_at L) \<and>
    words m' (pcb + 60) = sys_spsr P \<and> words m' (pcb + 64) = words ?m (irq_lr_at L) \<and>
    ready_at L b pcb m' \<and> psr m' AND 0x80 = psr ?m AND 0x80" "register_file m' (SP Svc) = register_file ?m (SP Svc)"
    "\<forall>a. a \<noteq> pc_cache_at L \<and> a \<notin> set (pcb_words pcb) \<and> a \<notin> set (stack_words b n) \<longrightarrow> words m' a = words ?m a"
    by blast
  have "bank_of (psr m) = Usr" using assms(3) by (simp add: bank_of_simps)
  then have svc: "register_file ?m (SP Svc) = register_file m (SP Svc)" by (simp add: put_svc)
  have "os_sp_at L \<noteq> pc_cache_at L \<and> os_sp_at L \<notin> set (pcb_words pcb) \<and> os_sp_at L \<notin> set (stack_words b n)"
    using assms(1) by (auto simp: apart_def cells_def)
  then show ?thesis using m' assms(5) run svc by (intro exI[of _ m']) simp
qed

lemma write_psr_merge:
  assumes "psr m AND 0x1F \<noteq> 0x10" "sel AND 0x1F = 0x1F" "mode_bank v \<noteq> None"
  shows "write_psr sel v m = Some (m\<lparr>psr := merge sel (psr m) v\<rparr>)"
  using assms merge_mode(3)[OF assms(2), of "psr m" v] by (auto simp: write_psr_def Let_def merge_def)

lemma or_system: "(x OR 0x1F) AND 0x1F = (0x1F :: u32)"
  by (rule bit_word_eqI) (auto simp: bit_and_iff bit_or_iff)

lemma or_system_bank: "bank_of (x OR 0x1F) = Usr" "mode_bank (x OR 0x1F) = Some Usr"
  using or_system[of x] by (simp_all add: bank_of_def mode_bank_def)

lemma take_swi_state:
  "psr (take_swi next m) AND 0x1F = 0x13" "register_file (take_swi next m) = (register_file m)(LR Svc := next)"
  "spsr_of (take_swi next m) Svc = psr m" "words (take_swi next m) = words m"
proof -
  show "psr (take_swi next m) AND 0x1F = 0x13"
    by (simp add: take_swi_def take_exception_def Let_def bit.conj_disj_distrib2 and.assoc)
qed (simp_all add: take_swi_def take_exception_def Let_def bank_of_simps)

definition svc_prefix :: "layout \<Rightarrow> opcode list" where
  "svc_prefix L =
     [Stmfd [0], Stmfd [1], Mrs_cpsr 1, Orr_const 1 1 MODE_Sys, Msr_cpsr_fc 1, Mov 0 13, Mov 1 14,
      Bl (ret_save_sp L)] @ save_sp_and_lr_usr L @
     [Cpsid_i MODE_Supervisor, Ldmfd [1], Ldmfd [0], Msr_cpsr_fc_const MODE_Sys, Bl (ret_load_sp L)]"

definition irq_prefix :: "layout \<Rightarrow> opcode list" where
  "irq_prefix L =
     [Sub_const 14 14 4, Str_at 0 (r0_at L), Str_at 1 (r1_at L),
      Mrs_cpsr 1, Orr_const 1 1 MODE_Sys, Msr_cpsr_fc 1, Mov 0 13, Mov 1 14, Bl (ret_save_sp L)] @
     save_sp_and_lr_usr L @ [Ldr_at 0 (r0_at L), Ldr_at 1 (r1_at L), Bl (ret_load_sp L)]"

lemma entries_split:
  "svc_entry_code L = svc_prefix L @ entry_tail L" "irq_entry_code L = irq_prefix L @ entry_tail L"
  by (simp_all add: svc_entry_code_def svc_prefix_def irq_entry_code_def irq_handler_asm_def irq_prefix_def entry_tail_def)

lemma cells_distinct:
  assumes "apart L b pcb n"
  shows "distinct (cells L)" "\<forall>a \<in> set (cells L). word_aligned a"
  using assms by (simp_all add: apart_def)

lemma svc_prefix_effect:
  assumes "apart L b pcb n" "psr m AND 0x1F = 0x1F" "s = register_file m (SP Svc)" "word_aligned s"
    "s - 4 \<notin> set (cells L)" "s - 8 \<notin> set (cells L)"
  shows "\<exists>m'. run P (svc_prefix L) (take_swi next m) = Some m' \<and> psr m' AND 0x1F = 0x1F \<and> psr m' AND 0x80 = 0 \<and>
    (\<forall>k < 13. get m' k = get m k) \<and> words m' (usr_sp_at L) = get m 13 \<and> words m' (irq_lr_at L) = get m 14 \<and>
    words m' (current_var L) = words m (current_var L) \<and> words m' (os_sp_at L) = words m (os_sp_at L) \<and>
    register_file m' (SP Svc) = register_file m (SP Svc) \<and>
    (\<forall>a. a \<notin> {s - 4, s - 8, usr_sp_at L, irq_lr_at L} \<longrightarrow> words m' a = words m a)"
proof -
  have c: "distinct (cells L)" "\<forall>a \<in> set (cells L). word_aligned a" by (rule cells_distinct[OF assms(1)])+
  have al: "word_aligned s" "word_aligned (s - 4)" "word_aligned (s - 8)"
    using assms(4) aligned_offset(2)[of s 1] aligned_offset(2)[of s 2] by simp_all
  have b: "bank_of (psr m) = Usr" "bank_of (psr (take_swi next m)) = Svc"
    using assms(2) take_swi_state(1) by (simp_all add: bank_of_simps)
  have m: "mode_bank 0x93 = Some Svc" "mode_bank 0x1F = Some Usr" "bank_of 0x93 = Svc" "bank_of 0x1F = Usr"
    by (simp_all add: mode_bank_def bank_of_def)
  have i: "merge 0xFF0000FF x v AND 0x80 = v AND 0x80" for x v by (intro merge_field) simp
  have ne: "\<forall>a \<in> set (cells L). a \<noteq> s - 4 \<and> a \<noteq> s - 8 \<and> s - 4 \<noteq> a \<and> s - 8 \<noteq> a" using assms(5,6) by auto
  show ?thesis
    using c al b m i ne assms(2,3) take_swi_state(1)[of "next" m]
    by (simp add: svc_prefix_def save_sp_and_lr_usr_def cells_def c_consts stmfd_def ldmfd_def Let_def store_word_def
        write_psr_merge merge_mode or_system or_system_bank put_def get_def reg_of_def take_swi_state(2,4) bank_of_simps)
qed

lemma irq_prefix_effect:
  assumes "apart L b pcb n" "psr m AND 0x1F = 0x1F"
  shows "\<exists>m'. run P (irq_prefix L) (take_irq a m) = Some m' \<and> psr m' AND 0x1F = 0x1F \<and> psr m' AND 0x80 = 0x80 \<and>
    (\<forall>k < 13. get m' k = get m k) \<and> words m' (usr_sp_at L) = get m 13 \<and> words m' (irq_lr_at L) = get m 14 \<and>
    words m' (current_var L) = words m (current_var L) \<and> words m' (os_sp_at L) = words m (os_sp_at L)"
proof -
  have c: "distinct (cells L)" "\<forall>a \<in> set (cells L). word_aligned a" by (rule cells_distinct[OF assms(1)])+
  let ?q = "psr (take_irq a m)"
  have q: "?q AND 0x1F = 0x12" "?q AND 0x80 = 0x80"
  proof -
    show "?q AND 0x1F = 0x12"
      by (simp add: take_irq_def take_exception_def Let_def bit.conj_disj_distrib2 and.assoc)
    have "(x AND 0x80) OR 0x80 = (0x80 :: u32)" for x by (rule bit_word_eqI) (auto simp: bit_and_iff bit_or_iff)
    then show "?q AND 0x80 = 0x80" by (simp add: take_irq_def take_exception_def Let_def bit.conj_disj_distrib2)
  qed
  have b: "bank_of (psr m) = Usr" using assms(2) by (simp add: bank_of_simps)
  have i: "merge 0xFF0000FF x (?q OR 0x1F) AND 0x80 = 0x80" for x
  proof -
    have "merge 0xFF0000FF x (?q OR 0x1F) AND 0x80 = (?q OR 0x1F) AND 0x80" by (intro merge_field) simp
    then show ?thesis using q(2) by (simp add: bit.conj_disj_distrib2)
  qed
  have ne: "usr_sp_at L \<noteq> r0_at L" "usr_sp_at L \<noteq> r1_at L" "irq_lr_at L \<noteq> r0_at L" "irq_lr_at L \<noteq> r1_at L"
    "r0_at L \<noteq> usr_sp_at L" "r1_at L \<noteq> usr_sp_at L" "r0_at L \<noteq> irq_lr_at L" "r1_at L \<noteq> irq_lr_at L"
    using c(1) by (auto simp: cells_def)
  show ?thesis
    using c b i q ne assms(2)
    by (simp add: irq_prefix_def save_sp_and_lr_usr_def cells_def c_consts load_word_def store_word_def
        write_psr_merge merge_mode or_system or_system_bank put_def get_def reg_of_def take_irq_state)
qed

text \<open>
  The control block after an entry, by the registers of the trapped code: r0 and r1 in each other's
  place, and the link register both as such and as the address to resume at.
\<close>

definition saved_block :: "processor \<Rightarrow> u32 \<Rightarrow> arm \<Rightarrow> (u32 \<Rightarrow> u32) \<Rightarrow> bool" where
  "saved_block P pcb m w \<longleftrightarrow> w pcb = get m 1 \<and> w (pcb + 4) = get m 0 \<and>
     (\<forall>k \<in> {2..12}. w (pcb + 4 * word_of_nat k) = get m k) \<and> w (pcb + 52) = get m 13 \<and> w (pcb + 56) = get m 14 \<and>
     w (pcb + 60) = sys_spsr P \<and> w (pcb + 64) = get m 14"

lemma entry_tail_saves:
  assumes "apart L b pcb n" "2 \<le> n" "psr m1 AND 0x1F = 0x1F" "words m1 (current_var L) = pcb" "words m1 (os_sp_at L) = b"
    and "\<forall>k < 13. get m1 k = get m k" "words m1 (usr_sp_at L) = get m 13" "words m1 (irq_lr_at L) = get m 14"
  shows "\<exists>m'. run P (entry_tail L) m1 = Some m' \<and> saved_block P pcb m (words m') \<and> ready_at L b pcb m' \<and>
    psr m' AND 0x80 = psr m1 AND 0x80 \<and> words m' (os_sp_at L) = b \<and>
    register_file m' (SP Svc) = register_file m1 (SP Svc) \<and>
    (\<forall>a. a \<noteq> pc_cache_at L \<and> a \<notin> set (pcb_words pcb) \<and> a \<notin> set (stack_words b n) \<longrightarrow> words m' a = words m1 a)"
proof -
  obtain m' where m': "run P (entry_tail L) m1 = Some m'"
    "words m' pcb = get m1 1" "words m' (pcb + 4) = get m1 0"
    "\<forall>k \<in> {2..12}. words m' (pcb + 4 * word_of_nat k) = get m1 k"
    "words m' (pcb + 52) = words m1 (usr_sp_at L)" "words m' (pcb + 56) = words m1 (irq_lr_at L)"
    "words m' (pcb + 60) = sys_spsr P" "words m' (pcb + 64) = words m1 (irq_lr_at L)"
    "ready_at L b pcb m'" "psr m' AND 0x80 = psr m1 AND 0x80" "words m' (os_sp_at L) = b"
    "register_file m' (SP Svc) = register_file m1 (SP Svc)"
    "\<forall>a. a \<noteq> pc_cache_at L \<and> a \<notin> set (pcb_words pcb) \<and> a \<notin> set (stack_words b n) \<longrightarrow> words m' a = words m1 a"
    using entry_tail_effect[OF assms(1-5), of P] by blast
  then show ?thesis using assms(6-8) by (intro exI[of _ m']) (simp add: saved_block_def)
qed

text \<open>What a trap needs: System mode, a current process, a kernel stack, and for a \<^verbatim>\<open>swi\<close> a supervisor stack.\<close>

definition running :: "layout \<Rightarrow> u32 \<Rightarrow> u32 \<Rightarrow> arm \<Rightarrow> bool" where
  "running L b pcb m \<longleftrightarrow> psr m AND 0x1F = 0x1F \<and> words m (current_var L) = pcb \<and> words m (os_sp_at L) = b \<and>
     (let s = register_file m (SP Svc) in word_aligned s \<and> s - 4 \<notin> set (cells L) \<and> s - 8 \<notin> set (cells L))"

lemma svc_entry_saves:
  assumes "apart L b pcb n" "2 \<le> n" "running L b pcb m"
  shows "\<exists>m'. run P (svc_entry_code L) (take_swi next m) = Some m' \<and> saved_block P pcb m (words m') \<and>
    ready_at L b pcb m' \<and> psr m' AND 0x80 = 0 \<and> words m' (os_sp_at L) = b \<and>
    register_file m' (SP Svc) = register_file m (SP Svc) \<and>
    (\<forall>a. a \<notin> set (cells L) \<and> a \<notin> set (pcb_words pcb) \<and> a \<notin> set (stack_words b n) \<and>
       a \<notin> {register_file m (SP Svc) - 4, register_file m (SP Svc) - 8} \<longrightarrow> words m' a = words m a)"
proof -
  have r: "psr m AND 0x1F = 0x1F" "words m (current_var L) = pcb" "words m (os_sp_at L) = b"
    "word_aligned (register_file m (SP Svc))" "register_file m (SP Svc) - 4 \<notin> set (cells L)"
    "register_file m (SP Svc) - 8 \<notin> set (cells L)" using assms(3) by (simp_all add: running_def Let_def)
  obtain m1 where m1: "run P (svc_prefix L) (take_swi next m) = Some m1" "psr m1 AND 0x1F = 0x1F" "psr m1 AND 0x80 = 0"
    "\<forall>k < 13. get m1 k = get m k" "words m1 (usr_sp_at L) = get m 13" "words m1 (irq_lr_at L) = get m 14"
    "words m1 (current_var L) = pcb" "words m1 (os_sp_at L) = b" "register_file m1 (SP Svc) = register_file m (SP Svc)"
    "\<And>a. a \<notin> {register_file m (SP Svc) - 4, register_file m (SP Svc) - 8, usr_sp_at L, irq_lr_at L} \<Longrightarrow> words m1 a = words m a"
    using svc_prefix_effect[OF assms(1) r(1) refl r(4-6), of P "next"] r(2,3) by auto
  obtain m' where m': "run P (entry_tail L) m1 = Some m'" "saved_block P pcb m (words m')" "ready_at L b pcb m'"
    "psr m' AND 0x80 = psr m1 AND 0x80" "words m' (os_sp_at L) = b" "register_file m' (SP Svc) = register_file m1 (SP Svc)"
    "\<forall>a. a \<noteq> pc_cache_at L \<and> a \<notin> set (pcb_words pcb) \<and> a \<notin> set (stack_words b n) \<longrightarrow> words m' a = words m1 a"
    using entry_tail_saves[OF assms(1,2) m1(2,7,8,4,5,6), of P] by blast
  have "words m' a = words m a" if "a \<notin> set (cells L)" "a \<notin> set (pcb_words pcb)" "a \<notin> set (stack_words b n)"
    "a \<notin> {register_file m (SP Svc) - 4, register_file m (SP Svc) - 8}" for a
    using that m'(7) m1(10)[of a] by (auto simp: cells_def)
  then show ?thesis using m' m1(1,3,9) by (intro exI[of _ m']) (simp add: entries_split run_append)
qed

lemma irq_entry_saves:
  assumes "apart L b pcb n" "2 \<le> n" "running L b pcb m"
  shows "\<exists>m'. run P (irq_entry_code L) (take_irq a m) = Some m' \<and> saved_block P pcb m (words m') \<and>
    ready_at L b pcb m' \<and> psr m' AND 0x80 = 0x80 \<and> words m' (os_sp_at L) = b"
proof -
  have r: "psr m AND 0x1F = 0x1F" "words m (current_var L) = pcb" "words m (os_sp_at L) = b"
    using assms(3) by (simp_all add: running_def Let_def)
  obtain m1 where m1: "run P (irq_prefix L) (take_irq a m) = Some m1" "psr m1 AND 0x1F = 0x1F" "psr m1 AND 0x80 = 0x80"
    "\<forall>k < 13. get m1 k = get m k" "words m1 (usr_sp_at L) = get m 13" "words m1 (irq_lr_at L) = get m 14"
    "words m1 (current_var L) = pcb" "words m1 (os_sp_at L) = b"
    using irq_prefix_effect[OF assms(1) r(1), of P a] r(2,3) by auto
  from entry_tail_saves[OF assms(1,2) m1(2,7,8,4,5,6), of P] m1(1,3) show ?thesis
    by (auto simp: entries_split run_append)
qed

text \<open>The processor that \<^verbatim>\<open>Scheduler\<close> and \<^verbatim>\<open>Kernel\<close> pass to \<^verbatim>\<open>save_context_asm\<close> at a trap.\<close>

definition trap_cpu :: "processor \<Rightarrow> arm \<Rightarrow> cpu" where
  "trap_cpu P m = \<lparr>regs = map (get m) [0..<16], status = psr m, saved_status = sys_spsr P, stack = [],
     pc_cache = 0, usr_sp_cache = get m 13, irq_lr_cache = get m 14, current_pointer = 0\<rparr>"

lemma saved_block_is_saved_context:
  assumes "saved_block P pcb m w" "length (registers p) = 13" "k < 17"
  shows "w (pcb + 4 * word_of_nat k) = get_word k (snd (execute save_context_asm (trap_cpu P m, p)))"
proof -
  have t: "regs (trap_cpu P m) = map (get m) [0..<16]" "usr_sp_cache (trap_cpu P m) = get m 13"
    "irq_lr_cache (trap_cpu P m) = get m 14" "saved_status (trap_cpu P m) = sys_spsr P" by (simp_all add: trap_cpu_def)
  then have len: "length (regs (trap_cpu P m)) = 16" by simp
  have b: "w pcb = get m 1" "w (pcb + 4) = get m 0" "\<And>k. k \<in> {2..12} \<Longrightarrow> w (pcb + 4 * word_of_nat k) = get m k"
    "w (pcb + 52) = get m 13" "w (pcb + 56) = get m 14" "w (pcb + 60) = sys_spsr P" "w (pcb + 64) = get m 14"
    using assms(1) by (simp_all add: saved_block_def)
  consider "k = 0" | "k = 1" | "k \<in> {2..12}" | "k = 13" | "k = 14" | "k = 15" | "k = 16" using assms(3) by fastforce
  then show ?thesis
  proof cases
    case 3
    define j where "j = k - 2"
    have "k = Suc (Suc j)" "j < 11" using 3 by (auto simp: j_def)
    then show ?thesis using b(3)[OF 3] by (simp add: save_effect[OF len assms(2)] get_word_def nth_append t)
  qed (use b in \<open>simp_all add: save_effect[OF len assms(2)] get_word_def t\<close>)
qed

text \<open>A saved context that is restored later, by any machine that has the control block as it was.\<close>

lemma saved_block_resumes:
  assumes "saved_block P pcb m w" "sys_spsr P AND 0x1F = 0x1F"
    and "apart L b pcb n" "15 \<le> n" "ready_at L b pcb d" "\<forall>a \<in> set (pcb_words pcb). words d a = w a"
  shows "\<exists>m'. run P (restore_context_code L) d = Some m' \<and> get m' 0 = get m 1 \<and> get m' 1 = get m 0 \<and>
    (\<forall>k \<in> {2..12}. get m' k = get m k) \<and> get m' 13 = popped_base P (get m 13) b \<and> get m' 14 = get m 14 \<and> get m' 15 = get m 14 \<and>
    psr m' AND 0x9F = 0x1F \<and> words m' (os_sp_at L) = b - 4"
proof -
  have d: "words d (pcb + 4 * word_of_nat k) = w (pcb + 4 * word_of_nat k)" if "k < 17" for k
    using assms(6) that by (simp add: pcb_words_def)
  have w: "w pcb = get m 1" "w (pcb + 4) = get m 0" "\<And>k. k \<in> {2..12} \<Longrightarrow> w (pcb + 4 * word_of_nat k) = get m k"
    "w (pcb + 52) = get m 13" "w (pcb + 56) = get m 14" "w (pcb + 60) = sys_spsr P" "w (pcb + 64) = get m 14"
    using assms(1) by (simp_all add: saved_block_def)
  have "words d (pcb + 60) AND 0x1F = 0x1F" using d[of 15] w(6) assms(2) by simp
  then obtain m' where m': "run P (restore_context_code L) d = Some m'"
    "\<And>k. k \<in> {0..12} \<Longrightarrow> get m' k = words d (pcb + 4 * word_of_nat k)"
    "get m' 13 = popped_base P (words d (pcb + 52)) b" "get m' 14 = words d (pcb + 56)" "get m' 15 = words d (pcb + 64)"
    "psr m' AND 0xFF0000FF = (words d (pcb + 60) AND NOT 0x80) AND 0xFF0000FF" "words m' (os_sp_at L) = b - 4"
    using restore_code_effect[OF assms(3-5), of P] by auto
  have "psr m' AND 0x9F = (psr m' AND 0xFF0000FF) AND 0x9F" by (simp add: and.assoc)
  also have "\<dots> = words d (pcb + 60) AND 0x1F" unfolding m'(6) by (simp add: and.assoc)
  also have "\<dots> = 0x1F" using d[of 15] w(6) assms(2) by simp
  finally have "psr m' AND 0x9F = 0x1F" .
  moreover have "get m' k = get m k" if "k \<in> {2..12}" for k
    using m'(2)[of k] d[of k] w(3)[OF that] that by simp
  moreover have "get m' 0 = get m 1" "get m' 1 = get m 0" "get m' 13 = popped_base P (get m 13) b" "get m' 14 = get m 14" "get m' 15 = get m 14"
    using m'(2)[of 0] m'(2)[of 1] m'(3-5) d[of 0] d[of 1] d[of 13] d[of 14] d[of 16] w by simp_all
  ultimately show ?thesis using m'(1,7) by blast
qed

lemma saved_block_pc:
  assumes "saved_block P pcb m w" "apart L b pcb n" "15 \<le> n" "ready_at L b pcb d" "\<forall>a \<in> set (pcb_words pcb). words d a = w a"
  shows "mode_bank (sys_spsr P) = None \<Longrightarrow> run P (restore_context_code L) d = None"
    and "run P (restore_context_code L) d = Some m' \<Longrightarrow> get m' 15 = get m 14"
proof -
  have d: "words d (pcb + 4 * word_of_nat k) = w (pcb + 4 * word_of_nat k)" if "k < 17" for k
    using assms(5) that by (simp add: pcb_words_def)
  have "words d (pcb + 60) = sys_spsr P" "words d (pcb + 64) = get m 14"
    using d[of 15] d[of 16] assms(1) by (simp_all add: saved_block_def)
  then show "mode_bank (sys_spsr P) = None \<Longrightarrow> run P (restore_context_code L) d = None"
    "run P (restore_context_code L) d = Some m' \<Longrightarrow> get m' 15 = get m 14"
    using restore_no_mode[OF assms(2-4)] restore_pc[OF assms(2-4)] by simp_all
qed

lemma undef_entry_passes_fault:
  assumes "bank_of (psr m) = Und"
  shows "\<exists>m'. run P (mmu_undef_handler_asm ret) m = Some m' \<and> get m' 0 = psr m \<and>
    get m' 1 = register_file m (LR Und) - 4"
  using assms by (simp add: mmu_undef_handler_asm_def) (simp add: get_def reg_of_def)

section \<open>Properties\<close>

text \<open>
  C7. The code of the two entries does what the scheduler model takes it to do: after a \<^verbatim>\<open>swi\<close> or an
  interrupt the control block holds, word by word, the context that \<^verbatim>\<open>save_context_asm\<close> saves in
  \<^verbatim>\<open>Scheduler\<close> and \<^verbatim>\<open>Kernel\<close>, the kernel runs in System mode on its own stack, and interrupts are
  masked after an interrupt but enabled after a \<^verbatim>\<open>swi\<close>, while the cached words are still in use.
\<close>

theorem trap_entries_save_the_context:
  assumes "apart L b pcb n" "2 \<le> n" "running L b pcb m" "length (registers p) = 13"
    and "(code, t) \<in> {(svc_entry_code L, take_swi x m), (irq_entry_code L, take_irq x m)}"
  shows "\<exists>m'. run P code t = Some m' \<and> ready_at L b pcb m' \<and>
    (\<forall>k < 17. words m' (pcb + 4 * word_of_nat k) = get_word k (snd (execute save_context_asm (trap_cpu P m, p)))) \<and>
    (psr m' AND 0x80 = 0 \<longleftrightarrow> code = svc_entry_code L)"
proof -
  have ne: "svc_entry_code L \<noteq> irq_entry_code L" by (simp add: svc_entry_code_def irq_entry_code_def irq_handler_asm_def)
  from assms(5) consider "code = svc_entry_code L" "t = take_swi x m" | "code = irq_entry_code L" "t = take_irq x m" by auto
  then show ?thesis
  proof cases
    case 1
    then show ?thesis using svc_entry_saves[OF assms(1-3), of P x] saved_block_is_saved_context[OF _ assms(4)] by auto
  next
    case 2
    then show ?thesis using irq_entry_saves[OF assms(1-3), of P x] saved_block_is_saved_context[OF _ assms(4)] ne by auto
  qed
qed

text \<open>A machine to try the properties on.\<close>

definition ex_layout :: layout where
  "ex_layout = \<lparr>current_var = 0x1000, pc_cache_at = 0x1004, os_sp_at = 0x1008, usr_sp_at = 0x100C, irq_lr_at = 0x1010,
     r0_at = 0x1014, r1_at = 0x1018, ret_save_sp = 0x8000, ret_load_sp = 0x8010, ret_save_context = 0x8014\<rparr>"

definition ex_running :: arm where
  "ex_running = ex_arm\<lparr>psr := 0x1F, words := (\<lambda>a. if a = 0x1000 then 0x2000 else if a = 0x1008 then 0x3000 else 0)\<rparr>"

lemma ex_apart: "apart ex_layout 0x3000 0x2000 15" by code_simp

lemma ex_running_facts:
  "running ex_layout 0x3000 0x2000 ex_running" "length (registers ex_process) = 13"
  "sys_spsr ex_processor AND 0x1F = 0x1F" "popped_base ex_processor = (\<lambda>v w. v)"
  "get ex_running 14 = 0x40" "get ex_running 13 = 0x9000" "get ex_running 4 = 104" "get ex_running 0 = 100"
  by (simp_all add: running_def ex_running_def ex_arm_def ex_layout_def cells_def word_aligned_def ex_process_def
      ex_processor_def get_def reg_of_def bank_of_simps)

theorem trap_entries_save_the_context_witness:
  "\<exists>m'. run ex_processor (svc_entry_code ex_layout) (take_swi 0x500 ex_running) = Some m' \<and> psr m' AND 0x80 = 0 \<and>
    words m' (0x2000 + 4 * word_of_nat 4) = get_word 4 (snd (execute save_context_asm (trap_cpu ex_processor ex_running, ex_process)))"
proof -
  have "(svc_entry_code ex_layout, take_swi 0x500 ex_running) \<in>
      {(svc_entry_code ex_layout, take_swi 0x500 ex_running), (irq_entry_code ex_layout, take_irq 0x500 ex_running)}" by simp
  note t = trap_entries_save_the_context[OF ex_apart _ ex_running_facts(1,2) this, of ex_processor]
  obtain m' where m': "run ex_processor (svc_entry_code ex_layout) (take_swi 0x500 ex_running) = Some m'" "psr m' AND 0x80 = 0"
    "\<And>k. k < 17 \<Longrightarrow> words m' (0x2000 + 4 * word_of_nat k) =
      get_word k (snd (execute save_context_asm (trap_cpu ex_processor ex_running, ex_process)))"
    using t[simplified] by (auto simp del: of_nat_numeral)
  have "(4 :: nat) < 17" by simp
  then show ?thesis using m'(1,2) m'(3)[of 4] by blast
qed

text \<open>
  C9. A yield and the dispatch after it, on every processor. A process executes the \<^verbatim>\<open>swi\<close> of \<^verbatim>\<open>syscall\<close>; the
  entry saves it. The restore in a later dispatch, from whatever kernel state that left the control
  block alone, continues, if it comes to an end, at the link register, the return of \<^verbatim>\<open>syscall\<close>. What
  else it does hangs on two results the architecture leaves open. The first is the saved status,
  which the entry reads in System mode, where there is none: if what it read names no mode, the restore
  has no result; if it names System mode, the restore comes to an end with r2 to r12 as they were, r0
  and r1 in each other's place, in System mode with interrupts enabled. The second is the stack
  pointer that is popped from its own stack: the process gets what the processor makes of its saved
  stack pointer and of the address it was popped from.
\<close>

theorem yield_continues_at_link_register:
  assumes "apart L b pcb n" "2 \<le> n" "running L b pcb m"
  shows "\<exists>m1. run P (svc_entry_code L) (take_swi swi_next m) = Some m1 \<and> ready_at L b pcb m1 \<and>
    (\<forall>d b' n'. apart L b' pcb n' \<and> 15 \<le> n' \<and> ready_at L b' pcb d \<and> (\<forall>a \<in> set (pcb_words pcb). words d a = words m1 a) \<longrightarrow>
       (\<forall>m'. run P (restore_context_code L) d = Some m' \<longrightarrow> get m' 15 = get m 14) \<and>
       (mode_bank (sys_spsr P) = None \<longrightarrow> run P (restore_context_code L) d = None) \<and>
       (sys_spsr P AND 0x1F = 0x1F \<longrightarrow> (\<exists>m'. run P (restore_context_code L) d = Some m' \<and>
          get m' 13 = popped_base P (get m 13) b' \<and> (\<forall>k \<in> {2..12}. get m' k = get m k) \<and>
          get m' 0 = get m 1 \<and> get m' 1 = get m 0 \<and> psr m' AND 0x9F = 0x1F)))"
proof -
  obtain m1 where m1: "run P (svc_entry_code L) (take_swi swi_next m) = Some m1" "saved_block P pcb m (words m1)"
    "ready_at L b pcb m1" using svc_entry_saves[OF assms, of P swi_next] by blast
  note pc = saved_block_pc[OF m1(2)] and res = saved_block_resumes[OF m1(2)]
  have "(\<forall>m'. run P (restore_context_code L) d = Some m' \<longrightarrow> get m' 15 = get m 14) \<and>
       (mode_bank (sys_spsr P) = None \<longrightarrow> run P (restore_context_code L) d = None) \<and>
       (sys_spsr P AND 0x1F = 0x1F \<longrightarrow> (\<exists>m'. run P (restore_context_code L) d = Some m' \<and>
          get m' 13 = popped_base P (get m 13) b' \<and> (\<forall>k \<in> {2..12}. get m' k = get m k) \<and>
          get m' 0 = get m 1 \<and> get m' 1 = get m 0 \<and> psr m' AND 0x9F = 0x1F))"
    if "apart L b' pcb n'" "15 \<le> n'" "ready_at L b' pcb d" "\<forall>a \<in> set (pcb_words pcb). words d a = words m1 a" for d b' n'
    using pc(1)[OF that] pc(2)[OF that] res[OF _ that] by blast
  then show ?thesis using m1(1,3) by blast
qed

theorem yield_continues_at_link_register_witness:
  "\<exists>m1 m'. run ex_processor (svc_entry_code ex_layout) (take_swi 0x500 ex_running) = Some m1 \<and>
    run ex_processor (restore_context_code ex_layout) m1 = Some m' \<and> get m' 15 = 0x40 \<and> get m' 4 = 104 \<and> get m' 1 = 100"
proof -
  have "(2 :: nat) \<le> 15" "(15 :: nat) \<le> 15" by simp_all
  note t = yield_continues_at_link_register[OF ex_apart this(1) ex_running_facts(1), of ex_processor "0x500"]
  then obtain m1 m' where "run ex_processor (svc_entry_code ex_layout) (take_swi 0x500 ex_running) = Some m1"
    "run ex_processor (restore_context_code ex_layout) m1 = Some m'" "get m' 15 = get ex_running 14"
    "\<forall>k \<in> {2..12}. get m' k = get ex_running k" "get m' 1 = get ex_running 0"
    using ex_apart \<open>(15 :: nat) \<le> 15\<close> ex_running_facts(3) by metis
  then show ?thesis using ex_running_facts(5-8) by (intro exI[of _ m1] exI[of _ m']) simp
qed

text \<open>
  C37. An interrupt loses the place, on every processor: when a process is interrupted at \<open>a\<close> and its link
  register holds something else, no later dispatch of it continues at \<open>a\<close>. The entry saves the link
  register of System mode as the address to resume at, and the one of interrupt mode, which holds
  \<open>a\<close>, is never read. If the status that the entry could read in System mode names that mode, the
  dispatch does come to an end, at the link register.
\<close>

theorem interrupted_process_loses_its_place:
  assumes "apart L b pcb n" "2 \<le> n" "running L b pcb m" "get m 14 \<noteq> a"
  shows "\<exists>m1. run P (irq_entry_code L) (take_irq a m) = Some m1 \<and> ready_at L b pcb m1 \<and>
    (\<forall>d b' n'. apart L b' pcb n' \<and> 15 \<le> n' \<and> ready_at L b' pcb d \<and> (\<forall>x \<in> set (pcb_words pcb). words d x = words m1 x) \<longrightarrow>
       (\<forall>m'. run P (restore_context_code L) d = Some m' \<longrightarrow> get m' 15 \<noteq> a) \<and>
       (sys_spsr P AND 0x1F = 0x1F \<longrightarrow> (\<exists>m'. run P (restore_context_code L) d = Some m' \<and> get m' 15 = get m 14)))"
proof -
  obtain m1 where m1: "run P (irq_entry_code L) (take_irq a m) = Some m1" "saved_block P pcb m (words m1)"
    "ready_at L b pcb m1" using irq_entry_saves[OF assms(1-3), of P a] by blast
  note pc = saved_block_pc(2)[OF m1(2)] and res = saved_block_resumes[OF m1(2)]
  have "(\<forall>m'. run P (restore_context_code L) d = Some m' \<longrightarrow> get m' 15 \<noteq> a) \<and>
       (sys_spsr P AND 0x1F = 0x1F \<longrightarrow> (\<exists>m'. run P (restore_context_code L) d = Some m' \<and> get m' 15 = get m 14))"
    if "apart L b' pcb n'" "15 \<le> n'" "ready_at L b' pcb d" "\<forall>x \<in> set (pcb_words pcb). words d x = words m1 x" for d b' n'
    using pc[OF that] res[OF _ that] assms(4) by metis
  then show ?thesis using m1(1,3) by blast
qed

theorem interrupted_process_loses_its_place_witness:
  "\<exists>m1 m'. run ex_processor (irq_entry_code ex_layout) (take_irq 0x500 ex_running) = Some m1 \<and>
    run ex_processor (restore_context_code ex_layout) m1 = Some m' \<and> get m' 15 \<noteq> 0x500"
proof -
  have "(2 :: nat) \<le> 15" "(15 :: nat) \<le> 15" by simp_all
  have "get ex_running 14 \<noteq> 0x500" using ex_running_facts(5) by simp
  note t = interrupted_process_loses_its_place[OF ex_apart \<open>(2 :: nat) \<le> 15\<close> ex_running_facts(1) this, of ex_processor]
  then obtain m1 m' where "run ex_processor (irq_entry_code ex_layout) (take_irq 0x500 ex_running) = Some m1"
    "run ex_processor (restore_context_code ex_layout) m1 = Some m'" "get m' 15 \<noteq> 0x500"
    using ex_apart \<open>(15 :: nat) \<le> 15\<close> ex_running_facts(3) by metis
  then show ?thesis by blast
qed

text \<open>
  The kernel stack sinks: a dispatch entered with the stack pointer at \<open>b\<close> leaves it at \<open>b - 4\<close> for the
  next trap. The C code between the trap and the dispatch never returns, so what it has pushed stays
  there too.
\<close>

lemma kernel_stack_sinks:
  assumes "apart L b pcb n" "15 \<le> n" "ready_at L b pcb m" "words m (pcb + 60) AND 0x1F = 0x1F"
  obtains m' where "run P (restore_context_code L) m = Some m'" "words m' (os_sp_at L) = b - 4"
    "\<And>x next n'. running L (words m' (os_sp_at L)) pcb x \<Longrightarrow> apart L (b - 4) pcb n' \<Longrightarrow> 2 \<le> n' \<Longrightarrow>
       \<exists>x'. run P (svc_entry_code L) (take_swi next x) = Some x' \<and> get x' 13 = b - 4"
proof -
  obtain m' where m': "run P (restore_context_code L) m = Some m'" "words m' (os_sp_at L) = b - 4"
    using restore_code_effect[OF assms, of P] by blast
  have "\<exists>x'. run P (svc_entry_code L) (take_swi next x) = Some x' \<and> get x' 13 = b - 4"
    if "running L (words m' (os_sp_at L)) pcb x" "apart L (b - 4) pcb n'" "2 \<le> n'" for x "next" n'
    using svc_entry_saves[OF that(2,3), of x P "next"] that(1) m'(2) by (auto simp: ready_at_def)
  then show ?thesis using that m' by blast
qed

text \<open>
  C38. A process as \<^verbatim>\<open>process_create\<close> leaves it cannot be dispatched: its status word is 15, which names no
  mode of the processor, and the write to the status register in \<^verbatim>\<open>restore_context_asm\<close> has no
  defined result. The value for System mode that was stored first is overwritten by the loop that
  clears the registers.
\<close>

theorem new_process_has_no_mode:
  assumes "apart L b pcb n" "15 \<le> n" "ready_at L b pcb m" "length (registers p) = 13"
    and "\<forall>k < 17. words m (pcb + 4 * word_of_nat k) = get_word k (new_process l entry i p)"
  shows "run P (restore_context_code L) m = None"
proof -
  have "cpsr (new_process l entry i p) = 15" using new_process_fields[OF assms(4), of l entry i] by simp
  then have "words m (pcb + 60) = 15" using assms(5)[rule_format, of 15] by (simp add: get_word_def)
  then show ?thesis using restore_no_mode[OF assms(1-3), of P] by (simp add: mode_bank_def)
qed

definition ex_fresh :: arm where
  "ex_fresh = ex_running\<lparr>register_file := (\<lambda>r. 0x3000), words := (\<lambda>a. if a = 0x1000 then 0x2000
     else get_word (unat ((a - 0x2000) div 4)) (new_process ex_links 0x4000 1 ex_process))\<rparr>"

theorem new_process_has_no_mode_witness:
  "run ex_processor (restore_context_code ex_layout) ex_fresh = None"
proof -
  have "words ex_fresh (0x2000 + 4 * word_of_nat k) = get_word k (new_process ex_links 0x4000 1 ex_process)" if "k < 17" for k
  proof -
    have u: "unat (4 * word_of_nat k :: u32) = 4 * k" using that unat_u32_of_nat[of "4 * k"] by simp
    have "unat (0x2000 + 4 * word_of_nat k :: u32) = 0x2000 + 4 * k"
      using that u by (subst unat_add_lem[THEN iffD1]) simp_all
    moreover have "unat (0x1000 :: u32) \<noteq> 0x2000 + 4 * k" by simp
    ultimately have "0x2000 + 4 * word_of_nat k \<noteq> (0x1000 :: u32)" by metis
    then show ?thesis using u by (simp add: ex_fresh_def unat_div)
  qed
  moreover have "ready_at ex_layout 0x3000 0x2000 ex_fresh"
    by (simp add: ready_at_def ex_fresh_def ex_running_def ex_layout_def get_def)
  ultimately show ?thesis
    using new_process_has_no_mode[OF ex_apart _ _ ex_running_facts(2), of ex_fresh ex_links "0x4000" 1 ex_processor] by simp
qed

end
