(* ===== verification/Dispatch.thy ===== *)
theory Dispatch
  imports Kernel Context_Switch
begin

text \<open>
  From \<^verbatim>\<open>kmain\<close> to the first dispatch: the process that \<^verbatim>\<open>kmain\<close> of \<^verbatim>\<open>Kernel\<close> selects, as
  \<^verbatim>\<open>process_create\<close> and \<^verbatim>\<open>scheduler_run\<close> leave it, in the hands of the machine code of
  \<^verbatim>\<open>restore_context_asm\<close> of \<^verbatim>\<open>Context_Switch\<close>.
\<close>

text \<open>The machine holds process \<open>p\<close> in the control block at \<open>pcb\<close>.\<close>

definition holds_process :: "u32 \<Rightarrow> process_t \<Rightarrow> arm \<Rightarrow> bool" where
  "holds_process pcb p m \<longleftrightarrow> (\<forall>k < 17. words m (pcb + 4 * word_of_nat k) = get_word k p)"

lemma status_15_cannot_be_restored:
  assumes "apart L b pcb n" "15 \<le> n" "ready_at L b pcb d" "holds_process pcb p d" "process_t.cpsr p = 15"
  shows "run P (restore_context_code L) d = None"
proof -
  have "words d (pcb + 60) = 15" using assms(4)[unfolded holds_process_def, rule_format, of 15] assms(5) by (simp add: get_word_def)
  then show ?thesis using restore_no_mode[OF assms(1-3), of P] by (simp add: mode_bank_def)
qed

section \<open>Properties\<close>

text \<open>
  C8. The kernel as it is written stops at its first dispatch. \<^verbatim>\<open>kmain\<close> sets everything up and selects P1,
  but the control block it hands to \<^verbatim>\<open>restore_context_asm\<close> has the status word 15, so that on every
  processor, wherever the linker places the variables and the stack, the write to the status register
  has no defined result: no task is ever entered.
\<close>

theorem first_dispatch_has_no_result:
  assumes "console B UNIV tx" "kernel_devices B" "mapped_sections h \<noteq> 0x80000000" "kernel_boot s0"
  shows "\<exists>s. kmain B e l h s0 = Some s \<and> current_process (sched s) = Some 1 \<and>
    (\<forall>P L b n d. apart L b (process_address l 1) n \<and> 15 \<le> n \<and> ready_at L b (process_address l 1) d \<and>
       holds_process (process_address l 1) (processes (sched s) ! 1) d \<longrightarrow> run P (restore_context_code L) d = None)"
proof -
  obtain s where "kmain B e l h s0 = Some s" "sched_abs (sched s) = (Some 1, [2, 3])"
    "process_t.cpsr (processes (sched s) ! 1) = 15" using kernel_inv_start[OF assms] by blast
  then show ?thesis using status_15_cannot_be_restored by (intro exI[of _ s]) (auto simp: sched_abs_def)
qed

text \<open>P1 in the memory of a machine at the dispatch.\<close>

definition ex_dispatch :: "u32 \<Rightarrow> process_t \<Rightarrow> arm" where
  "ex_dispatch pcb p = ex_running\<lparr>register_file := (\<lambda>r. 0x3000), words := (\<lambda>a. if a = 0x1000 then pcb
     else get_word (unat ((a - pcb) div 4)) p)\<rparr>"

lemma ex_dispatch_ok:
  assumes "pcb = process_address ex_links 1"
  shows "apart ex_layout 0x3000 pcb 15" "ready_at ex_layout 0x3000 pcb (ex_dispatch pcb p)" "holds_process pcb p (ex_dispatch pcb p)"
proof -
  show a: "apart ex_layout 0x3000 pcb 15" unfolding assms by code_simp
  show "ready_at ex_layout 0x3000 pcb (ex_dispatch pcb p)"
    by (simp add: ready_at_def ex_dispatch_def ex_running_def ex_layout_def get_def)
  have "words (ex_dispatch pcb p) (pcb + 4 * word_of_nat k) = get_word k p" if "k < 17" for k
  proof -
    have u: "unat (4 * word_of_nat k :: u32) = 4 * k" using that unat_u32_of_nat[of "4 * k"] by simp
    have "0x1000 \<noteq> pcb + 4 * word_of_nat k"
      using apart_cells(1)[OF a _ that, of "0x1000"] by (simp add: cells_def ex_layout_def)
    then show ?thesis using u by (simp add: ex_dispatch_def unat_div)
  qed
  then show "holds_process pcb p (ex_dispatch pcb p)" by (simp add: holds_process_def)
qed

theorem first_dispatch_has_no_result_witness:
  "\<exists>s. kmain ex_board ex_entries ex_links ex_header (ex_statics []) = Some s \<and>
     run ex_processor (restore_context_code ex_layout) (ex_dispatch (process_address ex_links 1) (processes (sched s) ! 1)) = None"
proof -
  obtain s where "kmain ex_board ex_entries ex_links ex_header (ex_statics []) = Some s"
    "\<And>P L b n d. apart L b (process_address ex_links 1) n \<and> 15 \<le> n \<and> ready_at L b (process_address ex_links 1) d \<and>
       holds_process (process_address ex_links 1) (processes (sched s) ! 1) d \<Longrightarrow> run P (restore_context_code L) d = None"
    using first_dispatch_has_no_result[OF ex_board_ok ex_boot_ok(2) ex_boot_ok(1)[of "[]"], of ex_entries ex_links] by blast
  then show ?thesis using ex_dispatch_ok[OF refl] by blast
qed

end
