(* ===== verification/Boot_Interrupt.thy ===== *)
theory Boot_Interrupt
  imports Context_Switch
begin

text \<open>
  Interrupts while the boot loader runs. The boot loader links \<^verbatim>\<open>os/interrupts/interrupt_handlers.S\<close>, enables
  interrupts and the receive interrupt of its console, and \<^verbatim>\<open>boot/init.S\<close> gives it routines of its own under the names
  \<^verbatim>\<open>save_sp_and_lr_usr\<close>, \<^verbatim>\<open>load_os_sp\<close>, \<^verbatim>\<open>save_context_asm\<close> and \<^verbatim>\<open>scheduler_run\<close>, which do nothing and return.
  This is the path of an interrupt through that image, on the processor of \<^verbatim>\<open>Arm\<close>.

  The handler is compiled C code, an argument of the model: \<open>handler v\<close> is the routine at address \<open>v\<close>, from
  its entry to its return to the address in r14. What is used of it is that it returns, to System mode
  with interrupts masked as they were, and that compiled code does not know the link register of
  interrupt mode (\<open>compiled\<close>). Nothing is said of r14 after its return, which the calling convention does
  not preserve. The registers of the interrupt controller are words of the memory.
\<close>

section \<open>Code\<close>

definition INTC_BASE :: u32 where "INTC_BASE = 0x48200000"
definition SIR_IRQ_OFF :: u32 where "SIR_IRQ_OFF = 0x40"
definition CONTROL_OFF :: u32 where "CONTROL_OFF = 0x48"

text \<open>
  The call through the handler table and the acknowledgement that follows it. \<open>ret\<close> is the address of the
  acknowledgement, which \<^verbatim>\<open>add r14, pc, #0\<close> puts into the link register.
\<close>

definition irq_call_code :: "u32 \<Rightarrow> u32 \<Rightarrow> opcode list" where
  "irq_call_code table ret =
     [Mov_const 1 (INTC_BASE + SIR_IRQ_OFF), Ldr 2 1 0, And_const 2 2 0x7F,
      Mov_const 0 table, Mov_const 14 ret, Ldr_index 15 0 2]"

definition irq_acknowledge_code :: "opcode list" where
  "irq_acknowledge_code = [Mov_const 0 1, Mov_const 1 (INTC_BASE + CONTROL_OFF), Str 0 1 0]"

text \<open>The routines of \<^verbatim>\<open>boot/init.S\<close>: a \<^verbatim>\<open>nop\<close> and the return. \<^verbatim>\<open>scheduler_run\<close> is jumped to, not called.\<close>

definition boot_stub :: "opcode list" where
  "boot_stub = []"

definition boot_scheduler_run :: "opcode list" where
  "boot_scheduler_run = boot_stub @ [Mov 15 14]"

definition boot_irq_tail :: "opcode list" where
  "boot_irq_tail = irq_acknowledge_code @ boot_scheduler_run"

definition boot_irq :: "processor \<Rightarrow> layout \<Rightarrow> u32 \<Rightarrow> u32 \<Rightarrow> (u32 \<Rightarrow> arm \<Rightarrow> arm option) \<Rightarrow> arm \<Rightarrow> arm option" where
  "boot_irq P L table ret handler m = do {
     m \<leftarrow> run P (irq_handler_asm L boot_stub boot_stub boot_stub @ irq_call_code table ret) m;
     m \<leftarrow> handler (get m 15) m;
     run P boot_irq_tail m }"

text \<open>What follows when the last jump goes back to the acknowledgement: \<open>n\<close> further rounds.\<close>

fun acknowledge_again :: "processor \<Rightarrow> u32 \<Rightarrow> nat \<Rightarrow> arm \<Rightarrow> arm option" where
  "acknowledge_again P ret 0 m = Some m"
| "acknowledge_again P ret (Suc n) m =
     (if get m 15 = ret then do { m \<leftarrow> run P boot_irq_tail m; acknowledge_again P ret n m } else None)"

section \<open>Lemmas\<close>

text \<open>The entry saves nothing but r0 and r1 and calls the routine the table has for the active interrupt.\<close>

lemma boot_entry_effect:
  assumes "psr m AND 0x1F = 0x1F" "word_aligned (r0_at L)" "word_aligned (r1_at L)" "word_aligned table"
  shows "\<exists>m'. run P (irq_handler_asm L boot_stub boot_stub boot_stub @ irq_call_code table ret) (take_irq a m) = Some m' \<and>
    psr m' AND 0x9F = 0x9F \<and> get m' 14 = ret \<and> get m' 13 = get m 13 \<and>
    get m' 15 = words m' (table + 4 * (words m' (INTC_BASE + SIR_IRQ_OFF) AND 0x7F))"
proof -
  let ?m = "take_irq a m"
  let ?save = "[Sub_const 14 14 4, Str_at 0 (r0_at L), Str_at 1 (r1_at L)]"
  let ?mode = "[Mrs_cpsr 1, Orr_const 1 1 MODE_Sys, Msr_cpsr_fc 1]"
  let ?calls = "[Mov 0 13, Mov 1 14, Bl (ret_save_sp L), Ldr_at 0 (r0_at L), Ldr_at 1 (r1_at L), Bl (ret_load_sp L), Bl (ret_save_context L)]"
  obtain m1 where m1: "run P ?save ?m = Some m1" "psr m1 = psr ?m" "register_file m1 (SP Usr) = register_file m (SP Usr)"
    using assms(2,3) take_irq_state(1)[of a m] by (simp add: store_word_def file_put reg_of_def take_irq_state)
  let ?c = "(psr ?m AND NOT 0xFF0000FF) OR ((psr ?m OR 0x1F) AND 0xFF0000FF)"
  have p: "psr ?m = (psr m AND NOT 0x1F) OR 0x12 OR 0x80"
    by (simp add: take_irq_def take_exception_def Let_def)
  have bits: "v AND 128 OR 159 = (159 :: u32)" for v
  proof -
    have "v AND 128 OR 159 = (v AND 128 OR 128) OR 31" unfolding or.assoc by simp
    also have "v AND 128 OR 128 = 128" by (rule word_ao_absorbs)
    finally show ?thesis by simp
  qed
  have c: "?c AND 0x1F = 0x1F" "?c AND 0x9F = 0x9F" "psr ?m AND 0x1F \<noteq> 0x10"
    unfolding p by (simp_all add: bit.conj_disj_distrib2 and.assoc or.assoc bits)
  have "run P ?mode m1 = Some ((put 1 (psr ?m OR 0x1F) m1)\<lparr>psr := ?c\<rparr>)"
    using c(1,3) m1(2) by (simp add: write_psr_def Let_def c_consts put_def get_def mode_bank_def)
  then obtain m2 where m2: "run P ?mode m1 = Some m2" "psr m2 = ?c" "register_file m2 (SP Usr) = register_file m (SP Usr)"
    using m1 by (simp add: file_put reg_of_def)
  obtain m3 where m3: "run P ?calls m2 = Some m3" "psr m3 = ?c" "get m3 13 = get m2 13"
    using assms(2,3) m2(2) by (simp add: load_word_def)
  have al: "word_aligned (INTC_BASE + SIR_IRQ_OFF)" by (simp add: word_aligned_def INTC_BASE_def SIR_IRQ_OFF_def)
  obtain m4 where m4: "run P (irq_call_code table ret) m3 = Some m4" "psr m4 = ?c" "get m4 14 = ret" "get m4 13 = get m3 13"
    "get m4 15 = words m4 (table + 4 * (words m4 (INTC_BASE + SIR_IRQ_OFF) AND 0x7F))"
    using al assms(4) m3(2) by (simp add: irq_call_code_def load_word_def)
  have e: "irq_handler_asm L boot_stub boot_stub boot_stub @ irq_call_code table ret = ?save @ ?mode @ ?calls @ irq_call_code table ret"
    by (simp add: irq_handler_asm_def boot_stub_def)
  have "run P (irq_handler_asm L boot_stub boot_stub boot_stub @ irq_call_code table ret) ?m = Some m4"
    unfolding e run_append m1(1) m2(1) m3(1) m4(1) Option.bind.simps by (rule refl)
  moreover have "get m2 13 = get m 13"
    using m2(2,3) c(1) assms(1) by (simp add: get_def bank_of_simps reg_of_def)
  ultimately show ?thesis using m4 m3 c(2) by simp
qed

lemma boot_tail_effect:
  "\<exists>m'. run P boot_irq_tail m = Some m' \<and> psr m' = psr m \<and> get m' 15 = get m 14 \<and> get m' 14 = get m 14 \<and> get m' 0 = 1"
  by (simp add: boot_irq_tail_def irq_acknowledge_code_def boot_scheduler_run_def boot_stub_def store_word_def
      word_aligned_def INTC_BASE_def CONTROL_OFF_def)

lemma acknowledge_forever:
  assumes "get m 15 = ret" "get m 14 = ret"
  shows "\<exists>m'. acknowledge_again P ret n m = Some m' \<and> get m' 15 = ret \<and> psr m' = psr m"
  using assms
proof (induction n arbitrary: m)
  case (Suc n)
  obtain m1 where "run P boot_irq_tail m = Some m1" "psr m1 = psr m" "get m1 15 = ret" "get m1 14 = ret"
    using boot_tail_effect[of P m] Suc.prems by auto
  then show ?case using Suc.IH[of m1] Suc.prems by simp
qed simp

section \<open>What does not depend on the interrupted address\<close>

text \<open>The link register of interrupt mode, the only place that holds the interrupted address, set to \<open>c\<close>.\<close>

definition set_irq_link :: "u32 \<Rightarrow> arm \<Rightarrow> arm" where
  "set_irq_link c m = m\<lparr>register_file := (register_file m)(LR Irq := c)\<rparr>"

definition compiled :: "(u32 \<Rightarrow> arm \<Rightarrow> arm option) \<Rightarrow> bool" where
  "compiled handler \<longleftrightarrow> (\<forall>v x. psr x AND 0x9F = 0x9F \<longrightarrow> (\<exists>y. handler v x = Some y \<and> psr y AND 0x9F = 0x9F \<and>
     (\<forall>c. handler v (set_irq_link c x) = Some (set_irq_link c y))))"

text \<open>The instructions of the two codes that work on registers and memory only.\<close>

fun plain :: "opcode \<Rightarrow> bool" where
  "plain (Mov d s) = True" | "plain (Mov_const d v) = True" | "plain (And_const d s v) = True"
| "plain (Ldr d b off) = True" | "plain (Str d b off) = True" | "plain (Ldr_at d a) = True" | "plain (Bl ret) = True"
| "plain (Ldr_index d b i) = True" | "plain _ = False"

lemma set_irq_link_frame [simp]:
  "psr (set_irq_link c m) = psr m" "words (set_irq_link c m) = words m"
  "set_irq_link c (set_irq_link c' m) = set_irq_link c m"
  "set_irq_link c (m\<lparr>psr := v\<rparr>) = (set_irq_link c m)\<lparr>psr := v\<rparr>"
  "set_irq_link c (m\<lparr>words := w\<rparr>) = (set_irq_link c m)\<lparr>words := w\<rparr>"
  by (simp_all add: set_irq_link_def)

lemma irq_link_other:
  assumes "reg_of (bank_of (psr m)) r \<noteq> LR Irq"
  shows "get (set_irq_link c m) r = get m r" "put r v (set_irq_link c m) = set_irq_link c (put r v m)"
  using assms by (simp_all add: set_irq_link_def get_def put_def fun_upd_twist)

lemma system_not_irq_link: "reg_of Usr r \<noteq> LR Irq"
  by (simp add: reg_of_def)

lemma plain_step:
  assumes "plain op"
  shows "step P op m = Some m' \<Longrightarrow> psr m' = psr m"
    and "bank_of (psr m) = Usr \<Longrightarrow> step P op (set_irq_link c m) = map_option (set_irq_link c) (step P op m)"
  using assms system_not_irq_link
  by (cases op; auto simp: irq_link_other load_word_def store_word_def split: if_splits)+

lemma plain_run_psr: "\<forall>op \<in> set code. plain op \<Longrightarrow> run P code m = Some m' \<Longrightarrow> psr m' = psr m"
proof (induction code arbitrary: m)
  case (Cons op code)
  then show ?case using plain_step(1)[of op P m] by (cases "step P op m") auto
qed simp

lemma plain_run:
  assumes "\<forall>op \<in> set code. plain op" "bank_of (psr m) = Usr"
  shows "run P code (set_irq_link c m) = map_option (set_irq_link c) (run P code m)"
  using assms
proof (induction code arbitrary: m)
  case (Cons op code)
  then show ?case using plain_step(1)[of op P m] plain_step(2)[of op m P] by (cases "step P op m") auto
qed simp

lemma system_bits: "p AND 0x9F = 0x9F \<Longrightarrow> bank_of p = Usr"
proof -
  assume "p AND 0x9F = 0x9F"
  then have "(p AND 0x9F) AND 0x1F = 0x1F" by simp
  then show ?thesis by (simp add: and.assoc bank_of_simps)
qed

lemma boot_tail_forgets:
  assumes "bank_of (psr y) = Usr"
  shows "run P boot_irq_tail (set_irq_link c y) = map_option (set_irq_link c) (run P boot_irq_tail y)"
  using plain_run[of boot_irq_tail y P c, OF _ assms]
  by (simp add: boot_irq_tail_def irq_acknowledge_code_def boot_scheduler_run_def boot_stub_def)

lemma run_rest: "run P (code @ rest) m = Some x \<Longrightarrow> run P code m = Some y \<Longrightarrow> run P rest y = Some x"
  by (simp add: run_append)

lemma boot_entry_forgets:
  assumes "run P (irq_handler_asm L boot_stub boot_stub boot_stub @ irq_call_code table ret) (take_irq a m) = Some x"
    "psr x AND 0x9F = 0x9F"
  shows "run P (irq_handler_asm L boot_stub boot_stub boot_stub @ irq_call_code table ret) (take_irq a' m) = Some (set_irq_link a' x)"
proof -
  let ?save = "[Sub_const 14 14 4, Str_at 0 (r0_at L), Str_at 1 (r1_at L), Mrs_cpsr 1, Orr_const 1 1 MODE_Sys]"
  let ?rest = "[Mov 0 13, Mov 1 14, Bl (ret_save_sp L), Ldr_at 0 (r0_at L), Ldr_at 1 (r1_at L), Bl (ret_load_sp L),
    Bl (ret_save_context L)] @ irq_call_code table ret"
  have e: "irq_handler_asm L boot_stub boot_stub boot_stub @ irq_call_code table ret = ?save @ Msr_cpsr_fc 1 # ?rest"
    by (simp add: irq_handler_asm_def boot_stub_def)
  have irq: "bank_of (psr (take_irq b m)) = Irq" "get (take_irq b m) 14 = b + 4" for b
    using take_irq_state(1)[of b m] by (simp_all add: get_def reg_of_def take_irq_state)
  have t: "take_irq a' m = set_irq_link (a' + 4) (take_irq a m)"
    by (simp add: take_irq_def take_exception_def set_irq_link_def Let_def bank_of_simps)
  obtain m1 where m1: "run P ?save (take_irq a m) = Some m1" using assms(1) unfolding e run_append by (auto simp: bind_eq_Some_conv')
  have "run P ?save (take_irq a' m) = Some (set_irq_link a' m1)"
    using m1 irq unfolding t
    by (auto simp: store_word_def irq_link_other set_irq_link_def put_def get_def reg_of_def fun_upd_twist split: if_splits)
  moreover obtain m2 where m2: "step P (Msr_cpsr_fc 1) m1 = Some m2" "run P ?rest m2 = Some x"
    using run_rest[OF assms(1)[unfolded e] m1] by (cases "step P (Msr_cpsr_fc 1) m1") auto
  moreover have "step P (Msr_cpsr_fc 1) (set_irq_link a' m1) = Some (set_irq_link a' m2)"
    using m2(1) by (auto simp: write_psr_def Let_def irq_link_other reg_of_def split: if_splits)
  moreover have b: "bank_of (psr m2) = Usr"
  proof -
    have "psr x = psr m2" using plain_run_psr[OF _ m2(2)] by (simp add: irq_call_code_def)
    then show ?thesis using assms(2) system_bits by simp
  qed
  moreover have "run P ?rest (set_irq_link a' m2) = Some (set_irq_link a' x)"
    using plain_run[of ?rest m2 P a'] m2(2) b by (simp add: irq_call_code_def)
  ultimately show ?thesis unfolding e run_append by simp
qed

section \<open>Properties\<close>

text \<open>
  C10. The boot loader does not come back from an interrupt. The handler is called with the acknowledgement
  as its return address and on the stack of the interrupted code; after it the interrupt is
  acknowledged, and the jump to the stub of \<^verbatim>\<open>scheduler_run\<close> goes wherever the handler has left the link
  register, with r0 set to 1 and interrupts still masked. Which address that is, and every register and
  word of memory it finds, is the same whichever address was interrupted, so the interrupted code
  is not resumed. With a handler that keeps the link register the processor acknowledges for ever.
\<close>

theorem boot_loader_forgets_interrupted_address:
  assumes "psr m AND 0x1F = 0x1F" "word_aligned (r0_at L)" "word_aligned (r1_at L)" "word_aligned table" "compiled handler"
  shows "\<exists>x y m1. run P (irq_handler_asm L boot_stub boot_stub boot_stub @ irq_call_code table ret) (take_irq a m) = Some x \<and>
    get x 14 = ret \<and> get x 13 = get m 13 \<and> handler (get x 15) x = Some y \<and>
    boot_irq P L table ret handler (take_irq a m) = Some m1 \<and>
    get m1 15 = get y 14 \<and> get m1 0 = 1 \<and> psr m1 AND 0x9F = 0x9F \<and>
    (\<forall>a'. \<exists>m2. boot_irq P L table ret handler (take_irq a' m) = Some m2 \<and>
       (\<forall>r < 16. get m2 r = get m1 r) \<and> words m2 = words m1 \<and> psr m2 = psr m1) \<and>
    (get y 14 = ret \<longrightarrow> (\<forall>n. \<exists>m'. acknowledge_again P ret n m1 = Some m' \<and> get m' 15 = ret \<and> psr m' AND 0x9F = 0x9F))"
proof -
  obtain x where x: "run P (irq_handler_asm L boot_stub boot_stub boot_stub @ irq_call_code table ret) (take_irq a m) = Some x"
    "psr x AND 0x9F = 0x9F" "get x 14 = ret" "get x 13 = get m 13" using boot_entry_effect[OF assms(1-4)] by blast
  obtain y where y: "handler (get x 15) x = Some y" "psr y AND 0x9F = 0x9F"
    "\<And>c. handler (get x 15) (set_irq_link c x) = Some (set_irq_link c y)"
    using assms(5) x(2) unfolding compiled_def by blast
  obtain m1 where m1: "run P boot_irq_tail y = Some m1" "psr m1 = psr y" "get m1 15 = get y 14" "get m1 14 = get y 14" "get m1 0 = 1"
    using boot_tail_effect[of P y] by blast
  have b: "bank_of (psr x) = Usr" "bank_of (psr y) = Usr" "bank_of (psr m1) = Usr" using system_bits x(2) y(2) m1(2) by simp_all
  have r: "boot_irq P L table ret handler (take_irq a m) = Some m1" using x(1) y(1) m1(1) by (simp add: boot_irq_def)
  have "boot_irq P L table ret handler (take_irq a' m) = Some (set_irq_link a' m1)" for a'
    using boot_entry_forgets[OF x(1,2), of a'] y(3) boot_tail_forgets[OF b(2), of P a'] m1(1) b(1)
    by (simp add: boot_irq_def irq_link_other system_not_irq_link)
  then have "\<forall>a'. \<exists>m2. boot_irq P L table ret handler (take_irq a' m) = Some m2 \<and>
       (\<forall>r < 16. get m2 r = get m1 r) \<and> words m2 = words m1 \<and> psr m2 = psr m1"
    using b(3) by (simp add: irq_link_other system_not_irq_link)
  moreover have "\<exists>m'. acknowledge_again P ret n m1 = Some m' \<and> get m' 15 = ret \<and> psr m' AND 0x9F = 0x9F" if "get y 14 = ret" for n
    using acknowledge_forever[of m1 ret P n] m1(2-4) y(2) that by auto
  ultimately show ?thesis using x y(1,2) m1(2,3,5) r by (intro exI[of _ x] exI[of _ y] exI[of _ m1]) auto
qed

text \<open>A handler that has made a call of its own: it returns with the link register inside itself.\<close>

definition ex_handler :: "u32 \<Rightarrow> arm \<Rightarrow> arm option" where
  "ex_handler v x = Some (put 14 (v + 0x20) (put 0 5 x))"

lemma ex_handler_compiled: "compiled ex_handler"
  by (simp add: compiled_def ex_handler_def system_bits irq_link_other system_not_irq_link)

theorem boot_loader_forgets_interrupted_address_witness:
  "\<exists>m1 m2. boot_irq ex_processor ex_layout 0x2000 0x8100 ex_handler (take_irq 0x500 ex_running) = Some m1 \<and>
    boot_irq ex_processor ex_layout 0x2000 0x8100 ex_handler (take_irq 0x600 ex_running) = Some m2 \<and>
    get m2 15 = get m1 15 \<and> get m1 0 = 1"
proof -
  have "psr ex_running AND 0x1F = 0x1F" "word_aligned (r0_at ex_layout)" "word_aligned (r1_at ex_layout)" "word_aligned 0x2000"
    by (simp_all add: ex_running_def ex_layout_def word_aligned_def)
  note h = boot_loader_forgets_interrupted_address[OF this ex_handler_compiled, of ex_processor "0x8100" "0x500"]
  then obtain m1 m2 where "boot_irq ex_processor ex_layout 0x2000 0x8100 ex_handler (take_irq 0x500 ex_running) = Some m1"
    "get m1 0 = 1" "boot_irq ex_processor ex_layout 0x2000 0x8100 ex_handler (take_irq 0x600 ex_running) = Some m2"
    "\<forall>r < 16. get m2 r = get m1 r" by blast
  then show ?thesis by (intro exI[of _ m1] exI[of _ m2]) simp
qed

end
