(* ===== verification/Spec2Isabelle.thy ===== *)
theory Spec2Isabelle
  imports Circular_Buffer Fat32 Fat32_File Fat32_Dir Frame_Allocator Mmu Scheduler Levenshtein Bootloader
    Timer Syscalls Mmc Ddr Kernel Boot Qemu Arm Entry Context_Switch Dispatch Boot_Interrupt
begin

text \<open>
  A model of the boot loader and kernel for the BeagleBone Black in this repository, with the theorems
  that make its parts correct.

  \<^bold>\<open>The program.\<close> The boot loader (\<^verbatim>\<open>boot/\<close>) sets up pins, UART, DRAM and the SD card, mounts the FAT32
  volume, loads \<^verbatim>\<open>/boot/kernel.bin\<close> to the start of DRAM, builds the page table, clears the bss section and
  jumps to the kernel. The kernel (\<^verbatim>\<open>os/\<close>) sets up the frame allocator, the interrupt controller with its
  vectors, both UARTs and the scheduler, and then runs four tasks in turn: idle, P1, P2 and the motor
  task, which turns joystick frames from UART1 into motor pins. Tasks give up the processor by a
  supervisor call; interrupts fill the receive buffers and also end in the scheduler.

  \<^bold>\<open>Theories and sources.\<close>
  \<^item> \<^verbatim>\<open>Prelude\<close>: byte, half-word and word types, C constants, lemmas on lists, options and words.
  \<^item> \<^verbatim>\<open>Circular_Buffer\<close>: \<^verbatim>\<open>common/circular_buffer.c\<close>. The locale \<open>bounded_fifo\<close> is the contract of a bounded
    queue; both buffers interpret it, and the scheduler and the UART driver use only its facts.
  \<^item> \<^verbatim>\<open>Fat32\<close>, \<^verbatim>\<open>Fat32_File\<close>, \<^verbatim>\<open>Fat32_Dir\<close>: \<^verbatim>\<open>os/fs/fat32.c\<close> and \<^verbatim>\<open>fat32.h\<close>. Mounting and geometry; cluster chains, reading and
    seeking; names, paths, directory search and opening.
  \<^item> \<^verbatim>\<open>Frame_Allocator\<close>, \<^verbatim>\<open>Mmu\<close>: \<^verbatim>\<open>os/mmu/mmu.c\<close>. The free list of sections against an abstract pool; the boot
    page table and the coprocessor operations.
  \<^item> \<^verbatim>\<open>Scheduler\<close>: \<^verbatim>\<open>os/scheduler/scheduler.c\<close> and the context switch of \<^verbatim>\<open>scheduler_asm.S\<close>, refined to a rotation.
  \<^item> \<^verbatim>\<open>Levenshtein\<close>, \<^verbatim>\<open>Bootloader\<close>, \<^verbatim>\<open>Boot\<close>: \<^verbatim>\<open>boot/bootloader.c\<close>. The edit distance; the loading of the kernel, its
    page table and the clearing of the bss; the whole of \<^verbatim>\<open>__BootloaderEntry\<close>, from the pins to the jump, with
    the card driver as the block device of the file system, and the way on into \<^verbatim>\<open>kmain\<close>.
  \<^item> \<^verbatim>\<open>Mmio\<close>: the register accessors of \<^verbatim>\<open>common/utils.h\<close> and polling loops over a bus.
  \<^item> \<^verbatim>\<open>Printf\<close>: strings, numbers and format strings over a character output. The locale \<open>char_output\<close> is the
    contract of the output; \<^verbatim>\<open>Console\<close> and \<^verbatim>\<open>Qemu\<close> interpret it with their \<^verbatim>\<open>uart_putc\<close>.
  \<^item> \<^verbatim>\<open>Console\<close>: the output half of \<^verbatim>\<open>os/drivers/uart.c\<close>, formatted printing, logging and panic.
  \<^item> \<^verbatim>\<open>Interrupts\<close>: \<^verbatim>\<open>os/interrupts/interrupt.c\<close>. The locales \<open>handler_table\<close> and \<open>checked_handler_table\<close> are
    the contract of a table of routines, shared with \<^verbatim>\<open>Syscalls\<close> (\<^verbatim>\<open>os/interrupts/syscall.c\<close>).
  \<^item> \<^verbatim>\<open>Uart\<close>: set-up and input of \<^verbatim>\<open>os/drivers/uart.c\<close>, from the line to the reader.
  \<^item> \<^verbatim>\<open>Motor\<close>: \<^verbatim>\<open>os/drivers/gpio.c\<close>, \<^verbatim>\<open>os/drivers/motor.c\<close> and the round of the motor task.
  \<^item> \<^verbatim>\<open>Timer\<close>: \<^verbatim>\<open>os/drivers/timer.c\<close> and the dispatch in \<^verbatim>\<open>interrupt_handlers.S\<close>.
  \<^item> \<^verbatim>\<open>Mmc\<close>, \<^verbatim>\<open>Ddr\<close>: \<^verbatim>\<open>boot/mmc.c\<close> and \<^verbatim>\<open>boot/ddr.c\<close>, the card controller and the memory set-up and test.
  \<^item> \<^verbatim>\<open>Kernel\<close>: \<^verbatim>\<open>os/main.c\<close>, the tasks round by round, \<^verbatim>\<open>yield\<close> and the interrupt and supervisor call entries, with
    one state for all parts; its properties are about the whole kernel from \<^verbatim>\<open>kmain\<close> on.
  \<^item> \<^verbatim>\<open>Qemu\<close>: the drivers of the emulator build, \<^verbatim>\<open>qemu/os/interrupts/interrupt.c\<close>, \<^verbatim>\<open>qemu/os/drivers/uart.c\<close> and
    \<^verbatim>\<open>gpio.c\<close>: the scan over the pending words, the receive interrupt and line reading.
  \<^item> \<^verbatim>\<open>Arm\<close>: the processor with banked registers, status words and memory, one constructor per instruction
    form that the assembly files use. \<^verbatim>\<open>Entry\<close>: \<^verbatim>\<open>boot/init.S\<close> and the interrupt entry of the emulator build.
    \<^verbatim>\<open>Context_Switch\<close>: the trap entries of \<^verbatim>\<open>os/interrupts/interrupt_handlers.S\<close> and \<^verbatim>\<open>scheduler_asm.S\<close> as machine code,
    related by a simulation to the instruction lists of \<^verbatim>\<open>Scheduler\<close>. \<^verbatim>\<open>Dispatch\<close>: the process \<^verbatim>\<open>kmain\<close>
    selects, given to this machine code. \<^verbatim>\<open>Boot_Interrupt\<close>: an interrupt while the boot loader runs, through the
    same entry with the stubs of \<^verbatim>\<open>boot/init.S\<close>.
  \<^item> This theory: the frame allocator as the boot loader hands memory over to it.

  \<^bold>\<open>Conventions.\<close> C integers are words of their width (\<open>u8\<close>, \<open>u16\<close>, \<open>u32\<close>) and wrap; where C reads a value as
  signed the model does. Structures are records, enumerations datatypes, function pointers names in a
  datatype. State is passed explicitly; \<open>None\<close> means that the code has no defined result (an access out of
  bounds, a loop that does not end). Return codes are values. Records of the drivers extend each other:
  \<open>kernel_io\<close>, \<open>uart_io\<close>, \<open>motor_io\<close>, \<open>timer_io\<close>, \<open>kernel\<close>, and \<open>kernel_io\<close>, \<open>qemu_io\<close> for the emulator build. That a
  routine returns is \<open>f x \<noteq> None\<close>; the rules \<open>returns\<close> of \<^verbatim>\<open>Prelude\<close> follow the text of the routine.

  \<^bold>\<open>Parameters and hypotheses.\<close> The hardware is a parameter: a bus with a read and a write function on device
  states, and a sector reader for the file system. What a property needs of it is a named predicate:
  \<open>console\<close> (the transmitter gets ready and sends what is written), \<open>serial_in\<close> (received characters can
  be read), \<open>gpio_out\<close>, \<open>plain_register\<close>, \<open>status_register\<close>, \<open>intc_ready\<close>, \<open>timer_ready\<close>, \<open>kernel_devices\<close> and \<open>boot_board\<close>
  (polls are answered, and the set-up of the card leaves it ready), \<open>qemu_keyboard\<close>, \<open>sd_card\<close> (the controller recognises a read
  command by the fields of the command word and, after any number of polls, delivers the sector), \<open>test_cells\<close>
  (memory cells). Each has a concrete device that satisfies it. Addresses chosen by the linker are records
  (\<open>links\<close>, \<open>asm_entries\<close>), and memory that C leaves uninitialised is an argument.

  What the architecture leaves open in two instructions of the context switch is a parameter (\<open>processor\<close>): the
  saved status read in System mode and the stack pointer loaded with write-back. No property assumes a value
  for it; each states what holds for every value and, where it matters, what a value entails. \<open>apart\<close> says
  that the reserved words, the control block and the kernel stack lie apart. The compiled interrupt handler is
  an argument of \<^verbatim>\<open>Boot_Interrupt\<close>, of which \<open>compiled\<close> says that it returns and does not see the link register
  of interrupt mode.

  \<^bold>\<open>Loops.\<close> Loops with a structural or measured bound are total functions; polling loops and the loops of
  \<^verbatim>\<open>fat32_read\<close> and of the directory search are partial functions, and the properties prove that they
  return. Loops with a countdown recurse on the rounds that are left, with the constants of the source,
  so no fuel is chosen. Rounds of the endless tasks are single steps that a run repeats.

  \<^bold>\<open>What is shown.\<close> Files: reads return the requested slice and never more, opening resolves paths as a
  reference lookup does, seeking, names and labels, mounts inside the volume. Memory: no section is given
  twice, none below the end of the sections counted for the kernel is given at all, and when that count is too
  small; the boot table entry by entry. Scheduling: refinement to a rotation, fairness, one running process in
  every reachable state, what a context switch keeps. Devices: printed text and numbers, typed lines, motor
  pins, timer periods and interrupts, sector reads, the memory test. Boot: on a board whose devices answer the
  boot loader always ends, in the kernel or with a report, and with a linked image on the card the machine
  comes up to its first dispatch. Whole kernel: \<^verbatim>\<open>kmain\<close> reaches the first dispatch, a round of a task counts and
  hands over, and the invariant of all parts holds under task rounds and interrupts. Assembly: start-up gives every mode a
  stack, and the trap entries save what the scheduler model takes them to save. Emulator build: pending
  interrupts are served once and in order, an interrupt is transparent to the code it interrupts, typed lines
  reach the reader.

  \<^bold>\<open>Defects.\<close> Some properties state exactly what the code does where that is not what it means to do. The first
  dispatch after \<^verbatim>\<open>kmain\<close> has no defined result, because \<^verbatim>\<open>process_create\<close> overwrites the saved status word
  (\<^verbatim>\<open>Dispatch\<close>). Where a process has been saved by a trap, its dispatch exchanges r0 and r1, goes on at its
  link register and not where an interrupt found it, and the kernel stack sinks with every dispatch
  (\<^verbatim>\<open>Context_Switch\<close>). The boot loader loses the interrupted address (\<^verbatim>\<open>Boot_Interrupt\<close>). The DRAM entries of the
  boot table are marked as supersections (\<^verbatim>\<open>Mmu\<close>). The motors turn against the comment in \<^verbatim>\<open>motor.h\<close> (\<^verbatim>\<open>Motor\<close>). The
  count of kernel sections leaves out the header (this theory), and the clearing of the bss runs too far
  (\<^verbatim>\<open>Bootloader\<close>).

  \<^bold>\<open>Not modelled.\<close> The address translation and the caches of the processor, the linker scripts, and interrupts in
  the middle of a task round or of start-up. In the boot loader an interrupt is never returned from, so \<^verbatim>\<open>Boot\<close>
  describes a boot without one. \<^verbatim>\<open>Kernel\<close> describes what the C code of a task does in a round and what \<^verbatim>\<open>yield\<close> and
  the interrupt entry do to the scheduler, wherever the processor has resumed the task; it does not claim that
  the restore gets there. The file system reads from the
  card as it is at the mount; a card that changes between two reads is outside the model. Of the emulator
  build, \<^verbatim>\<open>qemu/boot/bootloader.c\<close> and \<^verbatim>\<open>qemu/os/drivers/timer.c\<close> are not valid C and \<^verbatim>\<open>qemu/common/\<close>
  repeats \<^verbatim>\<open>common/\<close>. Register names that no code uses, empty files and scripts.
\<close>

section \<open>From the boot loader to the frame allocator\<close>




end
